(* ===== verification/Prelude.thy ===== *)
theory Prelude
  imports Main "HOL-Library.Word" "HOL-Library.AList"
begin

text \<open>
  Shared vocabulary of the development: Python exceptions as values and the sequencing of
  computations that may raise, bytes and byte strings, slicing with non-negative bounds,
  \<open>ljust\<close>, dictionaries as association lists in insertion order, and the generic lemmas on
  them that the component theories share.
\<close>

section \<open>Exceptions as values\<close>

text \<open>The exceptions the modelled code can raise or catches.\<close>

datatype py_error = StructError | ValueError | OverflowError | ZeroDivisionError
  | IndexError | KeyError | TypeError | OSError | TimeoutError

type_synonym 'a result = "py_error + 'a"

definition bindE :: "'a result \<Rightarrow> ('a \<Rightarrow> 'b result) \<Rightarrow> 'b result" where
  "bindE m f = (case m of Inl e \<Rightarrow> Inl e | Inr x \<Rightarrow> f x)"

named_theorems result_simps \<open>evaluation of computations that may raise\<close>

lemma bindE_Inl [simp, result_simps]: "bindE (Inl e) f = Inl e"
  by (simp add: bindE_def)

lemma bindE_Inr [simp, result_simps]: "bindE (Inr x) f = f x"
  by (simp add: bindE_def)

lemma bindE_eq_Inr: "bindE m f = Inr y \<longleftrightarrow> (\<exists>x. m = Inr x \<and> f x = Inr y)"
  by (cases m) auto

lemma bindE_eq_Inl: "bindE m f = Inl e \<longleftrightarrow> m = Inl e \<or> (\<exists>x. m = Inr x \<and> f x = Inl e)"
  by (cases m) auto

lemma bindE_assoc: "bindE (bindE m f) g = bindE m (\<lambda>x. bindE (f x) g)"
  by (cases m) simp_all

text \<open>\<open>try: m except E: h\<close>, for a handler that catches the errors in \<open>es\<close>.\<close>

definition catchE :: "'a result \<Rightarrow> (py_error \<Rightarrow> bool) \<Rightarrow> 'a result \<Rightarrow> 'a result" where
  "catchE m caught h = (case m of Inl e \<Rightarrow> if caught e then h else Inl e | Inr x \<Rightarrow> Inr x)"

lemma catchE_Inr [simp, result_simps]: "catchE (Inr x) c h = Inr x"
  by (simp add: catchE_def)

lemma catchE_Inl [simp, result_simps]: "catchE (Inl e) c h = (if c e then h else Inl e)"
  by (simp add: catchE_def)

text \<open>A loop whose body may raise.\<close>

fun foldE :: "('a \<Rightarrow> 's \<Rightarrow> 's result) \<Rightarrow> 'a list \<Rightarrow> 's \<Rightarrow> 's result" where
  "foldE f [] s = Inr s"
| "foldE f (x # xs) s = bindE (f x s) (foldE f xs)"

lemma foldE_append: "foldE f (xs @ ys) s = bindE (foldE f xs s) (foldE f ys)"
proof (induction xs arbitrary: s)
  case (Cons x xs)
  then show ?case by (cases "f x s") simp_all
qed simp

lemma foldE_invariant:
  "foldE f xs s = Inr s' \<Longrightarrow> P s \<Longrightarrow> (\<And>x s s'. x \<in> set xs \<Longrightarrow> f x s = Inr s' \<Longrightarrow> P s \<Longrightarrow> P s') \<Longrightarrow> P s'"
  by (induction xs arbitrary: s) (auto simp: bindE_eq_Inr)

lemma foldE_total:
  "P s \<Longrightarrow> (\<And>x s. x \<in> set xs \<Longrightarrow> P s \<Longrightarrow> \<exists>s'. f x s = Inr s' \<and> P s') \<Longrightarrow> \<exists>s'. foldE f xs s = Inr s' \<and> P s'"
proof (induction xs arbitrary: s)
  case (Cons x xs)
  from Cons.prems(2) [of x s] Cons.prems(1) obtain s' where "f x s = Inr s'" "P s'" by auto
  with Cons.IH [of s'] Cons.prems(2) show ?case by simp
qed simp

section \<open>Bytes\<close>

type_synonym byte = "8 word"
type_synonym bytes = "byte list"

text \<open>\<open>bytes(n)\<close> and \<open>bytearray(n)\<close>: \<open>n\<close> zero bytes.\<close>

definition zeros :: "nat \<Rightarrow> bytes" where
  "zeros n = replicate n 0"

lemma length_zeros [simp]: "length (zeros n) = n"
  by (simp add: zeros_def)

lemma nth_zeros [simp]: "i < n \<Longrightarrow> zeros n ! i = 0"
  by (simp add: zeros_def)

text \<open>
  \<open>s.encode("utf-8")\<close> and byte-string literals. Text is a list of characters, each one byte of
  its UTF-8 form (one character per byte for the ASCII text the program exchanges).
\<close>

definition encode :: "string \<Rightarrow> bytes" where
  "encode s = map of_char s"

lemma length_encode [simp]: "length (encode s) = length s"
  by (simp add: encode_def)

text \<open>
  \<open>bs.decode("utf-8", errors="replace")\<close>: the ranges the bytes after a lead byte must lie in,
  \<open>None\<close> for a byte that cannot lead; a sequence that stops short gives one U+FFFD for the part
  that matched.
\<close>

definition utf8_tail :: "nat \<Rightarrow> (nat \<times> nat) list option" where
  "utf8_tail b =
     (if b < 0x80 then Some []
      else if 0xC2 \<le> b \<and> b \<le> 0xDF then Some [(0x80, 0xBF)]
      else if b = 0xE0 then Some [(0xA0, 0xBF), (0x80, 0xBF)]
      else if b = 0xED then Some [(0x80, 0x9F), (0x80, 0xBF)]
      else if 0xE1 \<le> b \<and> b \<le> 0xEF then Some [(0x80, 0xBF), (0x80, 0xBF)]
      else if b = 0xF0 then Some [(0x90, 0xBF), (0x80, 0xBF), (0x80, 0xBF)]
      else if b = 0xF4 then Some [(0x80, 0x8F), (0x80, 0xBF), (0x80, 0xBF)]
      else if 0xF1 \<le> b \<and> b \<le> 0xF3 then Some [(0x80, 0xBF), (0x80, 0xBF), (0x80, 0xBF)]
      else None)"

fun matched :: "(nat \<times> nat) list \<Rightarrow> bytes \<Rightarrow> nat" where
  "matched ((lo, hi) # rs) (b # bs) = (if lo \<le> unat b \<and> unat b \<le> hi then Suc (matched rs bs) else 0)"
| "matched _ _ = 0"

definition replacement :: string where
  "replacement = List.map (\<lambda>n. char_of (n :: nat)) [0xEF, 0xBF, 0xBD]"

function decode_replace :: "bytes \<Rightarrow> string" where
  "decode_replace [] = []"
| "decode_replace (b # bs) =
     (case utf8_tail (unat b) of
        None \<Rightarrow> replacement @ decode_replace bs
      | Some rs \<Rightarrow>
          let k = matched rs bs in
          (if k = length rs then List.map (\<lambda>b. char_of (unat b)) (b # take k bs) else replacement) @ decode_replace (drop k bs))"
  by pat_completeness auto
termination by (relation "measure length") auto

lemma of_char_less: "(of_char c :: nat) < 256"
  using of_char_of [of "of_char c :: nat"] by (metis char_of_char mod_less_divisor zero_less_numeral)

lemma unat_of_char: "unat (of_char c :: byte) = of_char c"
  using unat_of_nat [of "of_char c" , where 'a = 8] of_char_less [of c]
  by (simp only: of_nat_of_char) simp

text \<open>Text of the ASCII range decodes to itself.\<close>

lemma decode_encode_ascii:
  "list_all (\<lambda>c. of_char c < (128 :: nat)) s \<Longrightarrow> decode_replace (encode s) = s"
proof (induction s)
  case (Cons c s)
  then show ?case by (simp add: encode_def utf8_tail_def unat_of_char)
qed (simp add: encode_def)

text \<open>\<open>bs.rstrip(b"\x00")\<close>.\<close>

definition rstrip_nul :: "bytes \<Rightarrow> bytes" where
  "rstrip_nul bs = rev (dropWhile (\<lambda>b. b = 0) (rev bs))"

lemma rstrip_nul_app_nul [simp]: "rstrip_nul (bs @ [0]) = rstrip_nul bs"
  by (simp add: rstrip_nul_def)

lemma rstrip_nul_id: "bs = [] \<or> last bs \<noteq> 0 \<Longrightarrow> rstrip_nul bs = bs"
  by (cases bs rule: rev_cases) (auto simp: rstrip_nul_def)

text \<open>\<open>xs[i:j]\<close> for \<open>0 \<le> i\<close> and \<open>0 \<le> j\<close>: both bounds are cut at the length.\<close>

definition slice :: "'a list \<Rightarrow> nat \<Rightarrow> nat \<Rightarrow> 'a list" where
  "slice xs i j = drop i (take j xs)"

lemma length_slice [simp]: "length (slice xs i j) = min j (length xs) - i"
  by (simp add: slice_def)

lemma slice_offset: "slice xs i (i + n) = take n (drop i xs)"
  by (simp add: slice_def drop_take)

lemma nth_slice: "i + k < j \<Longrightarrow> j \<le> length xs \<Longrightarrow> slice xs i j ! k = xs ! (i + k)"
  by (simp add: slice_def)

lemma slice_full [simp]: "slice xs 0 (length xs) = xs"
  by (simp add: slice_def)

lemma take_beyond: "length h \<le> n \<Longrightarrow> take n (h @ x) = h @ take (n - length h) x"
  by simp

text \<open>\<open>b.ljust(n, fill)\<close>.\<close>

definition ljust :: "nat \<Rightarrow> 'a \<Rightarrow> 'a list \<Rightarrow> 'a list" where
  "ljust n c xs = xs @ replicate (n - length xs) c"

lemma length_ljust [simp]: "length (ljust n c xs) = max n (length xs)"
  by (simp add: ljust_def)

text \<open>
  The slice assignment \<open>buf[i:j] = data\<close> with \<open>j = i + len(data)\<close> and \<open>j \<le> len(buf)\<close>.
\<close>

definition splice :: "'a list \<Rightarrow> nat \<Rightarrow> 'a list \<Rightarrow> 'a list" where
  "splice xs i ys = take i xs @ ys @ drop (i + length ys) xs"

lemma length_splice [simp]: "i + length ys \<le> length xs \<Longrightarrow> length (splice xs i ys) = length xs"
  by (simp add: splice_def)

lemma nth_splice:
  assumes "i + length ys \<le> length xs" and "k < length xs"
  shows "splice xs i ys ! k = (if i \<le> k \<and> k < i + length ys then ys ! (k - i) else xs ! k)"
  using assms by (auto simp: splice_def nth_append min_def)

lemma slice_splice_same:
  assumes "i + length ys \<le> length xs"
  shows "slice (splice xs i ys) i (i + length ys) = ys"
  using assms by (intro nth_equalityI) (auto simp: nth_slice nth_splice)

lemma slice_splice_other:
  assumes "i + length ys \<le> length xs" and "b \<le> i \<or> i + length ys \<le> a"
  shows "slice (splice xs i ys) a b = slice xs a b"
proof (rule nth_equalityI)
  show "length (slice (splice xs i ys) a b) = length (slice xs a b)"
    using assms(1) by simp
  fix k assume "k < length (slice (splice xs i ys) a b)"
  then have "a + k < min b (length xs)" using assms(1) by (simp add: less_diff_conv add.commute)
  then show "slice (splice xs i ys) a b ! k = slice xs a b ! k"
    using assms by (auto simp: slice_def nth_splice)
qed

section \<open>Dictionaries\<close>

text \<open>
  A Python dictionary iterates in insertion order, and storing under a key already present
  keeps its place: an association list with \<open>map_of\<close> and \<open>AList.update\<close>.
\<close>

type_synonym ('k, 'v) dict = "('k \<times> 'v) list"

abbreviation dict_get :: "('k, 'v) dict \<Rightarrow> 'k \<Rightarrow> 'v option" where
  "dict_get d k \<equiv> map_of d k"

abbreviation dict_set :: "'k \<Rightarrow> 'v \<Rightarrow> ('k, 'v) dict \<Rightarrow> ('k, 'v) dict" where
  "dict_set k v d \<equiv> AList.update k v d"

abbreviation dict_keys :: "('k, 'v) dict \<Rightarrow> 'k list" where
  "dict_keys d \<equiv> List.map fst d"

text \<open>The invariant of a dictionary: no key twice.\<close>

abbreviation dict_ok :: "('k, 'v) dict \<Rightarrow> bool" where
  "dict_ok d \<equiv> distinct (List.map fst d)"

lemma dict_get_set: "dict_get (dict_set k v d) j = (if j = k then Some v else dict_get d j)"
  by (simp add: update_conv)

lemma dict_ok_set: "dict_ok d \<Longrightarrow> dict_ok (dict_set k v d)"
  by (rule distinct_update)

lemma dict_set_values:
  "(j, w) \<in> set (dict_set k v d) \<Longrightarrow> dict_ok d \<Longrightarrow> (j = k \<and> w = v) \<or> (j, w) \<in> set d"
proof -
  assume a: "(j, w) \<in> set (dict_set k v d)" and d: "dict_ok d"
  have "dict_get (dict_set k v d) j = Some w"
    using a dict_ok_set [OF d] by simp
  then show ?thesis by (auto simp: update_conv dest: map_of_SomeD split: if_splits)
qed

lemma dict_keys_set: "set (dict_keys (dict_set k v d)) = insert k (set (dict_keys d))"
  using dom_update [of k v d] by simp

lemma dict_keys_set_present:
  "dict_get d k \<noteq> None \<Longrightarrow> dict_keys (dict_set k v d) = dict_keys d"
proof (induction d)
  case (Cons p d)
  then show ?case by (cases p) auto
qed simp

end
