(* ===== verification/PyStruct.thy ===== *)
theory PyStruct
  imports Prelude
begin

text \<open>
  The part of Python's \<open>struct\<close> module the program uses: one integer of 1, 2, 4 or 8 bytes,
  signed or unsigned, in big- or little-endian order, packed on its own, packed into a buffer
  at an offset, or read back. Values outside the format's range, wrong lengths and offsets
  outside the buffer raise \<open>struct.error\<close>, and negative offsets count from the end.
\<close>

section \<open>Digits to base 256\<close>

primrec be_bytes :: "nat \<Rightarrow> nat \<Rightarrow> bytes" where
  "be_bytes 0 v = []"
| "be_bytes (Suc n) v = be_bytes n (v div 256) @ [of_nat v]"

definition be_nat :: "bytes \<Rightarrow> nat" where
  "be_nat bs = foldl (\<lambda>a b. a * 256 + unat b) 0 bs"

lemma length_be_bytes [simp]: "length (be_bytes n v) = n"
  by (induction n arbitrary: v) auto

lemma be_nat_Nil [simp]: "be_nat [] = 0"
  by (simp add: be_nat_def)

lemma be_nat_snoc [simp]: "be_nat (bs @ [b]) = be_nat bs * 256 + unat b"
  by (simp add: be_nat_def)

lemma be_nat_be_bytes: "be_nat (be_bytes n v) = v mod 256 ^ n"
proof (induction n arbitrary: v)
  case (Suc n)
  have "v mod 256 ^ Suc n = 256 * (v div 256 mod 256 ^ n) + v mod 256"
    by (simp add: mod_mult2_eq)
  then show ?case using Suc by (simp add: unat_of_nat)
qed simp

lemma unat_byte_less [simp]: "unat (b :: byte) < 256"
  using unsigned_less [of b, where ?'a = nat] by simp

lemma be_nat_bound: "be_nat bs < 256 ^ length bs"
proof (induction bs rule: rev_induct)
  case (snoc b bs)
  have "unat b < 256" by (rule unat_byte_less)
  then have "be_nat bs * 256 + unat b < (be_nat bs + 1) * 256" by simp
  moreover have "be_nat bs + 1 \<le> 256 ^ length bs" using snoc by simp
  then have "(be_nat bs + 1) * 256 \<le> 256 ^ length bs * 256" by (rule mult_le_mono1)
  ultimately have "be_nat bs * 256 + unat b < 256 ^ length bs * 256" by (rule less_le_trans)
  then show ?case by (simp add: mult.commute)
qed simp

lemma be_nat_slice_bound: "be_nat (slice b i (i + n)) < 256 ^ n"
proof -
  have "be_nat (slice b i (i + n)) < 256 ^ length (slice b i (i + n))" by (rule be_nat_bound)
  also have "\<dots> \<le> 256 ^ n" by (rule power_increasing) simp_all
  finally show ?thesis .
qed

lemma be_bytes_be_nat: "be_bytes (length bs) (be_nat bs) = bs"
proof (induction bs rule: rev_induct)
  case (snoc b bs)
  have "unat b < 256" by (rule unat_byte_less)
  then have "(be_nat bs * 256 + unat b) div 256 = be_nat bs" by simp
  moreover have "(of_nat (be_nat bs * 256 + unat b) :: byte) = b"
  proof -
    have z: "(256 :: byte) = 0" by simp
    show ?thesis by (simp add: z)
  qed
  ultimately show ?case using snoc by simp
qed simp

lemma be_nat_inject: "length as = length bs \<Longrightarrow> be_nat as = be_nat bs \<Longrightarrow> as = bs"
  by (metis be_bytes_be_nat)

lemma be_nat_pair [simp]: "be_nat [a, b] = unat a * 256 + unat b"
  by (simp add: be_nat_def)

section \<open>Formats\<close>

datatype byte_order = BigEndian | LittleEndian

text \<open>The format characters \<open>B b H h I i Q\<close>.\<close>

datatype fmt_code = FmtB | FmtSb | FmtH | FmtSh | FmtI | FmtSi | FmtQ

type_synonym fmt = "byte_order \<times> fmt_code"

fun calcsize :: "fmt_code \<Rightarrow> nat" where
  "calcsize FmtB = 1"
| "calcsize FmtSb = 1"
| "calcsize FmtH = 2"
| "calcsize FmtSh = 2"
| "calcsize FmtI = 4"
| "calcsize FmtSi = 4"
| "calcsize FmtQ = 8"

fun fmt_signed :: "fmt_code \<Rightarrow> bool" where
  "fmt_signed FmtSb = True"
| "fmt_signed FmtSh = True"
| "fmt_signed FmtSi = True"
| "fmt_signed _ = False"

text \<open>The least and the greatest value a format holds.\<close>

definition fmt_lo :: "fmt_code \<Rightarrow> int" where
  "fmt_lo c = (if fmt_signed c then - (256 ^ calcsize c div 2) else 0)"

definition fmt_hi :: "fmt_code \<Rightarrow> int" where
  "fmt_hi c = (if fmt_signed c then 256 ^ calcsize c div 2 - 1 else 256 ^ calcsize c - 1)"

definition in_fmt :: "fmt_code \<Rightarrow> int \<Rightarrow> bool" where
  "in_fmt c v \<longleftrightarrow> fmt_lo c \<le> v \<and> v \<le> fmt_hi c"

lemma calcsize_pos [simp]: "0 < calcsize c"
  by (cases c) simp_all

definition order_bytes :: "byte_order \<Rightarrow> bytes \<Rightarrow> bytes" where
  "order_bytes ord bs = (case ord of BigEndian \<Rightarrow> bs | LittleEndian \<Rightarrow> rev bs)"

lemma length_order_bytes [simp]: "length (order_bytes ord bs) = length bs"
  by (simp add: order_bytes_def split: byte_order.splits)

lemma order_bytes_invol [simp]: "order_bytes ord (order_bytes ord bs) = bs"
  by (simp add: order_bytes_def split: byte_order.splits)

text \<open>\<open>struct.pack(fmt, v)\<close>.\<close>

definition struct_pack :: "fmt \<Rightarrow> int \<Rightarrow> bytes result" where
  "struct_pack f v =
     (if in_fmt (snd f) v
      then Inr (order_bytes (fst f) (be_bytes (calcsize (snd f)) (nat (v mod 256 ^ calcsize (snd f)))))
      else Inl StructError)"

text \<open>The value of exactly \<open>calcsize\<close> bytes: two's complement for a signed format.\<close>

definition fmt_value :: "fmt \<Rightarrow> bytes \<Rightarrow> int" where
  "fmt_value f bs =
     (let v = int (be_nat (order_bytes (fst f) bs))
      in if fmt_signed (snd f) \<and> fmt_hi (snd f) < v then v - 256 ^ calcsize (snd f) else v)"

text \<open>\<open>struct.unpack(fmt, bs)[0]\<close>.\<close>

definition struct_unpack :: "fmt \<Rightarrow> bytes \<Rightarrow> int result" where
  "struct_unpack f bs =
     (if length bs = calcsize (snd f) then Inr (fmt_value f bs) else Inl StructError)"

lemma fmt_value_pack:
  assumes "in_fmt (snd f) v"
  shows "fmt_value f (order_bytes (fst f) (be_bytes (calcsize (snd f)) (nat (v mod 256 ^ calcsize (snd f))))) = v"
proof -
  let ?m = "256 ^ calcsize (snd f) :: int"
  have m: "0 < ?m" "even ?m" by (cases "snd f"; simp)+
  have "int (be_nat (be_bytes (calcsize (snd f)) (nat (v mod ?m)))) = v mod ?m"
    using m by (simp add: be_nat_be_bytes nat_mod_distrib zmod_int)
  moreover have "(if fmt_signed (snd f) \<and> fmt_hi (snd f) < v mod ?m then v mod ?m - ?m else v mod ?m) = v"
  proof (cases "0 \<le> v")
    case True
    with assms m have "v mod ?m = v"
      by (intro mod_pos_pos_trivial) (auto simp: in_fmt_def fmt_hi_def split: if_splits)
    with assms show ?thesis by (auto simp: in_fmt_def)
  next
    case False
    with assms have s: "fmt_signed (snd f)" and lo: "- (?m div 2) \<le> v"
      by (auto simp: in_fmt_def fmt_lo_def split: if_splits)
    from False lo m have "v mod ?m = v + ?m"
      using mod_pos_pos_trivial [of "v + ?m" ?m] by simp
    with s lo m show ?thesis by (auto simp: fmt_hi_def)
  qed
  ultimately show ?thesis by (simp add: fmt_value_def Let_def)
qed

lemma struct_unpack_pack:
  "struct_pack f v = Inr bs \<Longrightarrow> struct_unpack f bs = Inr v"
  by (auto simp: struct_pack_def struct_unpack_def fmt_value_pack split: if_splits)

lemma struct_pack_length: "struct_pack f v = Inr bs \<Longrightarrow> length bs = calcsize (snd f)"
  by (auto simp: struct_pack_def split: if_splits)

lemma struct_pack_Inr_iff: "(\<exists>bs. struct_pack f v = Inr bs) \<longleftrightarrow> in_fmt (snd f) v"
  by (simp add: struct_pack_def)

section \<open>Buffers\<close>

text \<open>
  Where in a buffer of \<open>n\<close> bytes \<open>k\<close> bytes at the offset \<open>off\<close> lie; \<open>None\<close> where
  \<open>pack_into\<close> and \<open>unpack_from\<close> raise \<open>struct.error\<close>. A negative offset counts from the end
  and may not reach over it.
\<close>

definition resolve_offset :: "nat \<Rightarrow> nat \<Rightarrow> int \<Rightarrow> nat option" where
  "resolve_offset k n off =
     (if off < 0
      then if 0 < off + int k \<or> off + int n < 0 then None else Some (nat (off + int n))
      else if int n - off < int k then None else Some (nat off))"

lemma resolve_offset_fits: "resolve_offset k n off = Some i \<Longrightarrow> i + k \<le> n"
  by (auto simp: resolve_offset_def split: if_splits)

lemma resolve_offset_nonneg:
  "0 \<le> off \<Longrightarrow> off + int k \<le> int n \<Longrightarrow> resolve_offset k n off = Some (nat off)"
  by (simp add: resolve_offset_def)

text \<open>\<open>struct.pack_into(fmt, buf, off, v)\<close>: the buffer afterwards.\<close>

definition pack_into :: "fmt \<Rightarrow> bytes \<Rightarrow> int \<Rightarrow> int \<Rightarrow> bytes result" where
  "pack_into f buf off v =
     (case resolve_offset (calcsize (snd f)) (length buf) off of
        None \<Rightarrow> Inl StructError
      | Some i \<Rightarrow> bindE (struct_pack f v) (\<lambda>bs. Inr (splice buf i bs)))"

text \<open>\<open>struct.unpack_from(fmt, buf, off)[0]\<close>.\<close>

definition unpack_from :: "fmt \<Rightarrow> bytes \<Rightarrow> int \<Rightarrow> int result" where
  "unpack_from f buf off =
     (case resolve_offset (calcsize (snd f)) (length buf) off of
        None \<Rightarrow> Inl StructError
      | Some i \<Rightarrow> struct_unpack f (slice buf i (i + calcsize (snd f))))"

lemma pack_into_Inr:
  "pack_into f buf off v = Inr buf' \<longleftrightarrow>
     (\<exists>i bs. resolve_offset (calcsize (snd f)) (length buf) off = Some i \<and>
       struct_pack f v = Inr bs \<and> buf' = splice buf i bs)"
  by (auto simp: pack_into_def bindE_eq_Inr split: option.splits)

lemma packed_fits:
  "resolve_offset (calcsize (snd f)) n off = Some i \<Longrightarrow> struct_pack f v = Inr bs \<Longrightarrow> i + length bs \<le> n"
  by (simp add: resolve_offset_fits struct_pack_length)

lemma pack_into_length: "pack_into f buf off v = Inr buf' \<Longrightarrow> length buf' = length buf"
  by (auto simp: pack_into_Inr packed_fits)

lemma unpack_from_pack_into:
  assumes "pack_into f buf off v = Inr buf'"
  shows "unpack_from f buf' off = Inr v"
proof -
  from assms obtain i bs where i: "resolve_offset (calcsize (snd f)) (length buf) off = Some i"
    and bs: "struct_pack f v = Inr bs" and buf': "buf' = splice buf i bs"
    by (auto simp: pack_into_Inr)
  have len: "length bs = calcsize (snd f)" by (rule struct_pack_length [OF bs])
  with i have "i + length bs \<le> length buf" by (simp add: resolve_offset_fits)
  from slice_splice_same [OF this] len have "slice buf' i (i + calcsize (snd f)) = bs"
    by (simp add: buf')
  with i bs show ?thesis
    by (simp add: unpack_from_def struct_unpack_pack pack_into_length [OF assms])
qed

text \<open>A field that lies wholly before or after the packed one reads as it did.\<close>

lemma unpack_from_pack_into_other:
  assumes "pack_into f buf off v = Inr buf'" and "0 \<le> off" and "0 \<le> off'"
    and "off' + int (calcsize (snd g)) \<le> off \<or> off + int (calcsize (snd f)) \<le> off'"
  shows "unpack_from g buf' off' = unpack_from g buf off'"
proof -
  from assms(1) obtain i bs where i: "resolve_offset (calcsize (snd f)) (length buf) off = Some i"
    and bs: "struct_pack f v = Inr bs" and buf': "buf' = splice buf i bs"
    by (auto simp: pack_into_Inr)
  have len: "length bs = calcsize (snd f)" by (rule struct_pack_length [OF bs])
  with i have fits: "i + length bs \<le> length buf" by (simp add: resolve_offset_fits)
  from i assms(2) have i_eq: "i = nat off" by (auto simp: resolve_offset_def split: if_splits)
  show ?thesis
  proof (cases "resolve_offset (calcsize (snd g)) (length buf) off'")
    case None
    with fits show ?thesis by (simp add: unpack_from_def buf')
  next
    case (Some j)
    with assms(3) have "j = nat off'" by (auto simp: resolve_offset_def split: if_splits)
    with assms(2-4) i_eq len have "j + calcsize (snd g) \<le> i \<or> i + length bs \<le> j" by auto
    then have "slice buf' j (j + calcsize (snd g)) = slice buf j (j + calcsize (snd g))"
      unfolding buf' by (intro slice_splice_other fits) auto
    with Some fits show ?thesis by (simp add: unpack_from_def buf')
  qed
qed

lemma pack_into_nonneg:
  assumes "0 \<le> off" and "off + int (calcsize (snd f)) \<le> int (length buf)" and "in_fmt (snd f) v"
  shows "\<exists>buf'. pack_into f buf off v = Inr buf'"
  using assms struct_pack_Inr_iff [of f v]
  by (auto simp: pack_into_Inr resolve_offset_nonneg)

lemma pack_into_error: "pack_into f buf off v = Inl e \<Longrightarrow> e = StructError"
  by (auto simp: pack_into_def struct_pack_def split: option.splits if_splits)

text \<open>\<open>try: pack_into(\<dots>) except struct.error: pass\<close>.\<close>

lemma pack_into_caught:
  "catchE (pack_into f buf off v) (\<lambda>e. e = StructError) (Inr buf) =
     Inr (case pack_into f buf off v of Inr b \<Rightarrow> b | Inl e \<Rightarrow> buf)"
  by (cases "pack_into f buf off v") (auto dest: pack_into_error)

end
