(* ===== verification/Crc32.thy ===== *)
theory Crc32
  imports Prelude
begin

unbundle bit_operations_syntax

text \<open>
  The checksum \<open>binascii.crc32(data) & 0xFFFFFFFF\<close> of every frame: the reflected CRC-32 with
  the polynomial 0xEDB88320, all-ones start value and final complement. Beside the definition,
  what the frame check relies on: a change confined to four consecutive bytes changes the sum.
\<close>

section \<open>Definition\<close>

definition crc_poly :: "32 word" where
  "crc_poly = 0xEDB88320"

text \<open>One bit: shift right, and add the polynomial when a one was shifted out.\<close>

definition crc_bit :: "32 word \<Rightarrow> 32 word" where
  "crc_bit c = (if bit c 0 then drop_bit 1 c XOR crc_poly else drop_bit 1 c)"

definition crc_byte :: "32 word \<Rightarrow> byte \<Rightarrow> 32 word" where
  "crc_byte c b = (crc_bit ^^ 8) (c XOR ucast b)"

definition crc_state :: "32 word \<Rightarrow> bytes \<Rightarrow> 32 word" where
  "crc_state c bs = foldl crc_byte c bs"

definition crc32 :: "bytes \<Rightarrow> 32 word" where
  "crc32 bs = NOT (crc_state (NOT 0) bs)"

lemma crc_state_simps [simp]:
  "crc_state c [] = c"
  "crc_state c (b # bs) = crc_state (crc_byte c b) bs"
  by (simp_all add: crc_state_def)

lemma crc_state_append: "crc_state c (as @ bs) = crc_state (crc_state c as) bs"
  by (simp add: crc_state_def)

section \<open>The bit step is linear and loses nothing\<close>

lemma crc_poly_top: "bit crc_poly 31"
  by (simp add: crc_poly_def)

lemma crc_bit_xor: "crc_bit (a XOR b) = crc_bit a XOR crc_bit b"
  by (auto simp: crc_bit_def bit_xor_iff ac_simps)

lemma crc_bit_top: "bit (crc_bit c) 31 = bit c 0"
  using crc_poly_top by (auto simp: crc_bit_def bit_simps dest: bit_imp_le_length)

lemma crc_bit_inj: "inj crc_bit"
proof (rule injI)
  fix c d assume eq: "crc_bit c = crc_bit d"
  then have lsb: "bit c 0 = bit d 0" by (metis crc_bit_top)
  have "drop_bit 1 c = crc_bit c XOR (if bit c 0 then crc_poly else 0)"
    by (simp add: crc_bit_def xor.assoc)
  also have "\<dots> = drop_bit 1 d"
    unfolding eq lsb by (simp add: crc_bit_def xor.assoc)
  finally have "drop_bit 1 c = drop_bit 1 d" .
  then have "bit c (Suc n) = bit d (Suc n)" for n
    by (metis bit_drop_bit_eq plus_1_eq_Suc comp_apply)
  with lsb have "bit c n = bit d n" for n by (cases n) auto
  then show "c = d" by (intro bit_eqI) auto
qed

lemma crc_bits_inj: "inj (crc_bit ^^ n)"
  by (rule inj_fn [OF crc_bit_inj])

lemma crc_bits_xor: "(crc_bit ^^ n) (a XOR b) = (crc_bit ^^ n) a XOR (crc_bit ^^ n) b"
  by (induction n) (simp_all add: crc_bit_xor)

section \<open>Evaluation\<close>

named_theorems crc_eval \<open>equations that evaluate the checksum of concrete bytes\<close>

lemma crc_bit_eval [crc_eval]:
  "crc_bit c = (if odd c then drop_bit 1 c XOR 0xEDB88320 else drop_bit 1 c)"
  by (simp add: crc_bit_def crc_poly_def bit_0)

lemma crc_byte_eval [crc_eval]:
  "crc_byte c b = crc_bit (crc_bit (crc_bit (crc_bit (crc_bit (crc_bit (crc_bit (crc_bit (c XOR ucast b))))))))"
  by (simp add: crc_byte_def numeral_eq_Suc)

text \<open>The published check value of the algorithm.\<close>

lemma crc32_check_value: "crc32 (encode ''123456789'') = 0xCBF43926"
  by (simp add: crc32_def encode_def) (simp add: crc_eval)

section \<open>Changes the checksum detects\<close>

lemma xor_cancel_right: "(a :: 32 word) XOR c = b XOR c \<longleftrightarrow> a = b"
proof
  assume "a XOR c = b XOR c"
  then have "(a XOR c) XOR c = (b XOR c) XOR c" by (rule arg_cong)
  then show "a = b" by (simp add: xor.assoc)
qed simp

lemma xor_cancel_left: "(c :: 32 word) XOR a = c XOR b \<longleftrightarrow> a = b"
  by (simp only: xor.commute [of c] xor_cancel_right)

lemma crc_byte_inj_state: "crc_byte c b = crc_byte d b \<Longrightarrow> c = d"
  by (auto simp: crc_byte_def xor_cancel_right dest!: injD [OF crc_bits_inj])

lemma crc_state_inj: "crc_state c bs = crc_state d bs \<Longrightarrow> c = d"
  by (induction bs arbitrary: c d) (auto dest: crc_byte_inj_state)

text \<open>The bit step on a value whose low bits are zero only shifts.\<close>

lemma crc_bits_shift: "(\<And>i. i < n \<Longrightarrow> \<not> bit x i) \<Longrightarrow> (crc_bit ^^ n) x = drop_bit n x"
proof (induction n arbitrary: x)
  case (Suc n)
  from Suc.prems [of 0] have "crc_bit x = drop_bit 1 x" by (simp add: crc_bit_def)
  moreover have "(crc_bit ^^ n) (drop_bit 1 x) = drop_bit n (drop_bit 1 x)"
    using Suc.prems by (intro Suc.IH) (simp add: bit_drop_bit_eq)
  ultimately show ?case by (simp add: funpow_Suc_right del: funpow.simps)
qed simp

text \<open>Up to four bytes as one word, the first byte lowest.\<close>

primrec le_word :: "bytes \<Rightarrow> 32 word" where
  "le_word [] = 0"
| "le_word (b # bs) = ucast b XOR push_bit 8 (le_word bs)"

lemma le_word_bit: "bit (le_word bs) i \<Longrightarrow> i < 8 * length bs"
proof (induction bs arbitrary: i)
  case (Cons b bs)
  show ?case
  proof (cases "i < 8")
    case False
    then have "\<not> bit (ucast b :: 32 word) i"
      by (auto simp: bit_ucast_iff dest: bit_imp_le_length)
    with Cons.prems have "bit (le_word bs) (i - 8)" by (auto simp: bit_xor_iff bit_push_bit_iff)
    from Cons.IH [OF this] show ?thesis by simp
  qed simp
qed simp

lemma drop_push_le_word:
  assumes "length bs \<le> 3"
  shows "drop_bit 8 (push_bit 8 (le_word bs)) = le_word bs"
proof (rule bit_eqI)
  fix i
  show "bit (drop_bit 8 (push_bit 8 (le_word bs))) i = bit (le_word bs) i"
    using le_word_bit [of bs i] assms by (auto simp: bit_simps dest: bit_imp_le_length)
qed

lemma crc_state_le_word:
  "length bs \<le> 4 \<Longrightarrow> crc_state c bs = (crc_bit ^^ (8 * length bs)) (c XOR le_word bs)"
proof (induction bs arbitrary: c)
  case (Cons b bs)
  then have short: "length bs \<le> 3" by simp
  have "(crc_bit ^^ 8) (push_bit 8 (le_word bs)) = le_word bs"
    by (subst crc_bits_shift) (simp_all add: bit_push_bit_iff drop_push_le_word [OF short])
  then have "crc_byte c b XOR le_word bs = (crc_bit ^^ 8) (c XOR le_word (b # bs))"
    by (simp add: crc_byte_def crc_bits_xor ac_simps)
  moreover have "crc_state c (b # bs) = (crc_bit ^^ (8 * length bs)) (crc_byte c b XOR le_word bs)"
    using Cons.IH short by simp
  ultimately show ?case by (simp add: funpow_add add.commute [of 8] del: le_word.simps)
qed simp

lemma ucast_byte_inject: "(ucast a :: 32 word) = ucast b \<longleftrightarrow> a = (b :: byte)"
proof
  assume "(ucast a :: 32 word) = ucast b"
  then have "bit (ucast a :: 32 word) n = bit (ucast b :: 32 word) n" for n by simp
  then have "bit a n = bit b n" if "n < 8" for n
    using that \<open>\<And>n. bit (ucast a :: 32 word) n = bit (ucast b :: 32 word) n\<close> [of n]
    by (simp add: bit_ucast_iff)
  then show "a = b" by (intro bit_eqI) simp
qed simp

lemma le_word_inj: "length as = length bs \<Longrightarrow> length bs \<le> 4 \<Longrightarrow> le_word as = le_word bs \<Longrightarrow> as = bs"
proof (induction as bs rule: list_induct2)
  case (Cons a as b bs)
  then have short: "length as \<le> 3" "length bs \<le> 3" by simp_all
  have hi: "drop_bit 8 (ucast c :: 32 word) = 0" for c :: byte
    by (rule bit_eqI) (auto simp: bit_simps dest: bit_imp_le_length)
  have "drop_bit 8 (le_word (a # as)) = le_word as" "drop_bit 8 (le_word (b # bs)) = le_word bs"
    by (simp_all add: hi drop_push_le_word [OF short(1)] drop_push_le_word [OF short(2)])
  with Cons.prems(2) have "le_word as = le_word bs" by (simp only:)
  moreover from this Cons.prems have "(ucast a :: 32 word) = ucast b" by (simp add: xor_cancel_right)
  then have "a = b"
    by (simp add: ucast_byte_inject)
  ultimately show ?case using Cons.IH Cons.prems by simp
qed simp

theorem crc32_burst:
  assumes "length as = length bs" and "length bs \<le> 4" and "as \<noteq> bs"
  shows "crc32 (pre @ as @ suf) \<noteq> crc32 (pre @ bs @ suf)"
proof
  assume "crc32 (pre @ as @ suf) = crc32 (pre @ bs @ suf)"
  then have "crc_state (crc_state (NOT 0) pre) as = crc_state (crc_state (NOT 0) pre) bs"
    by (auto simp: crc32_def crc_state_append dest: crc_state_inj)
  with assms(1,2) have "le_word as = le_word bs"
    by (auto simp: crc_state_le_word xor_cancel_left dest!: injD [OF crc_bits_inj])
  with assms show False using le_word_inj by blast
qed

end
