(* ===== verification/Framing.thy ===== *)
theory Framing
  imports PyStruct Crc32
begin

text \<open>
  The interfaces the byte-level components share, each a locale that its components interpret:
  self-delimiting encodings read from the front of a byte stream, frames guarded by a
  checksum, stores of configuration pages, and machines that keep an invariant.
\<close>

section \<open>Self-delimiting encodings\<close>

text \<open>
  \<open>dec\<close> reads one item from the front of a stream and returns the rest; on a stream that
  ends inside an item it reports nothing.
\<close>

locale prefix_codec =
  fixes enc :: "'a \<Rightarrow> 'b list"
    and dec :: "'b list \<Rightarrow> ('a \<times> 'b list) option"
    and ok :: "'a \<Rightarrow> bool"
  assumes dec_enc: "ok x \<Longrightarrow> dec (enc x @ rest) = Some (x, rest)"
    and dec_short: "ok x \<Longrightarrow> enc x = b @ c \<Longrightarrow> c \<noteq> [] \<Longrightarrow> dec b = None"
    and dec_Nil: "dec [] = None"
begin

lemma enc_nonempty: "ok x \<Longrightarrow> enc x \<noteq> []"
  using dec_enc [of x "[]"] dec_Nil by auto

lemma enc_inject: "ok x \<Longrightarrow> ok y \<Longrightarrow> enc x = enc y \<Longrightarrow> x = y"
  using dec_enc [of x "[]"] dec_enc [of y "[]"] by simp

text \<open>No encoding is a proper prefix of another.\<close>

lemma prefix_free: "ok x \<Longrightarrow> ok y \<Longrightarrow> enc y = enc x @ c \<Longrightarrow> c = [] \<and> x = y"
  using dec_short [of y "enc x" c] dec_enc [of x "[]"] enc_inject by fastforce

text \<open>
  A prefix of a stream of items is some whole items and a tail in which no item is complete.
\<close>

lemma prefix_split:
  assumes "list_all ok xs" and "concat (List.map enc xs) = b @ c"
  shows "\<exists>ys zs t. xs = ys @ zs \<and> b = concat (List.map enc ys) @ t \<and> dec t = None
    \<and> t @ c = concat (List.map enc zs)"
  using assms
proof (induction xs arbitrary: b)
  case Nil
  then have "b = []" "c = []" by simp_all
  then show ?case using dec_Nil by force
next
  case (Cons x xs)
  show ?case
  proof (cases "length (enc x) \<le> length b")
    case True
    with Cons.prems(2) have "take (length (enc x)) b = enc x"
      by (simp add: append_eq_append_conv_if)
    then have b: "b = enc x @ drop (length (enc x)) b"
      by (metis append_take_drop_id)
    with Cons.prems(2) have "concat (List.map enc xs) = drop (length (enc x)) b @ c"
      by (metis append.assoc concat.simps(2) list.simps(9) same_append_eq)
    with Cons obtain ys zs t where "xs = ys @ zs" "drop (length (enc x)) b = concat (List.map enc ys) @ t"
      "dec t = None" "t @ c = concat (List.map enc zs)"
      by (metis list.pred_inject(2))
    with b have "x # xs = (x # ys) @ zs \<and> b = concat (List.map enc (x # ys)) @ t \<and> dec t = None
        \<and> t @ c = concat (List.map enc zs)"
      by simp
    then show ?thesis by blast
  next
    case False
    with Cons.prems(2) have "take (length b) (enc x) = b"
      by (simp add: append_eq_append_conv_if)
    then have "enc x = b @ drop (length b) (enc x)"
      by (metis append_take_drop_id)
    with False Cons.prems(1) have "dec b = None"
      by (intro dec_short [of x b "drop (length b) (enc x)"]) auto
    with Cons.prems(2) have "x # xs = [] @ (x # xs) \<and> b = concat (List.map enc []) @ b \<and> dec b = None
        \<and> b @ c = concat (List.map enc (x # xs))"
      by simp
    then show ?thesis by blast
  qed
qed

end

section \<open>Frames guarded by a checksum\<close>

text \<open>
  \<open>accepts payload trailer\<close>: the receiver takes a frame with this payload and these four last
  bytes. \<open>ok\<close> is the receiver's condition on the payload, which only looks at its length. The
  checksum notices every change confined to four consecutive bytes.
\<close>

locale checked_frame =
  fixes csum :: "bytes \<Rightarrow> 32 word"
    and accepts :: "bytes \<Rightarrow> bytes \<Rightarrow> bool"
    and ok :: "bytes \<Rightarrow> bool"
  assumes accepts_iff: "ok p \<Longrightarrow> length t = 4 \<Longrightarrow> accepts p t \<longleftrightarrow> t = be_bytes 4 (unat (csum p))"
    and ok_length: "ok p \<Longrightarrow> length q = length p \<Longrightarrow> ok q"
    and csum_burst: "length as = length bs \<Longrightarrow> length bs \<le> 4 \<Longrightarrow> as \<noteq> bs \<Longrightarrow>
      csum (pre @ as @ suf) \<noteq> csum (pre @ bs @ suf)"
begin

lemma trailer_inject: "be_bytes 4 (unat (v :: 32 word)) = be_bytes 4 (unat w) \<Longrightarrow> v = w"
proof -
  assume "be_bytes 4 (unat v) = be_bytes 4 (unat w)"
  then have "be_nat (be_bytes 4 (unat v)) = be_nat (be_bytes 4 (unat w))" by (rule arg_cong)
  then have "unat v mod 4294967296 = unat w mod 4294967296" by (simp add: be_nat_be_bytes)
  moreover have "unat v < 4294967296" "unat w < 4294967296"
    using unsigned_less [of v, where ?'a = nat] unsigned_less [of w, where ?'a = nat] by simp_all
  ultimately have "unat v = unat w" by simp
  then show ?thesis by (simp only: word_unat_eq_iff)
qed

lemma burst_rejected:
  assumes "ok (pre @ as @ suf)" and "length t = 4" and "accepts (pre @ as @ suf) t"
    and "length bs = length as" and "length as \<le> 4" and "bs \<noteq> as"
  shows "\<not> accepts (pre @ bs @ suf) t"
proof
  assume bad: "accepts (pre @ bs @ suf) t"
  have "ok (pre @ bs @ suf)" using assms(4) by (intro ok_length [OF assms(1)]) simp
  with bad assms(1-3) have "csum (pre @ as @ suf) = csum (pre @ bs @ suf)"
    by (auto simp: accepts_iff dest: trailer_inject)
  with assms(4-6) csum_burst [of bs as pre suf] show False by simp
qed

lemma trailer_change_rejected:
  "ok p \<Longrightarrow> length t = 4 \<Longrightarrow> accepts p t \<Longrightarrow> length t' = 4 \<Longrightarrow> t' \<noteq> t \<Longrightarrow> \<not> accepts p t'"
  by (simp add: accepts_iff)

end

section \<open>Page stores\<close>

text \<open>What the initialisation loops rely on: storing one page changes that page only.\<close>

locale page_store =
  fixes get :: "'s \<Rightarrow> nat \<Rightarrow> bytes option"
    and put :: "nat \<Rightarrow> bytes \<Rightarrow> 's \<Rightarrow> 's"
  assumes get_put: "get (put k d s) j = (if j = k then Some d else get s j)"
begin

text \<open>\<open>for k, d in items: put(k, d)\<close>.\<close>

lemma get_put_all:
  "distinct (List.map fst items) \<Longrightarrow>
     get (fold (\<lambda>(k, d). put k d) items s) j =
       (case map_of items j of Some d \<Rightarrow> Some d | None \<Rightarrow> get s j)"
proof (induction items arbitrary: s)
  case (Cons p items)
  obtain k d where p: "p = (k, d)" by (cases p)
  from Cons.prems p have "map_of items k = None" by (simp add: map_of_eq_None_iff)
  with Cons p show ?case by (auto simp: get_put split: option.splits)
qed simp

lemma put_same: "get (put k d' (put k d s)) j = get (put k d' s) j"
  by (simp add: get_put)

end

section \<open>Byte sources\<close>

text \<open>
  What the readers of files and ports rely on: a read of \<open>n\<close> bytes gives the next \<open>n\<close> of the
  bytes still available, or all of them where there are fewer.
\<close>

locale byte_source =
  fixes read :: "nat \<Rightarrow> 's \<Rightarrow> bytes \<times> 's"
    and avail :: "'s \<Rightarrow> bytes"
  assumes read_bytes: "fst (read n s) = take n (avail s)"
    and read_avail: "avail (snd (read n s)) = drop n (avail s)"
begin

lemma read_exact:
  "avail s = xs @ rest \<Longrightarrow> length xs = n \<Longrightarrow> \<exists>s'. read n s = (xs, s') \<and> avail s' = rest"
  using read_bytes [of n s] read_avail [of n s] by (cases "read n s") auto

lemma read_short: "length (avail s) < n \<Longrightarrow> length (fst (read n s)) < n"
  by (simp add: read_bytes)

end

text \<open>A file, or the bytes a port delivers before its timeout: the rest of it.\<close>

definition take_read :: "nat \<Rightarrow> bytes \<Rightarrow> bytes \<times> bytes" where
  "take_read n s = (take n s, drop n s)"

interpretation file_source: byte_source take_read "\<lambda>s. s"
  by unfold_locales (simp_all add: take_read_def)

section \<open>Machines with an invariant\<close>

locale invariant_machine =
  fixes step :: "'e \<Rightarrow> 's \<Rightarrow> 's"
    and inv :: "'s \<Rightarrow> bool"
    and allowed :: "'e \<Rightarrow> bool"
  assumes inv_step: "inv s \<Longrightarrow> allowed e \<Longrightarrow> inv (step e s)"
begin

lemma inv_run: "inv s \<Longrightarrow> list_all allowed es \<Longrightarrow> inv (fold step es s)"
  by (induction es arbitrary: s) (auto intro: inv_step)

end

end
