(* ===== verification/Systems.thy ===== *)
theory Systems
  imports Framing
begin

text \<open>
  Labelled transition systems: the runs of a step relation, and the interfaces of an invariant,
  of a refinement by another system, and of a system whose runs end.
\<close>

section \<open>Runs\<close>

inductive run :: "('s \<Rightarrow> 'a \<Rightarrow> 's \<Rightarrow> bool) \<Rightarrow> 's \<Rightarrow> 'a list \<Rightarrow> 's \<Rightarrow> bool" for step where
  run_Nil: "run step s [] s"
| run_Cons: "step s a s' \<Longrightarrow> run step s' as s'' \<Longrightarrow> run step s (a # as) s''"

inductive_cases run_NilE [elim!]: "run step s [] s'"
inductive_cases run_ConsE [elim!]: "run step s (a # as) s'"

inductive_simps run_simps [simp]: "run step s [] s'" "run step s (a # as) s'"

lemma run_append [simp]: "run step s (as @ bs) s'' \<longleftrightarrow> (\<exists>s'. run step s as s' \<and> run step s' bs s'')"
  by (induction as arbitrary: s) auto

lemma run_single: "run step s [a] s' \<longleftrightarrow> step s a s'"
  by simp

section \<open>Invariants\<close>

locale invariant_system =
  fixes step :: "'s \<Rightarrow> 'a \<Rightarrow> 's \<Rightarrow> bool"
    and inv :: "'s \<Rightarrow> bool"
  assumes inv_step: "inv s \<Longrightarrow> step s a s' \<Longrightarrow> inv s'"
begin

lemma inv_run: "run step s as s' \<Longrightarrow> inv s \<Longrightarrow> inv s'"
  by (induction rule: run.induct) (auto intro: inv_step)

end

section \<open>Refinement\<close>

text \<open>
  Every step of the concrete system, under an invariant of it, is a run of the abstract one
  between related states.
\<close>

locale refined_system =
  fixes cstep :: "'c \<Rightarrow> 'i \<Rightarrow> 'c \<Rightarrow> bool"
    and astep :: "'s \<Rightarrow> 'a \<Rightarrow> 's \<Rightarrow> bool"
    and rel :: "'c \<Rightarrow> 's \<Rightarrow> bool"
  assumes simulates: "rel c s \<Longrightarrow> cstep c i c' \<Longrightarrow> \<exists>as s'. run astep s as s' \<and> rel c' s'"
begin

lemma run_refines: "run cstep c is c' \<Longrightarrow> rel c s \<Longrightarrow> \<exists>as s'. run astep s as s' \<and> rel c' s'"
proof (induction arbitrary: s rule: run.induct)
  case (run_Nil c)
  then show ?case by (intro exI [of _ "[]"] exI [of _ s]) simp
next
  case (run_Cons c i c1 "is" c2)
  from simulates [OF run_Cons.prems run_Cons.hyps(1)] obtain as1 s1 where s1: "run astep s as1 s1" "rel c1 s1" by blast
  from run_Cons.IH [OF s1(2)] obtain as2 s2 where "run astep s1 as2 s2" "rel c2 s2" by blast
  with s1(1) have "run astep s (as1 @ as2) s2" by auto
  with \<open>rel c2 s2\<close> show ?case by blast
qed

end

section \<open>Runs that end\<close>

text \<open>
  A system whose steps descend in a well-founded order has no endless run: from every state
  it reaches one where it is stuck, whichever steps it takes.
\<close>

locale ending_system =
  fixes step :: "'s \<Rightarrow> 'a \<Rightarrow> 's \<Rightarrow> bool"
    and below :: "('s \<times> 's) set"
  assumes wf: "wf below"
    and descends: "step s a s' \<Longrightarrow> (s', s) \<in> below"
begin

lemma no_endless_run: "\<nexists>f l. \<forall>i. step (f i) (l i) (f (Suc i))"
proof
  assume "\<exists>f l. \<forall>i. step (f i) (l i) (f (Suc i))"
  then obtain f where "\<And>i. (f (Suc i), f i) \<in> below" using descends by metis
  with wf show False unfolding wf_iff_no_infinite_down_chain by blast
qed

lemma reaches_end: "\<exists>as s'. run step s as s' \<and> (\<forall>a t. \<not> step s' a t)"
  using wf
proof (induction s rule: wf_induct_rule)
  case (less s)
  show ?case
  proof (cases "\<exists>a t. step s a t")
    case True
    then obtain a t where t: "step s a t" by blast
    with less [OF descends [OF t]] obtain as s' where "run step t as s'" "\<forall>a t. \<not> step s' a t" by blast
    with t have "run step s (a # as) s'" by auto
    with \<open>\<forall>a t. \<not> step s' a t\<close> show ?thesis by (intro exI [of _ "a # as"] exI [of _ s'] conjI)
  next
    case False
    then show ?thesis by (intro exI [of _ "[]"] exI [of _ s]) simp
  qed
qed

end

end
