(* ===== verification/PyFloat.thy ===== *)
theory PyFloat
  imports Prelude Complex_Main
begin

text \<open>
  Python's \<open>float\<close>: IEEE 754 binary64 with round-half-even, as exact rationals, two infinities
  and one NaN. Every arithmetic operation is the exact operation followed by the rounding
  \<open>rnd\<close>; a division by zero raises, as Python's does. The sign of a zero is not kept: the
  modelled code never copies or divides by one, and the text of a printed number is left out. The lemmas give monotonicity of the
  rounding, the exactness of the integers below \<open>2 ^ 53\<close>, and from them interval bounds.
\<close>

section \<open>Rounding\<close>

datatype pyfloat = Fin rat | PInf | NInf | NaN

text \<open>The nearest integer, the even one of two nearest.\<close>

definition round_even :: "rat \<Rightarrow> int" where
  "round_even x =
     (let f = \<lfloor>x\<rfloor>; d = x - of_int f
      in if d < 1 / 2 then f else if 1 / 2 < d then f + 1 else if even f then f else f + 1)"

lemma round_even_of_int [simp]: "round_even (of_int n) = n"
  by (simp add: round_even_def)

lemma round_even_near: "of_int (round_even x) \<le> x + 1 / 2" "x - 1 / 2 \<le> of_int (round_even x)"
  by (auto simp: round_even_def Let_def; linarith)+

lemma round_even_mono:
  assumes "x \<le> y" shows "round_even x \<le> round_even y"
proof (cases "\<lfloor>x\<rfloor> = \<lfloor>y\<rfloor>")
  case True
  with assms show ?thesis by (auto simp: round_even_def Let_def)
next
  case False
  with floor_mono [OF assms] have "\<lfloor>x\<rfloor> + 1 \<le> \<lfloor>y\<rfloor>" by simp
  moreover have "round_even x \<le> \<lfloor>x\<rfloor> + 1" "\<lfloor>y\<rfloor> \<le> round_even y" by (simp_all add: round_even_def Let_def)
  ultimately show ?thesis by linarith
qed

lemma round_even_minus: "round_even (- x) = - round_even x"
proof (cases "x = of_int \<lfloor>x\<rfloor>")
  case True
  then have "- x = of_int (- \<lfloor>x\<rfloor>)" by simp
  then show ?thesis by (metis True round_even_of_int)
next
  case False
  then have "of_int \<lfloor>x\<rfloor> < x" using of_int_floor_le [of x] by linarith
  then have "\<lfloor>- x\<rfloor> = - \<lfloor>x\<rfloor> - 1" by (intro floor_unique) linarith+
  then show ?thesis by (auto simp: round_even_def Let_def)
qed

fun nlog2 :: "nat \<Rightarrow> nat" where
  "nlog2 n = (if n < 2 then 0 else Suc (nlog2 (n div 2)))"

declare nlog2.simps [simp del]

lemma nlog2_bounds: "0 < n \<Longrightarrow> 2 ^ nlog2 n \<le> n \<and> n < 2 ^ (nlog2 n + 1)"
proof (induction n rule: nlog2.induct)
  case (1 n)
  show ?case
  proof (cases "n < 2")
    case True
    with 1 show ?thesis by (simp add: nlog2.simps)
  next
    case False
    with 1 have "2 ^ nlog2 (n div 2) \<le> n div 2 \<and> n div 2 < 2 ^ (nlog2 (n div 2) + 1)" by simp
    with False show ?thesis by (subst (1 2) nlog2.simps) auto
  qed
qed

text \<open>The exponent of the power of two at or below a positive rational.\<close>

definition binade :: "rat \<Rightarrow> int" where
  "binade x =
     (let (p, q) = quotient_of x; e = int (nlog2 (nat p)) - int (nlog2 (nat q))
      in if 2 powi e \<le> x then e else e - 1)"

lemma powi_pos [simp]: "0 < (2 :: rat) powi e"
  by simp

lemma binade_bounds:
  assumes "0 < x" shows "2 powi binade x \<le> x" and "x < 2 powi (binade x + 1)"
proof -
  obtain p q where pq: "quotient_of x = (p, q)" by (cases "quotient_of x")
  have q: "0 < q" by (rule quotient_of_denom_pos [OF pq])
  have x: "x = of_int p / of_int q" by (rule quotient_of_div [OF pq])
  with assms q have p: "0 < p" by (simp add: zero_less_divide_iff)
  define a b where "a = nlog2 (nat p)" and "b = nlog2 (nat q)"
  have "2 ^ a \<le> nat p" "nat p < 2 ^ (a + 1)" "2 ^ b \<le> nat q" "nat q < 2 ^ (b + 1)"
    using nlog2_bounds [of "nat p"] nlog2_bounds [of "nat q"] p q by (simp_all add: a_def b_def)
  then have "(2 :: int) ^ a \<le> p" "p < 2 ^ (a + 1)" "(2 :: int) ^ b \<le> q" "q < 2 ^ (b + 1)"
    using p q by (simp_all add: nat_less_iff le_nat_iff)
  then have pb: "(2 :: rat) ^ a \<le> of_int p" "of_int p < (2 :: rat) ^ (a + 1)"
    and qb: "(2 :: rat) ^ b \<le> of_int q" "of_int q < (2 :: rat) ^ (b + 1)"
    by (metis of_int_le_iff of_int_less_iff of_int_numeral of_int_power)+
  let ?e = "int a - int b"
  have e: "(2 :: rat) powi ?e = 2 ^ a / 2 ^ b" by (simp add: power_int_diff)
  have "x < 2 ^ (a + 1) / 2 ^ b"
    unfolding x using pb(2) qb(1) p q by (intro frac_less) auto
  then have up: "x < 2 powi (?e + 1)" by (simp add: power_int_add e mult.commute)
  have "2 ^ a / 2 ^ (b + 1) < x"
    unfolding x using pb(1) qb(2) q p by (intro frac_less2) auto
  then have low: "2 powi (?e - 1) < x" by (simp add: power_int_diff)
  have "binade x = (if 2 powi ?e \<le> x then ?e else ?e - 1)"
    by (simp add: binade_def pq a_def b_def)
  with up low show "2 powi binade x \<le> x" and "x < 2 powi (binade x + 1)" by (auto split: if_splits)
qed

text \<open>The exponent of the last place of a result near \<open>x\<close>: 53 significant bits, subnormals.\<close>

definition last_place :: "rat \<Rightarrow> int" where
  "last_place x = max (binade \<bar>x\<bar> - 52) (- 1074)"

definition rnd_fin :: "rat \<Rightarrow> rat" where
  "rnd_fin x = (if x = 0 then 0 else of_int (round_even (x / 2 powi last_place x)) * 2 powi last_place x)"

definition clip :: "rat \<Rightarrow> pyfloat" where
  "clip r = (if 2 ^ 1024 \<le> r then PInf else if r \<le> - (2 ^ 1024) then NInf else Fin r)"

definition rnd :: "rat \<Rightarrow> pyfloat" where
  "rnd x = clip (rnd_fin x)"

lemma rnd_fin_minus: "rnd_fin (- x) = - rnd_fin x"
proof -
  have "round_even (- x / 2 powi e) = - round_even (x / 2 powi e)" for e
    using round_even_minus [of "x / 2 powi e"] by simp
  then show ?thesis by (simp add: rnd_fin_def last_place_def)
qed

lemma powi_mono: "i \<le> j \<Longrightarrow> (2 :: rat) powi i \<le> 2 powi j"
  by (rule power_int_increasing) simp_all

lemma binade_less: "0 < x \<Longrightarrow> x \<le> y \<Longrightarrow> binade x \<le> binade y"
proof (rule ccontr)
  assume x: "0 < x" "x \<le> y" and "\<not> binade x \<le> binade y"
  then have "(2 :: rat) powi (binade y + 1) \<le> 2 powi binade x" by (intro powi_mono) simp
  with binade_bounds [of x] binade_bounds [of y] x show False by linarith
qed

text \<open>A multiple of a power of two at or above the last place is its own rounding.\<close>

lemma rnd_fin_grid:
  assumes "last_place x \<le> k" and "x = of_int n * 2 powi k"
  shows "rnd_fin x = x"
proof (cases "x = 0")
  case False
  let ?e = "last_place x"
  have "x / 2 powi ?e = of_int n * 2 powi (k - ?e)"
    by (subst assms(2)) (simp add: power_int_diff)
  also have "\<dots> = of_int (n * 2 ^ nat (k - ?e))"
    using assms(1) by (simp add: power_int_def)
  finally have eq: "x / 2 powi ?e = of_int (n * 2 ^ nat (k - ?e))" .
  then have "round_even (x / 2 powi ?e) = n * 2 ^ nat (k - ?e)" by (simp only: round_even_of_int)
  then have "rnd_fin x = (x / 2 powi ?e) * 2 powi ?e" using False by (simp only: rnd_fin_def eq if_False)
  then show ?thesis by simp
qed (simp add: rnd_fin_def)

lemma rnd_fin_mono_pos:
  assumes "0 < x" and "x \<le> y" shows "rnd_fin x \<le> rnd_fin y"
proof -
  have y: "0 < y" using assms by simp
  have le: "last_place x \<le> last_place y"
    using binade_less [OF assms] assms y by (simp add: last_place_def)
  show ?thesis
  proof (cases "last_place x = last_place y")
    case True
    have "x / 2 powi last_place y \<le> y / 2 powi last_place y"
      using assms(2) by (intro divide_right_mono) simp_all
    then have "round_even (x / 2 powi last_place y) \<le> round_even (y / 2 powi last_place y)"
      by (rule round_even_mono)
    then show ?thesis using assms y True by (simp add: rnd_fin_def)
  next
    case False
    with le have lp: "last_place x < last_place y" by simp
    let ?P = "(2 :: rat) powi binade y"
    have ly: "last_place y = binade y - 52" using lp y by (auto simp: last_place_def)
    have "binade x < binade y" using lp ly assms(1) by (auto simp: last_place_def)
    then have "(2 :: rat) powi (binade x + 1) \<le> ?P" by (intro powi_mono) simp
    with binade_bounds(2) [OF assms(1)] have xP: "x \<le> ?P" by linarith
    have P: "?P = of_int (2 ^ nat (binade y - e)) * 2 powi e" if "e \<le> binade y" for e
      using that power_int_add [of "2 :: rat" "binade y - e" e] by (simp add: power_int_def)
    have round: "round_even (?P / 2 powi e) = 2 ^ nat (binade y - e)" if "e \<le> binade y" for e
      using P [OF that] round_even_of_int [of "2 ^ nat (binade y - e)"] by (metis nonzero_mult_div_cancel_right powi_pos less_irrefl)
    have ex: "last_place x \<le> binade y" using lp ly by simp
    have "round_even (x / 2 powi last_place x) \<le> round_even (?P / 2 powi last_place x)"
      using xP by (intro round_even_mono divide_right_mono) simp_all
    then have "of_int (round_even (x / 2 powi last_place x)) * 2 powi last_place x
        \<le> (of_int (2 ^ nat (binade y - last_place x)) * 2 powi last_place x :: rat)"
      unfolding round [OF ex] by (intro mult_right_mono) (simp_all only: of_int_le_iff less_imp_le powi_pos)
    then have up: "rnd_fin x \<le> ?P" using P [OF ex] assms(1) by (simp add: rnd_fin_def)
    have ey: "last_place y \<le> binade y" using ly by simp
    have "round_even (?P / 2 powi last_place y) \<le> round_even (y / 2 powi last_place y)"
      using binade_bounds(1) [OF y] by (intro round_even_mono divide_right_mono) simp_all
    then have "of_int (2 ^ nat (binade y - last_place y)) * 2 powi last_place y
        \<le> (of_int (round_even (y / 2 powi last_place y)) * 2 powi last_place y :: rat)"
      unfolding round [OF ey] by (intro mult_right_mono) (simp_all only: of_int_le_iff less_imp_le powi_pos)
    then have "?P \<le> rnd_fin y" using P [OF ey] y by (simp add: rnd_fin_def)
    with up show ?thesis by linarith
  qed
qed

lemma rnd_fin_nonneg: "0 \<le> x \<Longrightarrow> 0 \<le> rnd_fin x"
  using round_even_mono [of 0 "x / 2 powi last_place x"] round_even_of_int [of 0]
  by (simp add: rnd_fin_def)

lemma rnd_fin_mono: "x \<le> y \<Longrightarrow> rnd_fin x \<le> rnd_fin y"
proof -
  assume le: "x \<le> y"
  consider "0 < x" | "y < 0" | "x \<le> 0" "0 \<le> y" by linarith
  then show ?thesis
  proof cases
    case 1
    with le show ?thesis by (rule rnd_fin_mono_pos [rotated -1])
  next
    case 2
    with le have "rnd_fin (- y) \<le> rnd_fin (- x)" by (intro rnd_fin_mono_pos) simp_all
    then show ?thesis by (simp add: rnd_fin_minus)
  next
    case 3
    then have "0 \<le> rnd_fin (- x)" "0 \<le> rnd_fin y" by (simp_all add: rnd_fin_nonneg)
    then show ?thesis by (simp add: rnd_fin_minus)
  qed
qed

text \<open>The integers of at most 53 bits, and their quotients by powers of two, are exact.\<close>

lemma rnd_fin_dyadic:
  assumes "\<bar>n\<bar> < 2 ^ 53" and "- 1074 \<le> k"
  shows "rnd_fin (of_int n * 2 powi k) = of_int n * 2 powi k"
proof (cases "n = 0")
  case False
  let ?x = "of_int n * 2 powi k :: rat"
  have ax: "\<bar>?x\<bar> = of_int \<bar>n\<bar> * 2 powi k" by (simp add: abs_mult)
  have pos: "0 < \<bar>?x\<bar>" using False by simp
  have "(of_int \<bar>n\<bar> :: rat) < of_int (2 ^ 53)" using assms(1) by (simp only: of_int_less_iff)
  then have "\<bar>?x\<bar> < 2 ^ 53 * 2 powi k" unfolding ax by (intro mult_strict_right_mono) simp_all
  also have "\<dots> = 2 powi (k + 53)" by (simp add: power_int_add)
  finally have "(2 :: rat) powi binade \<bar>?x\<bar> < 2 powi (k + 53)" using binade_bounds(1) [OF pos] by linarith
  then have "binade \<bar>?x\<bar> < k + 53" by (metis powi_mono not_le)
  then have "last_place ?x \<le> k" using assms(2) by (simp add: last_place_def)
  then show ?thesis by (rule rnd_fin_grid) simp
qed (simp add: rnd_fin_def)

section \<open>Operations\<close>

fun py_neg :: "pyfloat \<Rightarrow> pyfloat" where
  "py_neg (Fin x) = Fin (- x)"
| "py_neg PInf = NInf"
| "py_neg NInf = PInf"
| "py_neg NaN = NaN"

fun py_add :: "pyfloat \<Rightarrow> pyfloat \<Rightarrow> pyfloat" where
  "py_add (Fin x) (Fin y) = rnd (x + y)"
| "py_add NaN b = NaN"
| "py_add a NaN = NaN"
| "py_add PInf NInf = NaN"
| "py_add NInf PInf = NaN"
| "py_add PInf b = PInf"
| "py_add a PInf = PInf"
| "py_add NInf b = NInf"
| "py_add a NInf = NInf"

definition py_sub :: "pyfloat \<Rightarrow> pyfloat \<Rightarrow> pyfloat" where
  "py_sub a b = py_add a (py_neg b)"

definition inf_sign :: "int \<Rightarrow> pyfloat" where
  "inf_sign s = (if s = 0 then NaN else if 0 < s then PInf else NInf)"

fun py_sign :: "pyfloat \<Rightarrow> int" where
  "py_sign (Fin x) = (if x = 0 then 0 else if 0 < x then 1 else - 1)"
| "py_sign PInf = 1"
| "py_sign NInf = - 1"
| "py_sign NaN = 0"

fun py_mul :: "pyfloat \<Rightarrow> pyfloat \<Rightarrow> pyfloat" where
  "py_mul (Fin x) (Fin y) = rnd (x * y)"
| "py_mul a b = inf_sign (py_sign a * py_sign b)"

fun py_div :: "pyfloat \<Rightarrow> pyfloat \<Rightarrow> pyfloat result" where
  "py_div a (Fin y) =
     (if y = 0 then Inl ZeroDivisionError
      else case a of Fin x \<Rightarrow> Inr (rnd (x / y)) | _ \<Rightarrow> Inr (inf_sign (py_sign a * py_sign (Fin y))))"
| "py_div a NaN = Inr NaN"
| "py_div a b = Inr (case a of Fin x \<Rightarrow> Fin 0 | _ \<Rightarrow> NaN)"

fun py_lt :: "pyfloat \<Rightarrow> pyfloat \<Rightarrow> bool" where
  "py_lt (Fin x) (Fin y) = (x < y)"
| "py_lt NaN b = False"
| "py_lt a NaN = False"
| "py_lt PInf b = False"
| "py_lt a NInf = False"
| "py_lt a PInf = True"
| "py_lt NInf b = True"

fun py_eq :: "pyfloat \<Rightarrow> pyfloat \<Rightarrow> bool" where
  "py_eq (Fin x) (Fin y) = (x = y)"
| "py_eq PInf PInf = True"
| "py_eq NInf NInf = True"
| "py_eq a b = False"

definition py_le :: "pyfloat \<Rightarrow> pyfloat \<Rightarrow> bool" where
  "py_le a b \<longleftrightarrow> py_lt a b \<or> py_eq a b"

text \<open>\<open>max(a, b)\<close> and \<open>min(a, b)\<close>: the first argument unless the second is strictly beyond it.\<close>

definition py_max :: "pyfloat \<Rightarrow> pyfloat \<Rightarrow> pyfloat" where
  "py_max a b = (if py_lt a b then b else a)"

definition py_min :: "pyfloat \<Rightarrow> pyfloat \<Rightarrow> pyfloat" where
  "py_min a b = (if py_lt b a then b else a)"

text \<open>\<open>int(x)\<close> truncates, \<open>round(x)\<close> goes to the nearest even; both refuse what is not finite.\<close>

definition truncate :: "rat \<Rightarrow> int" where
  "truncate x = (if 0 \<le> x then \<lfloor>x\<rfloor> else \<lceil>x\<rceil>)"

fun py_int :: "pyfloat \<Rightarrow> int result" where
  "py_int (Fin x) = Inr (truncate x)"
| "py_int NaN = Inl ValueError"
| "py_int _ = Inl OverflowError"

fun py_round :: "pyfloat \<Rightarrow> int result" where
  "py_round (Fin x) = Inr (round_even x)"
| "py_round NaN = Inl ValueError"
| "py_round _ = Inl OverflowError"

text \<open>\<open>float(n)\<close> of an int.\<close>

definition py_float :: "int \<Rightarrow> pyfloat result" where
  "py_float n = (case rnd (of_int n) of Fin x \<Rightarrow> Inr (Fin x) | _ \<Rightarrow> Inl OverflowError)"

text \<open>\<open>x % y\<close>: the exact remainder of the C library, moved to the sign of \<open>y\<close>.\<close>

fun py_mod :: "pyfloat \<Rightarrow> pyfloat \<Rightarrow> pyfloat result" where
  "py_mod (Fin x) (Fin y) =
     (if y = 0 then Inl ZeroDivisionError
      else let m = x - y * of_int (truncate (x / y))
        in Inr (if m \<noteq> 0 \<and> (y < 0) \<noteq> (m < 0) then rnd (m + y) else Fin m))"
| "py_mod a (Fin y) = (if y = 0 then Inl ZeroDivisionError else Inr NaN)"
| "py_mod (Fin x) PInf = Inr (if x < 0 then PInf else Fin x)"
| "py_mod (Fin x) NInf = Inr (if 0 < x then NInf else Fin x)"
| "py_mod a b = Inr NaN"

text \<open>A literal: the rounding of the decimal number written.\<close>

abbreviation lit :: "rat \<Rightarrow> pyfloat" where
  "lit x \<equiv> rnd x"

section \<open>Bounds\<close>

definition representable :: "rat \<Rightarrow> bool" where
  "representable x \<longleftrightarrow> rnd x = Fin x"

lemma representable_iff: "representable x \<longleftrightarrow> rnd_fin x = x \<and> \<bar>x\<bar> < 2 ^ 1024"
  by (auto simp: representable_def rnd_def clip_def split: if_splits)

lemma representable_dyadic:
  assumes "\<bar>n\<bar> < 2 ^ 53" and "- 1074 \<le> k" and "k \<le> 900"
  shows "representable (of_int n * 2 powi k)"
proof -
  have "(of_int \<bar>n\<bar> :: rat) < of_int (2 ^ 53)" using assms(1) by (simp only: of_int_less_iff)
  then have "\<bar>of_int n * 2 powi k\<bar> < (2 ^ 53 * 2 powi k :: rat)"
    by (simp add: abs_mult)
  also have "\<dots> \<le> 2 ^ 53 * 2 powi 900"
    using assms(3) by (intro mult_left_mono powi_mono) simp_all
  also have "\<dots> = (2 ^ 953 :: rat)" by (simp add: power_int_def flip: power_add)
  also have "\<dots> < 2 ^ 1024" by (rule power_strict_increasing) simp_all
  finally show ?thesis using rnd_fin_dyadic [OF assms(1,2)] by (simp add: representable_iff)
qed

lemma representable_int: "\<bar>n\<bar> < 2 ^ 53 \<Longrightarrow> representable (of_int n)"
  using representable_dyadic [of n 0] by simp

lemma representable_half: "\<bar>n\<bar> < 2 ^ 53 \<Longrightarrow> representable (of_int n / 2)"
  using representable_dyadic [of n "- 1"] by (simp add: power_int_def field_simps)

lemma representable_quarter: "\<bar>n\<bar> < 2 ^ 53 \<Longrightarrow> representable (of_int n / 4)"
  using representable_dyadic [of n "- 2"] by (simp add: power_int_def field_simps)

lemma representable_frac: "\<bar>n\<bar> < 2 ^ 53 \<Longrightarrow> k \<le> 1074 \<Longrightarrow> representable (of_int n / 2 ^ k)"
  using representable_dyadic [of n "- int k"] by (simp add: power_int_minus field_simps)

named_theorems representable_simps \<open>which numbers are exact\<close>

lemma representable_numeral [representable_simps]:
  "(numeral n :: int) < 2 ^ 53 \<Longrightarrow> representable (numeral n)"
  "(numeral n :: int) < 2 ^ 53 \<Longrightarrow> representable (- numeral n)"
  "representable 0" "representable 1" "representable (- 1)"
  "(numeral n :: int) < 2 ^ 53 \<Longrightarrow> representable (numeral n / 2)"
  "(numeral n :: int) < 2 ^ 53 \<Longrightarrow> representable (- (numeral n / 2))"
  "(numeral n :: int) < 2 ^ 53 \<Longrightarrow> representable (numeral n / 4)"
  "(numeral n :: int) < 2 ^ 53 \<Longrightarrow> representable (- (numeral n / 4))"
  "representable (1 / 16)" "representable (1 / 2)" "representable (- (1 / 2))" "representable (1 / 4)" "representable (- (1 / 4))"
  using representable_frac [of 1 4] representable_int [of "numeral n"] representable_int [of "- numeral n"] representable_int [of 0]
    representable_int [of 1] representable_int [of "- 1"]
    representable_half [of "numeral n"] representable_half [of "- numeral n"] representable_half [of 1] representable_half [of "- 1"]
    representable_quarter [of "numeral n"] representable_quarter [of "- numeral n"] representable_quarter [of 1] representable_quarter [of "- 1"]
  by simp_all

lemma rnd_between:
  assumes "representable lo" and "representable hi" and "lo \<le> x" and "x \<le> hi"
  shows "\<exists>q. rnd x = Fin q \<and> lo \<le> q \<and> q \<le> hi"
proof -
  have "rnd_fin lo = lo" "rnd_fin hi = hi" "\<bar>lo\<bar> < 2 ^ 1024" "\<bar>hi\<bar> < 2 ^ 1024"
    using assms(1,2) by (simp_all add: representable_iff)
  moreover have "rnd_fin lo \<le> rnd_fin x" "rnd_fin x \<le> rnd_fin hi"
    using assms(3,4) by (simp_all add: rnd_fin_mono)
  ultimately show ?thesis by (simp add: rnd_def clip_def abs_less_iff)
qed

text \<open>\<open>inside lo hi a\<close>: \<open>a\<close> is finite and between \<open>lo\<close> and \<open>hi\<close>.\<close>

definition inside :: "rat \<Rightarrow> rat \<Rightarrow> pyfloat \<Rightarrow> bool" where
  "inside lo hi a \<longleftrightarrow> (\<exists>x. a = Fin x \<and> lo \<le> x \<and> x \<le> hi)"

lemma insideI: "lo \<le> x \<Longrightarrow> x \<le> hi \<Longrightarrow> inside lo hi (Fin x)"
  by (simp add: inside_def)

lemma inside_Fin [simp]: "inside lo hi (Fin x) \<longleftrightarrow> lo \<le> x \<and> x \<le> hi"
  by (simp add: inside_def)

lemma inside_mono: "inside lo hi a \<Longrightarrow> lo' \<le> lo \<Longrightarrow> hi \<le> hi' \<Longrightarrow> inside lo' hi' a"
  by (auto simp: inside_def)

lemma inside_rnd: "representable lo \<Longrightarrow> representable hi \<Longrightarrow> lo \<le> x \<Longrightarrow> x \<le> hi \<Longrightarrow> inside lo hi (rnd x)"
  using rnd_between [of lo hi x] by (auto simp: inside_def)

lemma inside_add:
  "inside a b x \<Longrightarrow> inside c d y \<Longrightarrow> representable lo \<Longrightarrow> representable hi \<Longrightarrow> lo \<le> a + c \<Longrightarrow> b + d \<le> hi \<Longrightarrow>
     inside lo hi (py_add x y)"
  by (auto simp: inside_def intro!: inside_rnd [unfolded inside_def])

lemma inside_neg: "inside a b x \<Longrightarrow> inside (- b) (- a) (py_neg x)"
  by (auto simp: inside_def)

lemma inside_sub:
  "inside a b x \<Longrightarrow> inside c d y \<Longrightarrow> representable lo \<Longrightarrow> representable hi \<Longrightarrow> lo \<le> a - d \<Longrightarrow> b - c \<le> hi \<Longrightarrow>
     inside lo hi (py_sub x y)"
  unfolding py_sub_def by (erule inside_add [OF _ inside_neg]) simp_all

lemma inside_mul:
  assumes "inside a b x" and "inside c d y" and "0 \<le> a" and "0 \<le> c"
    and "representable lo" and "representable hi" and "lo \<le> a * c" and "b * d \<le> hi"
  shows "inside lo hi (py_mul x y)"
proof -
  from assms(1,2) obtain u v where uv: "x = Fin u" "a \<le> u" "u \<le> b" "y = Fin v" "c \<le> v" "v \<le> d"
    by (auto simp: inside_def)
  have "a * c \<le> u * v" "u * v \<le> b * d" using uv assms(3,4) by (auto intro!: mult_mono)
  with uv assms(5-8) show ?thesis by (auto intro!: inside_rnd)
qed

lemma inside_div:
  assumes "inside a b x" and "0 \<le> a" and "0 < c" and "c \<le> v" and "v \<le> d"
    and "representable lo" and "representable hi" and "lo \<le> a / d" and "b / c \<le> hi"
  shows "\<exists>z. py_div x (Fin v) = Inr z \<and> inside lo hi z"
proof -
  from assms(1) obtain u where u: "x = Fin u" "a \<le> u" "u \<le> b" by (auto simp: inside_def)
  have "a / d \<le> u / v" "u / v \<le> b / c" using u assms(2-5) by (auto intro!: frac_le)
  with u assms show ?thesis by (auto intro!: inside_rnd)
qed

lemma inside_max: "inside a b x \<Longrightarrow> inside c d y \<Longrightarrow> inside (max a c) (max b d) (py_max x y)"
  by (auto simp: inside_def py_max_def)

lemma inside_min: "inside a b x \<Longrightarrow> inside c d y \<Longrightarrow> inside (min a c) (min b d) (py_min x y)"
  by (auto simp: inside_def py_min_def)

lemma py_lt_inside: "inside a b x \<Longrightarrow> inside c d y \<Longrightarrow> py_lt x y \<Longrightarrow> a < d"
  by (auto simp: inside_def)

lemma truncate_bounds: "of_int m \<le> x \<Longrightarrow> x \<le> of_int n \<Longrightarrow> m \<le> truncate x \<and> truncate x \<le> n"
  by (auto simp: truncate_def le_floor_iff ceiling_le_iff floor_le_iff less_ceiling_iff intro: order_trans) linarith+

lemma inside_py_int: "inside (of_int m) (of_int n) x \<Longrightarrow> \<exists>k. py_int x = Inr k \<and> m \<le> k \<and> k \<le> n"
  using truncate_bounds by (auto simp: inside_def)

lemma py_float_small: "\<bar>n\<bar> < 2 ^ 53 \<Longrightarrow> py_float n = Inr (Fin (of_int n))"
  using representable_int [of n] by (simp add: py_float_def representable_def)

section \<open>Rounding errors\<close>

lemma rnd_fin_error:
  assumes "\<bar>x\<bar> < 2 ^ 52"
  shows "\<bar>rnd_fin x - x\<bar> \<le> 1 / 2"
proof (cases "x = 0")
  case False
  then have pos: "0 < \<bar>x\<bar>" by simp
  have "(2 :: rat) powi binade \<bar>x\<bar> < 2 powi 52"
    using binade_bounds(1) [OF pos] assms by simp
  then have "binade \<bar>x\<bar> < 52" by (metis powi_mono not_le)
  then have "last_place x \<le> 0" by (simp add: last_place_def)
  then have g: "(2 :: rat) powi last_place x \<le> 1" using powi_mono [of "last_place x" 0] by simp
  let ?g = "(2 :: rat) powi last_place x" and ?y = "x / 2 powi last_place x"
  have "\<bar>of_int (round_even ?y) - ?y\<bar> \<le> 1 / 2" using round_even_near [of ?y] unfolding abs_le_iff by linarith
  then have "\<bar>of_int (round_even ?y) - ?y\<bar> * ?g \<le> 1 / 2 * 1"
    using g by (intro mult_mono) simp_all
  moreover have "rnd_fin x - x = (of_int (round_even ?y) - ?y) * ?g"
    using False by (simp add: rnd_fin_def left_diff_distrib)
  then have "\<bar>rnd_fin x - x\<bar> = \<bar>of_int (round_even ?y) - ?y\<bar> * ?g" by (simp only: abs_mult) simp
  ultimately show ?thesis by simp
qed (simp add: rnd_fin_def)

lemma rnd_error:
  assumes "\<bar>x\<bar> < 2 ^ 52"
  shows "\<exists>z. rnd x = Fin z \<and> x - 1 / 2 \<le> z \<and> z \<le> x + 1 / 2"
proof -
  have "x - 1 / 2 \<le> rnd_fin x" "rnd_fin x \<le> x + 1 / 2" using rnd_fin_error [OF assms] unfolding abs_le_iff by linarith+
  moreover have "(2 :: rat) ^ 52 + 1 / 2 < 2 ^ 1024" by simp
  ultimately show ?thesis using assms by (auto simp: rnd_def clip_def abs_less_iff)
qed

section \<open>Sleeping\<close>

text \<open>
  \<open>time.sleep\<close>: a negative or undefined time and one whose nanoseconds do not fit 64 bits raise.
\<close>

definition py_sleep :: "pyfloat \<Rightarrow> unit result" where
  "py_sleep d =
     (if d = NaN \<or> py_lt d (Fin 0) then Inl ValueError
      else if py_le (Fin (2 ^ 63)) (py_mul d (Fin 1000000000)) then Inl OverflowError
      else Inr ())"

lemma py_sleep_ok:
  assumes "inside 0 1024 d"
  shows "py_sleep d = Inr ()"
proof -
  have "inside 0 1024000000000 (py_mul d (Fin 1000000000))"
    by (rule inside_mul [OF assms, of 1000000000 1000000000]) (simp_all add: representable_simps)
  with assms show ?thesis by (auto simp: py_sleep_def inside_def py_le_def)
qed

lemma py_sleep_short: "inside 0 1 d \<Longrightarrow> py_sleep d = Inr ()"
  by (rule py_sleep_ok) (erule inside_mono, simp_all)

end
