(* ===== verification/PyText.thy ===== *)
theory PyText
  imports PyFloat
begin

text \<open>
  The text operations the parsers use: \<open>str\<close> methods, \<open>int()\<close> and \<open>float()\<close> of text, and a
  backtracking matcher for the regular expressions of the sources. Text is a list of
  characters; a character outside ASCII is neither space, digit nor letter here.
\<close>

section \<open>Characters\<close>

abbreviation code :: "char \<Rightarrow> nat" where
  "code c \<equiv> of_char c"

definition is_space :: "char \<Rightarrow> bool" where
  "is_space c \<longleftrightarrow> (9 \<le> code c \<and> code c \<le> 13) \<or> (28 \<le> code c \<and> code c \<le> 32)"

definition is_digit :: "char \<Rightarrow> bool" where
  "is_digit c \<longleftrightarrow> 48 \<le> code c \<and> code c \<le> 57"

definition is_upper :: "char \<Rightarrow> bool" where
  "is_upper c \<longleftrightarrow> 65 \<le> code c \<and> code c \<le> 90"

definition is_lower :: "char \<Rightarrow> bool" where
  "is_lower c \<longleftrightarrow> 97 \<le> code c \<and> code c \<le> 122"

text \<open>The class \<open>\w\<close>.\<close>

definition is_word :: "char \<Rightarrow> bool" where
  "is_word c \<longleftrightarrow> is_digit c \<or> is_upper c \<or> is_lower c \<or> c = CHR ''_''"

definition to_lower :: "char \<Rightarrow> char" where
  "to_lower c = (if is_upper c then char_of (code c + 32) else c)"

definition to_upper :: "char \<Rightarrow> char" where
  "to_upper c = (if is_lower c then char_of (code c - 32) else c)"

lemmas char_classes = is_space_def is_digit_def is_upper_def is_lower_def is_word_def

section \<open>String methods\<close>

definition lower :: "string \<Rightarrow> string" where "lower s = List.map to_lower s"
definition upper :: "string \<Rightarrow> string" where "upper s = List.map to_upper s"

definition lstrip_by :: "(char \<Rightarrow> bool) \<Rightarrow> string \<Rightarrow> string" where
  "lstrip_by P s = dropWhile P s"

definition rstrip_by :: "(char \<Rightarrow> bool) \<Rightarrow> string \<Rightarrow> string" where
  "rstrip_by P s = rev (dropWhile P (rev s))"

definition strip_by :: "(char \<Rightarrow> bool) \<Rightarrow> string \<Rightarrow> string" where
  "strip_by P s = rstrip_by P (lstrip_by P s)"

text \<open>\<open>s.strip()\<close> and \<open>s.strip(chars)\<close>.\<close>

definition strip :: "string \<Rightarrow> string" where "strip s = strip_by is_space s"
definition strip_chars :: "string \<Rightarrow> string \<Rightarrow> string" where
  "strip_chars chars s = strip_by (\<lambda>c. c \<in> set chars) s"

definition startswith :: "string \<Rightarrow> string \<Rightarrow> bool" where
  "startswith s p \<longleftrightarrow> take (length p) s = p"

text \<open>\<open>p in s\<close>.\<close>

fun contains :: "string \<Rightarrow> string \<Rightarrow> bool" where
  "contains [] p \<longleftrightarrow> p = []"
| "contains (c # s) p \<longleftrightarrow> startswith (c # s) p \<or> contains s p"

text \<open>\<open>s.split(c)\<close> for one character, and \<open>s.split()\<close>.\<close>

fun split_on :: "char \<Rightarrow> string \<Rightarrow> string list" where
  "split_on d [] = [[]]"
| "split_on d (c # s) =
     (if c = d then [] # split_on d s
      else case split_on d s of p # ps \<Rightarrow> (c # p) # ps | [] \<Rightarrow> [[c]])"

fun words_acc :: "string \<Rightarrow> string \<Rightarrow> string list" where
  "words_acc w [] = (if w = [] then [] else [rev w])"
| "words_acc w (c # s) =
     (if is_space c then (if w = [] then words_acc [] s else rev w # words_acc [] s)
      else words_acc (c # w) s)"

definition words :: "string \<Rightarrow> string list" where
  "words s = words_acc [] s"

text \<open>\<open>s.splitlines()\<close>: the line boundaries of ASCII, \<open>\r\n\<close> as one, no last empty line.\<close>

definition is_newline :: "char \<Rightarrow> bool" where
  "is_newline c \<longleftrightarrow> (10 \<le> code c \<and> code c \<le> 13) \<or> (28 \<le> code c \<and> code c \<le> 30)"

fun lines_acc :: "string \<Rightarrow> string \<Rightarrow> string list" where
  "lines_acc l [] = (if l = [] then [] else [rev l])"
| "lines_acc l (c # s) =
     (if is_newline c then
        rev l # lines_acc [] (if code c = 13 \<and> s \<noteq> [] \<and> code (hd s) = 10 then tl s else s)
      else lines_acc (c # l) s)"

definition splitlines :: "string \<Rightarrow> string list" where
  "splitlines s = lines_acc [] s"

text \<open>
  \<open>path.read_text(encoding="utf-8", errors="replace")\<close> of a file with the bytes \<open>b\<close>: decoded, and
  every \<open>\r\n\<close> and \<open>\r\<close> turned into \<open>\n\<close>.
\<close>

fun universal_newlines :: "string \<Rightarrow> string" where
  "universal_newlines [] = []"
| "universal_newlines (c # s) =
     (if c = CHR 0x0D then CHR 0x0A # universal_newlines (if s \<noteq> [] \<and> hd s = CHR 0x0A then tl s else s)
      else c # universal_newlines s)"

definition read_text :: "bytes \<Rightarrow> string" where
  "read_text b = universal_newlines (decode_replace b)"

section \<open>Numbers\<close>

definition digit :: "char \<Rightarrow> nat" where
  "digit c = code c - 48"

definition digits_value :: "string \<Rightarrow> nat" where
  "digits_value ds = foldl (\<lambda>a c. a * 10 + digit c) 0 ds"

text \<open>Underscores may stand between two digits only; they are then dropped.\<close>

fun underscores_ok :: "bool \<Rightarrow> string \<Rightarrow> bool" where
  "underscores_ok prev [] \<longleftrightarrow> True"
| "underscores_ok prev (c # s) \<longleftrightarrow>
     (if c = CHR ''_'' then prev \<and> s \<noteq> [] \<and> is_digit (hd s) \<and> underscores_ok False s
      else underscores_ok (is_digit c) s)"

definition drop_underscores :: "string \<Rightarrow> string option" where
  "drop_underscores s = (if underscores_ok False s then Some (List.filter (\<lambda>c. c \<noteq> CHR ''_'') s) else None)"

text \<open>An optional sign: whether it is a minus, and the rest.\<close>

definition take_sign :: "string \<Rightarrow> bool \<times> string" where
  "take_sign s =
     (case s of
        c # r \<Rightarrow> if c = CHR ''-'' then (True, r) else if c = CHR ''+'' then (False, r) else (False, s)
      | [] \<Rightarrow> (False, []))"

text \<open>\<open>int(s)\<close>: more than 4300 digits raise \<open>ValueError\<close>, the interpreter's default limit.\<close>

definition parse_int :: "string \<Rightarrow> int result" where
  "parse_int s =
     (case drop_underscores (strip s) of
        None \<Rightarrow> Inl ValueError
      | Some t \<Rightarrow>
          let (neg, ds) = take_sign t in
          if ds = [] \<or> \<not> list_all is_digit ds \<or> 4300 < length ds then Inl ValueError
          else Inr (if neg then - int (digits_value ds) else int (digits_value ds)))"

text \<open>The exponent part of a float, \<open>None\<close> if what is there is not one.\<close>

definition take_exponent :: "string \<Rightarrow> int option" where
  "take_exponent s =
     (case s of
        [] \<Rightarrow> Some 0
      | c # r \<Rightarrow>
          if to_lower c = CHR ''e'' then
            (let (neg, ds) = take_sign r in
             if ds = [] \<or> \<not> list_all is_digit ds then None
             else Some (if neg then - int (digits_value ds) else int (digits_value ds)))
          else None)"

definition parse_decimal :: "string \<Rightarrow> rat option" where
  "parse_decimal s =
     (let whole = takeWhile is_digit s; r = dropWhile is_digit s;
          (frac, r') = (case r of
              c # q \<Rightarrow> if c = CHR ''.'' then (takeWhile is_digit q, dropWhile is_digit q) else ([], r)
            | [] \<Rightarrow> ([], []))
      in if whole @ frac = [] then None
         else map_option (\<lambda>e. of_nat (digits_value (whole @ frac)) * 10 powi (e - int (length frac)))
                (take_exponent r'))"

text \<open>\<open>float(s)\<close>.\<close>

definition parse_float :: "string \<Rightarrow> pyfloat result" where
  "parse_float s =
     (case drop_underscores (strip s) of
        None \<Rightarrow> Inl ValueError
      | Some t \<Rightarrow>
          let (neg, r) = take_sign t in
          if lower r = ''inf'' \<or> lower r = ''infinity'' then Inr (if neg then NInf else PInf)
          else if lower r = ''nan'' then Inr NaN
          else case parse_decimal r of
            None \<Rightarrow> Inl ValueError
          | Some x \<Rightarrow> Inr (rnd (if neg then - x else x)))"

lemma parse_int_errors: "parse_int s = Inl e \<Longrightarrow> e = ValueError"
  by (auto simp: parse_int_def Let_def split: option.splits prod.splits if_splits)

lemma parse_float_errors: "parse_float s = Inl e \<Longrightarrow> e = ValueError"
  by (auto simp: parse_float_def Let_def split: option.splits prod.splits if_splits)

section \<open>Regular expressions\<close>

text \<open>
  \<open>Cls P\<close> is one character of a class, \<open>Many\<close> the greedy \<open>*\<close>, \<open>Grp\<close> a group that captures.
\<close>

datatype re = Eps | Cls "char \<Rightarrow> bool" | Seq re re | Alt re re | Many re | Grp nat re

fun Str :: "string \<Rightarrow> re" where
  "Str [] = Eps"
| "Str (c # s) = Seq (Cls (\<lambda>x. x = c)) (Str s)"

fun StrI :: "string \<Rightarrow> re" where
  "StrI [] = Eps"
| "StrI (c # s) = Seq (Cls (\<lambda>x. to_lower x = to_lower c)) (StrI s)"

definition Many1 :: "re \<Rightarrow> re" where "Many1 r = Seq r (Many r)"
definition Opt :: "re \<Rightarrow> re" where "Opt r = Alt r Eps"

fun re_seq :: "re list \<Rightarrow> re" where
  "re_seq [] = Eps"
| "re_seq [r] = r"
| "re_seq (r # rs) = Seq r (re_seq rs)"

text \<open>All ways to match at the front, best first: the rest of the text and the groups.\<close>

type_synonym groups = "(nat \<times> string) list"

function matches :: "re \<Rightarrow> string \<Rightarrow> groups \<Rightarrow> (string \<times> groups) list" where
  "matches Eps s g = [(s, g)]"
| "matches (Cls P) s g = (case s of c # r \<Rightarrow> if P c then [(r, g)] else [] | [] \<Rightarrow> [])"
| "matches (Seq a b) s g = concat (List.map (\<lambda>x. matches b (fst x) (snd x)) (matches a s g))"
| "matches (Alt a b) s g = matches a s g @ matches b s g"
| "matches (Many a) s g =
     concat (List.map (\<lambda>x. if length (fst x) < length s then matches (Many a) (fst x) (snd x) else [])
       (matches a s g)) @ [(s, g)]"
| "matches (Grp n a) s g =
     List.map (\<lambda>x. (fst x, (n, take (length s - length (fst x)) s) # snd x)) (matches a s g)"
  by pat_completeness auto
termination by (relation "measures [\<lambda>(r, s, g). size r, \<lambda>(r, s, g). length s]") auto

text \<open>\<open>re.match\<close> and \<open>re.search\<close>: the groups of the first match, and the rest of the text.\<close>

definition re_match :: "re \<Rightarrow> string \<Rightarrow> (groups \<times> string) option" where
  "re_match r s = (case matches r s [] of [] \<Rightarrow> None | (rest, g) # _ \<Rightarrow> Some (g, rest))"

fun re_search :: "re \<Rightarrow> string \<Rightarrow> (groups \<times> string) option" where
  "re_search r [] = re_match r []"
| "re_search r (c # s) = (case re_match r (c # s) of Some m \<Rightarrow> Some m | None \<Rightarrow> re_search r s)"

definition group :: "nat \<Rightarrow> groups \<Rightarrow> string" where
  "group n g = (case map_of g n of Some s \<Rightarrow> s | None \<Rightarrow> [])"

text \<open>\<open>re.sub\<close> of a pattern anchored at line starts (\<open>re.MULTILINE\<close>) by the empty string.\<close>

fun strip_prefixes :: "re \<Rightarrow> bool \<Rightarrow> nat \<Rightarrow> string \<Rightarrow> string" where
  "strip_prefixes r start 0 s = s"
| "strip_prefixes r start (Suc k) s =
     (case s of
        [] \<Rightarrow> []
      | c # t \<Rightarrow>
          (case (if start then re_match r s else None) of
             Some (g, rest) \<Rightarrow>
               if length rest < length s then strip_prefixes r False k rest
               else c # strip_prefixes r (c = CHR 0x0A) k t
           | None \<Rightarrow> c # strip_prefixes r (c = CHR 0x0A) k t))"

definition line_prefix :: re where
  "line_prefix = re_seq [Str ''#'', Cls is_upper, Cls is_upper, Str ''|'']"

definition remove_line_prefixes :: "string \<Rightarrow> string" where
  "remove_line_prefixes s = strip_prefixes line_prefix True (length s) s"

end
