(* ===== verification/IniParser.thy ===== *)
theory IniParser
  imports PyText PyStruct
begin

text \<open>
  \<open>ecuSim/src/ini_parser.py\<close>: the parser of TunerStudio's INI files. The parser object is a
  record threaded through the lines; the stack of conditions has its top first.
\<close>

section \<open>Fields\<close>

record field_def =
  fname :: string
  ftype :: string
  dtype :: string
  foffset :: int
  funits :: string
  fscale :: pyfloat
  ftranslate :: pyfloat
  bit_range :: "(int \<times> int) option"
  array_size :: "int option"
  fpage :: int

text \<open>\<open>FieldDef(name, field_type, data_type, offset)\<close> with its defaults.\<close>

definition FieldDef :: "string \<Rightarrow> string \<Rightarrow> string \<Rightarrow> int \<Rightarrow> field_def" where
  "FieldDef n ft dt off = \<lparr>fname = n, ftype = ft, dtype = dt, foffset = off, funits = [],
     fscale = Fin 1, ftranslate = Fin 0, bit_range = None, array_size = None, fpage = 1\<rparr>"

definition base_size :: "string \<Rightarrow> nat" where
  "base_size dt =
     (if dt = ''U08'' then 1 else if dt = ''S08'' then 1 else if dt = ''U16'' then 2
      else if dt = ''S16'' then 2 else if dt = ''U32'' then 4 else if dt = ''S32'' then 4 else 2)"

text \<open>The property \<open>size\<close>.\<close>

definition fsize :: "field_def \<Rightarrow> int" where
  "fsize f =
     (case array_size f of
        Some n \<Rightarrow> if n \<noteq> 0 then int (base_size (dtype f)) * n else int (base_size (dtype f))
      | None \<Rightarrow> int (base_size (dtype f)))"

definition fsigned :: "field_def \<Rightarrow> bool" where
  "fsigned f \<longleftrightarrow> startswith (dtype f) ''S''"

definition fmt_of :: "string \<Rightarrow> fmt_code" where
  "fmt_of dt =
     (if dt = ''U08'' then FmtB else if dt = ''S08'' then FmtSb else if dt = ''U16'' then FmtH
      else if dt = ''S16'' then FmtSh else if dt = ''U32'' then FmtI else if dt = ''S32'' then FmtSi else FmtH)"

text \<open>The property \<open>struct_format\<close>: big-endian.\<close>

definition struct_format :: "field_def \<Rightarrow> fmt" where
  "struct_format f = (BigEndian, fmt_of (dtype f))"

lemma calcsize_fmt_of: "calcsize (fmt_of dt) = base_size dt"
  by (simp add: fmt_of_def base_size_def)

section \<open>Configuration and parser\<close>

record ini_config =
  ini_signature :: string
  ini_block_size :: int
  output_channels :: "(string, field_def) dict"
  constants :: "(string, field_def) dict"
  query_command :: string
  och_get_command :: string
  can_commands :: bool

definition INIConfig :: ini_config where
  "INIConfig = \<lparr>ini_signature = ''MS2Extra comms330NP'', ini_block_size = 209, output_channels = [],
     constants = [], query_command = ''Q'', och_get_command = ''A'', can_commands = True\<rparr>"

record ini_parser =
  ini :: ini_config
  condition_stack :: "bool list"
  current_section :: string
  current_page :: int

definition INIParser :: ini_parser where
  "INIParser = \<lparr>ini = INIConfig, condition_stack = [], current_section = [], current_page = 0\<rparr>"

section \<open>Lines\<close>

definition spaces :: re where "spaces = Many (Cls is_space)"
definition digits :: re where "digits = Many1 (Cls is_digit)"
definition not_newline :: "char \<Rightarrow> bool" where "not_newline c \<longleftrightarrow> c \<noteq> CHR 0x0A"

definition re_signature :: re where
  "re_signature = re_seq [StrI ''signature'', spaces, Str ''='', spaces, Str [CHR 0x22],
     Grp 1 (Many1 (Cls (\<lambda>c. c \<noteq> CHR 0x22))), Str [CHR 0x22]]"

definition re_block_size :: re where
  "re_block_size = re_seq [Str ''ochBlockSize'', spaces, Str ''='', spaces, Grp 1 digits]"

definition re_page :: re where
  "re_page = re_seq [Str ''page'', spaces, Str ''='', spaces, Grp 1 digits]"

definition re_field :: re where
  "re_field = re_seq [Grp 1 (Many1 (Cls is_word)), spaces, Str ''='', spaces, Grp 2 (Many1 (Cls not_newline))]"

definition re_bits :: re where
  "re_bits = re_seq [Str ''['', Grp 1 digits, Str '':'', Grp 2 digits, Str '']'']"

definition re_array :: re where
  "re_array = re_seq [Str ''['', spaces, Grp 1 digits, Opt (Seq (Str ''x'') digits), spaces, Str '']'']"

definition re_number :: re where
  "re_number = Grp 0 (re_seq [Opt (Cls (\<lambda>c. c = CHR ''-'' \<or> c = CHR ''+'')), Many (Cls is_digit), Opt (Str ''.''), digits])"

text \<open>\<open>_split_respecting_quotes\<close>: the parts found, the part being read (reversed), inside quotes.\<close>

fun split_quoted :: "string list \<Rightarrow> string \<Rightarrow> bool \<Rightarrow> string \<Rightarrow> string list" where
  "split_quoted parts cur q [] = (if cur \<noteq> [] then parts @ [rev cur] else parts)"
| "split_quoted parts cur q (c # s) =
     (if c = CHR 0x22 then split_quoted parts (c # cur) (\<not> q) s
      else if c = CHR '','' \<and> \<not> q then split_quoted (parts @ [rev cur]) [] q s
      else split_quoted parts (c # cur) q s)"

definition split_respecting_quotes :: "string \<Rightarrow> string list" where
  "split_respecting_quotes s = split_quoted [] [] False s"

definition parse_numeric :: "string \<Rightarrow> pyfloat result" where
  "parse_numeric s0 =
     (let s = strip s0 in
      case parse_float s of
        Inr x \<Rightarrow> Inr x
      | Inl e \<Rightarrow>
          (case re_search re_number s of
             Some (g, rest) \<Rightarrow> parse_float (group 0 g)
           | None \<Rightarrow> Inr (Fin 1)))"

text \<open>\<open>self._parse_numeric(parts[i]) if len(parts) > i else default\<close>, and the text of a unit.\<close>

definition numeric_part :: "string list \<Rightarrow> nat \<Rightarrow> pyfloat \<Rightarrow> pyfloat result" where
  "numeric_part parts i d = (if i < length parts then parse_numeric (parts ! i) else Inr d)"

definition units_part :: "string list \<Rightarrow> nat \<Rightarrow> string" where
  "units_part parts i = (if i < length parts then strip_chars [CHR 0x22] (strip (parts ! i)) else [])"

definition parse_field_line :: "string \<Rightarrow> field_def option result" where
  "parse_field_line line =
     (case re_match re_field line of
        None \<Rightarrow> Inr None
      | Some (g, rest) \<Rightarrow>
          let n = group 1 g; parts = split_respecting_quotes (group 2 g) in
          if length parts < 3 then Inr None
          else let ft = lower (strip (parts ! 0)); dt = upper (strip (parts ! 1)) in
            case parse_int (strip (parts ! 2)) of
              Inl e \<Rightarrow> Inr None
            | Inr off \<Rightarrow>
                if ft = ''scalar'' then
                  bindE (numeric_part parts 4 (Fin 1)) (\<lambda>sc.
                  bindE (numeric_part parts 5 (Fin 0)) (\<lambda>tr.
                  Inr (Some ((FieldDef n ''scalar'' dt off)
                    \<lparr>funits := units_part parts 3, fscale := sc, ftranslate := tr\<rparr>))))
                else if ft = ''bits'' then
                  (if length parts > 3 then
                     (case re_search re_bits (parts ! 3) of
                        Some (b, r) \<Rightarrow>
                          bindE (parse_int (group 1 b)) (\<lambda>lo.
                          bindE (parse_int (group 2 b)) (\<lambda>hi.
                          Inr (Some ((FieldDef n ''bits'' dt off)\<lparr>bit_range := Some (lo, hi)\<rparr>))))
                      | None \<Rightarrow> Inr (Some (FieldDef n ''bits'' dt off)))
                   else Inr (Some (FieldDef n ''bits'' dt off)))
                else if ft = ''array'' then
                  bindE (if length parts > 3 then
                           (case re_search re_array (parts ! 3) of
                              Some (b, r) \<Rightarrow> bindE (parse_int (group 1 b)) (\<lambda>k. Inr (Some k))
                            | None \<Rightarrow> Inr None)
                         else Inr None) (\<lambda>size.
                  bindE (numeric_part parts 5 (Fin 1)) (\<lambda>sc.
                  bindE (numeric_part parts 6 (Fin 0)) (\<lambda>tr.
                  Inr (Some ((FieldDef n ''array'' dt off)
                    \<lparr>funits := units_part parts 4, fscale := sc, ftranslate := tr, array_size := size\<rparr>)))))
                else Inr None)"

definition parse_output_channel :: "string \<Rightarrow> ini_config \<Rightarrow> ini_config result" where
  "parse_output_channel line cfg =
     (if contains line ''ochBlockSize'' then
        (case re_search re_block_size line of
           Some (g, r) \<Rightarrow> bindE (parse_int (group 1 g)) (\<lambda>n. Inr (cfg\<lparr>ini_block_size := n\<rparr>))
         | None \<Rightarrow> Inr cfg)
      else if contains line ''{'' \<or> contains line ''ochGetCommand'' \<or> contains line ''deadValue'' then Inr cfg
      else bindE (parse_field_line line) (\<lambda>fd. Inr
        (case fd of
           Some f \<Rightarrow> cfg\<lparr>output_channels := dict_set (fname f) f (output_channels cfg)\<rparr>
         | None \<Rightarrow> cfg)))"

definition parse_constant :: "string \<Rightarrow> ini_parser \<Rightarrow> ini_parser result" where
  "parse_constant line p =
     (if startswith (strip line) ''page'' then
        (case re_search re_page line of
           Some (g, r) \<Rightarrow> bindE (parse_int (group 1 g)) (\<lambda>n. Inr (p\<lparr>current_page := n\<rparr>))
         | None \<Rightarrow> Inr p)
      else bindE (parse_field_line line) (\<lambda>fd. Inr
        (case fd of
           Some f0 \<Rightarrow>
             let f = f0\<lparr>fpage := current_page p\<rparr>
             in p\<lparr>ini := (ini p)\<lparr>constants := dict_set (fname f) f (constants (ini p))\<rparr>\<rparr>
         | None \<Rightarrow> p)))"

text \<open>The preprocessor lines: the new state, or \<open>None\<close> if the line is not one.\<close>

definition preprocess :: "string \<Rightarrow> ini_parser \<Rightarrow> ini_parser option" where
  "preprocess line p =
     (if startswith line ''#if '' then
        (let cond = strip (drop 4 line);
             is_true = (if cond = ''CAN_COMMANDS'' then can_commands (ini p) else cond \<noteq> ''CELSIUS'')
         in Some (p\<lparr>condition_stack := is_true # condition_stack p\<rparr>))
      else if line = ''#else'' then
        Some (case condition_stack p of c # cs \<Rightarrow> p\<lparr>condition_stack := (\<not> c) # cs\<rparr> | [] \<Rightarrow> p)
      else if line = ''#endif'' then
        Some (case condition_stack p of c # cs \<Rightarrow> p\<lparr>condition_stack := cs\<rparr> | [] \<Rightarrow> p)
      else if startswith line ''#set '' then
        Some (if strip (drop 5 line) = ''CAN_COMMANDS''
              then p\<lparr>ini := (ini p)\<lparr>can_commands := True\<rparr>\<rparr> else p)
      else if startswith line ''#unset '' then
        Some (if strip (drop 7 line) = ''CAN_COMMANDS''
              then p\<lparr>ini := (ini p)\<lparr>can_commands := False\<rparr>\<rparr> else p)
      else None)"

definition active :: "ini_parser \<Rightarrow> bool" where
  "active p \<longleftrightarrow> condition_stack p = [] \<or> list_all (\<lambda>c. c) (condition_stack p)"

definition process_line :: "string \<Rightarrow> ini_parser \<Rightarrow> ini_parser result" where
  "process_line line p =
     (if line = [] \<or> startswith line '';'' then Inr p
      else case preprocess line p of
        Some p' \<Rightarrow> Inr p'
      | None \<Rightarrow>
          if \<not> active p then Inr p
          else if startswith line ''['' then Inr (p\<lparr>current_section := strip_chars ''[]'' line\<rparr>)
          else if contains (lower line) ''signature'' \<and> contains line ''='' then
            Inr (case re_search re_signature line of
                   Some (g, r) \<Rightarrow> p\<lparr>ini := (ini p)\<lparr>ini_signature := group 1 g\<rparr>\<rparr>
                 | None \<Rightarrow> p)
          else if current_section p = ''OutputChannels'' then
            bindE (parse_output_channel line (ini p)) (\<lambda>cfg. Inr (p\<lparr>ini := cfg\<rparr>))
          else if current_section p = ''Constants'' then parse_constant line p
          else Inr p)"

definition parse_lines :: "string list \<Rightarrow> ini_parser \<Rightarrow> ini_parser result" where
  "parse_lines ls p = foldE (\<lambda>line. process_line (strip line)) ls p"

text \<open>\<open>INIParser(path).parse()\<close> on a file with the bytes \<open>file\<close>.\<close>

definition parse_ini :: "bytes \<Rightarrow> ini_config result" where
  "parse_ini file =
     bindE (parse_lines (splitlines (remove_line_prefixes (read_text file))) INIParser) (\<lambda>p. Inr (ini p))"

end
