(* ===== verification/PyRandom.thy ===== *)
theory PyRandom
  imports PyFloat "HOL-Library.Stream"
begin

text \<open>
  Computations that draw random numbers and may raise: a function of the stream of the values
  \<open>random.random()\<close> will return. \<open>uniform\<close> and \<open>choices\<close> are computed from the draws as the
  standard library computes them. \<open>safe m P\<close> is total correctness: on draws from \<open>[0, 1)\<close> the
  computation \<open>m\<close> does not raise and its value satisfies \<open>P\<close>.
\<close>

type_synonym rng = "rat stream"
type_synonym 'a gen = "rng \<Rightarrow> 'a result \<times> rng"

definition returnG :: "'a \<Rightarrow> 'a gen" where
  "returnG x g = (Inr x, g)"

definition liftG :: "'a result \<Rightarrow> 'a gen" where
  "liftG r g = (r, g)"

definition bindG :: "'a gen \<Rightarrow> ('a \<Rightarrow> 'b gen) \<Rightarrow> 'b gen" where
  "bindG m f g = (case m g of (Inl e, g') \<Rightarrow> (Inl e, g') | (Inr x, g') \<Rightarrow> f x g')"

text \<open>\<open>random.random()\<close>.\<close>

definition random :: "pyfloat gen" where
  "random g = (Inr (Fin (shd g)), stl g)"

text \<open>\<open>random.uniform(a, b)\<close>: \<open>a + (b - a) * random()\<close>.\<close>

definition uniform :: "pyfloat \<Rightarrow> pyfloat \<Rightarrow> pyfloat gen" where
  "uniform a b = bindG random (\<lambda>r. returnG (py_add a (py_mul (py_sub b a) r)))"

text \<open>
  \<open>random.choices(population, weights)[0]\<close>: the cumulative weights, the checks on them, and the
  place of \<open>random() * total\<close> among all but the last of them.
\<close>

fun accumulate :: "pyfloat \<Rightarrow> pyfloat list \<Rightarrow> pyfloat list" where
  "accumulate acc [] = [acc]"
| "accumulate acc (w # ws) = acc # accumulate (py_add acc w) ws"

definition choice :: "'a list \<Rightarrow> pyfloat list \<Rightarrow> 'a gen" where
  "choice population weights =
     (case weights of
        [] \<Rightarrow> liftG (Inl IndexError)
      | w # ws \<Rightarrow>
          let cum = accumulate w ws; total = py_add (last cum) (Fin 0) in
          if length cum \<noteq> length population then liftG (Inl ValueError)
          else if \<not> py_lt (Fin 0) total \<or> total = PInf then liftG (Inl ValueError)
          else bindG random (\<lambda>r.
            let x = py_mul r total in
            returnG (population ! length (takeWhile (\<lambda>c. \<not> py_lt x c) (butlast cum)))))"

section \<open>Total correctness\<close>

definition draws_ok :: "rng \<Rightarrow> bool" where
  "draws_ok g \<longleftrightarrow> (\<forall>r\<in>sset g. 0 \<le> r \<and> r < 1)"

definition safe :: "'a gen \<Rightarrow> ('a \<Rightarrow> bool) \<Rightarrow> bool" where
  "safe m P \<longleftrightarrow> (\<forall>g. draws_ok g \<longrightarrow> (\<exists>x g'. m g = (Inr x, g') \<and> draws_ok g' \<and> P x))"

named_theorems safe_intros \<open>total correctness, backwards\<close>

lemma safe_return [safe_intros]: "P x \<Longrightarrow> safe (returnG x) P"
  by (simp add: safe_def returnG_def)

lemma safe_lift [safe_intros]: "\<exists>x. r = Inr x \<and> P x \<Longrightarrow> safe (liftG r) P"
  by (auto simp: safe_def liftG_def)

lemma safe_bind: "safe m Q \<Longrightarrow> (\<And>x. Q x \<Longrightarrow> safe (f x) P) \<Longrightarrow> safe (bindG m f) P"
  by (fastforce simp: safe_def bindG_def)

lemma safe_mono: "safe m Q \<Longrightarrow> (\<And>x. Q x \<Longrightarrow> P x) \<Longrightarrow> safe m P"
  by (fastforce simp: safe_def)

lemma safe_random: "safe random (inside 0 1)"
proof -
  have "draws_ok g \<Longrightarrow> 0 \<le> shd g \<and> shd g \<le> 1 \<and> draws_ok (stl g)" for g
    by (cases g) (auto simp: draws_ok_def less_imp_le)
  then show ?thesis by (auto simp: safe_def random_def)
qed

lemma safe_uniform:
  assumes "inside al ah a" and "inside bl bh b" and "ah \<le> bl"
    and "representable lo" and "representable hi" and "representable w"
    and "bh - al \<le> w" and "lo \<le> al" and "ah + w \<le> hi"
  shows "safe (uniform a b) (inside lo hi)"
  unfolding uniform_def
proof (rule safe_bind [OF safe_random], rule safe_return)
  fix r assume r: "inside 0 1 r"
  have "inside 0 w (py_sub b a)"
    by (rule inside_sub [OF assms(2,1)]) (use assms in \<open>simp_all add: representable_simps\<close>)
  then have "inside 0 w (py_mul (py_sub b a) r)"
    by (rule inside_mul [OF _ r]) (use assms(6) in \<open>simp_all add: representable_simps\<close>)
  then show "inside lo hi (py_add a (py_mul (py_sub b a) r))"
    by (rule inside_add [OF assms(1)]) (use assms in simp_all)
qed

lemma length_accumulate [simp]: "length (accumulate a ws) = Suc (length ws)"
  by (induction ws arbitrary: a) simp_all

lemma accumulate_nonempty [simp]: "accumulate a ws \<noteq> []"
  by (cases ws) simp_all

lemma last_accumulate:
  "inside (1 / 16) (of_nat k) a \<Longrightarrow> list_all (inside (1 / 16) 1) ws \<Longrightarrow> k + length ws < 1000 \<Longrightarrow>
     inside (1 / 16) (of_nat (k + length ws)) (last (accumulate a ws))"
proof (induction ws arbitrary: a k)
  case (Cons w ws)
  have r: "representable (1 / 16)" "representable (of_nat (k + 1))"
    using representable_int [of "int (k + 1)"] Cons.prems(3) by (simp_all add: representable_simps)
  have "inside (1 / 16) (of_nat (k + 1)) (py_add a w)"
    by (rule inside_add [of _ _ _ "1 / 16" 1, OF Cons.prems(1) _ r]) (use Cons.prems(2) in simp_all)
  with Cons.IH [of "k + 1" "py_add a w"] Cons.prems show ?case by simp
qed simp

lemma safe_choice:
  assumes "length weights = length population" and "population \<noteq> []" and "\<And>x. x \<in> set population \<Longrightarrow> P x"
    and "list_all (inside (1 / 16) 1) weights" and "length weights < 900"
  shows "safe (choice population weights) P"
proof (cases weights)
  case (Cons w ws)
  let ?cum = "accumulate w ws"
  have r: "representable (1 / 16)" "representable 1000"
    by (simp_all add: representable_simps)
  have "inside (1 / 16) (of_nat (1 + length ws)) (last ?cum)"
    using assms(4,5) Cons by (intro last_accumulate) simp_all
  moreover have "of_nat (1 + length ws) \<le> (1000 :: rat)" using assms(5) Cons by simp
  ultimately have "inside (1 / 16) 1000 (last ?cum)" by (rule inside_mono [OF _ order_refl])
  then have "inside (1 / 16) 1000 (py_add (last ?cum) (Fin 0))"
    by (rule inside_add [of _ _ _ 0 0, OF _ _ r]) simp_all
  then have total: "py_lt (Fin 0) (py_add (last ?cum) (Fin 0))" "py_add (last ?cum) (Fin 0) \<noteq> PInf"
    by (auto simp: inside_def)
  have "length (takeWhile f (butlast ?cum)) < length population" for f
    using length_takeWhile_le [of f "butlast ?cum"] assms(1) Cons by simp
  then have "P (population ! length (takeWhile f (butlast ?cum)))" for f
    by (intro assms(3) nth_mem)
  with total assms(1) Cons show ?thesis
    by (auto simp: choice_def Let_def intro!: safe_bind [OF safe_random] safe_return)
qed (use assms in simp)

lemma safe_run: "safe m P \<Longrightarrow> draws_ok g \<Longrightarrow> \<exists>x g'. m g = (Inr x, g') \<and> draws_ok g' \<and> P x"
  by (simp add: safe_def)

section \<open>Drawing and going on\<close>

lemma bind_lift: "\<exists>x. r = Inr x \<and> Q x \<Longrightarrow> (\<And>x. Q x \<Longrightarrow> safe (f x) P) \<Longrightarrow> safe (bindG (liftG r) f) P"
  by (rule safe_bind [OF safe_lift])

lemma bind_uniform:
  assumes "a \<le> b" and "representable a" and "representable b" and "representable (b - a)"
    and "\<And>x. inside a b x \<Longrightarrow> safe (f x) P"
  shows "safe (bindG (uniform (Fin a) (Fin b)) f) P"
  by (rule safe_bind [OF safe_uniform [of a a _ b b _ a b "b - a"]]) (use assms in simp_all)

text \<open>Bounds that are rounded literals, of absolute value at most a quarter or between that and a half.\<close>

lemma bind_uniform_quarter:
  assumes "y = - x" and "0 \<le> x" and "x \<le> 1 / 4"
    and "\<And>u. inside (- (1 / 4)) (1 / 2) u \<Longrightarrow> safe (f u) P"
  shows "safe (bindG (uniform (rnd y) (rnd x)) f) P"
  by (rule safe_bind [OF safe_uniform [of "- (1 / 4)" 0 _ 0 "1 / 4" _ "- (1 / 4)" "1 / 2" "1 / 2"]])
    (use assms in \<open>auto intro!: inside_rnd simp: representable_simps\<close>)

lemma bind_uniform_half:
  assumes "y = - x" and "1 / 4 \<le> x" and "x \<le> 1 / 2"
    and "\<And>u. inside (- (1 / 2)) (3 / 4) u \<Longrightarrow> safe (f u) P"
  shows "safe (bindG (uniform (rnd y) (rnd x)) f) P"
  by (rule safe_bind [OF safe_uniform [of "- (1 / 2)" "- (1 / 4)" _ "1 / 4" "1 / 2" _ "- (1 / 2)" "3 / 4" 1]])
    (use assms in \<open>auto intro!: inside_rnd simp: representable_simps\<close>)

lemma bind_uniform_lit:
  assumes "y = - x" and "0 \<le> x" and "x \<le> 1 / 2"
    and "\<And>u. inside (- (1 / 2)) 1 u \<Longrightarrow> safe (f u) P"
  shows "safe (bindG (uniform (rnd y) (rnd x)) f) P"
  by (rule safe_bind [OF safe_uniform [of "- (1 / 2)" 0 _ 0 "1 / 2" _ "- (1 / 2)" 1 1]])
    (use assms in \<open>auto intro!: inside_rnd simp: representable_simps\<close>)

section \<open>Partial correctness\<close>

text \<open>Whenever \<open>m\<close> returns, its value satisfies \<open>P\<close>, whatever the draws.\<close>

definition post :: "'a gen \<Rightarrow> ('a \<Rightarrow> bool) \<Rightarrow> bool" where
  "post m P \<longleftrightarrow> (\<forall>g x g'. m g = (Inr x, g') \<longrightarrow> P x)"

lemma post_return: "P x \<Longrightarrow> post (returnG x) P"
  by (simp add: post_def returnG_def)

lemma post_bind: "post m Q \<Longrightarrow> (\<And>x. Q x \<Longrightarrow> post (f x) P) \<Longrightarrow> post (bindG m f) P"
  by (fastforce simp: post_def bindG_def split: prod.splits sum.splits)

lemma post_any: "(\<And>x. post (f x) P) \<Longrightarrow> post (bindG m f) P"
  by (fastforce simp: post_def bindG_def split: prod.splits sum.splits)

lemma post_run: "post m P \<Longrightarrow> m g = (Inr x, g') \<Longrightarrow> P x"
  unfolding post_def by blast

end
