(* ===== verification/EngineState.thy ===== *)
theory EngineState
  imports PyRandom
begin

text \<open>
  \<open>ecuSim/src/engine_state.py\<close>: the simulated engine (\<open>EngineState\<close>) and the scripted scenarios
  (\<open>ScenarioRunner\<close>). A step takes the time \<open>dt\<close> and draws random numbers; an exception would
  end it. Integers the code assigns to float fields are the floats equal to them.
\<close>

section \<open>State\<close>

record engine_state =
  rpm :: pyfloat
  target_rpm :: pyfloat
  map_kpa :: pyfloat
  tps :: pyfloat
  coolant :: pyfloat
  mat_temp :: pyfloat
  afr :: pyfloat
  advance :: pyfloat
  pulse_width :: pyfloat
  pulse_width2 :: pyfloat
  dwell :: pyfloat
  battery :: pyfloat
  barometer :: pyfloat
  start_time :: pyfloat
  running :: bool
  cranking :: bool
  warmup :: bool
  mode :: string
  mode_timer :: pyfloat
  ego_correction1 :: pyfloat
  ego_correction2 :: pyfloat
  ve_curr1 :: pyfloat
  ve_curr2 :: pyfloat
  iac_step :: int
  knock_voltage :: pyfloat
  knock_retard :: pyfloat
  warmup_enrich :: pyfloat
  accel_enrich :: pyfloat
  gamma_enrich :: pyfloat
  air_correction :: pyfloat
  baro_correction :: pyfloat
  tps_dot :: pyfloat
  map_dot :: pyfloat
  rpm_dot :: pyfloat
  prev_tps :: pyfloat
  prev_map :: pyfloat
  prev_rpm :: pyfloat

definition EngineState :: "pyfloat \<Rightarrow> engine_state" where
  "EngineState now =
     \<lparr>rpm = Fin 850, target_rpm = Fin 850, map_kpa = Fin 35, tps = Fin 0,
      coolant = Fin 180, mat_temp = Fin 85, afr = lit (147/10), advance = Fin 15,
      pulse_width = lit (25/10), pulse_width2 = lit (25/10), dwell = Fin 3,
      battery = lit (141/10), barometer = lit (1013/10), start_time = now,
      running = True, cranking = False, warmup = False, mode = ''idle'', mode_timer = Fin 0,
      ego_correction1 = Fin 100, ego_correction2 = Fin 100, ve_curr1 = Fin 75, ve_curr2 = Fin 75,
      iac_step = 30, knock_voltage = Fin 0, knock_retard = Fin 0, warmup_enrich = Fin 100,
      accel_enrich = Fin 0, gamma_enrich = Fin 100, air_correction = Fin 100, baro_correction = Fin 100,
      tps_dot = Fin 0, map_dot = Fin 0, rpm_dot = Fin 0,
      prev_tps = Fin 0, prev_map = Fin 35, prev_rpm = Fin 850\<rparr>"

section \<open>The step of each driving mode\<close>

definition update_idle :: "pyfloat \<Rightarrow> engine_state \<Rightarrow> engine_state gen" where
  "update_idle dt s =
     bindG (uniform (Fin (- 20)) (Fin 20)) (\<lambda>u1.
     bindG (uniform (Fin (- 2)) (Fin 2)) (\<lambda>u2.
     bindG (uniform (lit (- 3/10)) (lit (3/10))) (\<lambda>u3.
     bindG (uniform (Fin (- 1)) (Fin 1)) (\<lambda>u4.
     bindG (uniform (Fin (- 5)) (Fin 5)) (\<lambda>u5.
     bindG (liftG (py_int u5)) (\<lambda>step.
     returnG (s\<lparr>target_rpm := py_add (Fin 850) u1,
       tps := py_max (Fin 0) (py_sub (tps s) (py_mul dt (Fin 50))),
       map_kpa := py_add (Fin 30) u2,
       afr := py_add (lit (147/10)) u3,
       advance := py_add (Fin 18) u4,
       iac_step := 30 + step\<rparr>)))))))"

definition update_cruise :: "pyfloat \<Rightarrow> engine_state \<Rightarrow> engine_state gen" where
  "update_cruise dt s =
     bindG (uniform (Fin (- 100)) (Fin 100)) (\<lambda>u1.
     bindG (uniform (Fin (- 3)) (Fin 3)) (\<lambda>u2.
     bindG (uniform (Fin (- 5)) (Fin 5)) (\<lambda>u3.
     bindG (uniform (lit (- 2/10)) (lit (2/10))) (\<lambda>u4.
     bindG (uniform (Fin (- 2)) (Fin 2)) (\<lambda>u5.
     returnG (s\<lparr>target_rpm := py_add (Fin 2800) u1,
       tps := py_add (Fin 25) u2,
       map_kpa := py_add (Fin 55) u3,
       afr := py_add (lit (145/10)) u4,
       advance := py_add (Fin 28) u5,
       iac_step := 0\<rparr>))))))"

definition update_accel :: "pyfloat \<Rightarrow> engine_state \<Rightarrow> engine_state gen" where
  "update_accel dt s =
     (let target = py_min (Fin 6500) (py_add (target_rpm s) (py_mul dt (Fin 2000)));
          throttle = py_min (Fin 95) (py_add (tps s) (py_mul dt (Fin 100)));
          pressure = py_min (Fin 100) (py_add (Fin 40) (py_mul throttle (lit (6/10))))
      in bindG (uniform (lit (- 3/10)) (lit (3/10))) (\<lambda>u.
         returnG (s\<lparr>target_rpm := target, tps := throttle, map_kpa := pressure,
           afr := py_add (lit (125/10)) u,
           advance := py_max (Fin 10) (py_sub (Fin 35) (py_mul pressure (lit (2/10)))),
           iac_step := 0,
           accel_enrich := py_mul (tps_dot s) (lit (1/10))\<rparr>)))"

definition update_decel :: "pyfloat \<Rightarrow> engine_state \<Rightarrow> engine_state gen" where
  "update_decel dt s =
     bindG (uniform (lit (- 2/10)) (lit (2/10))) (\<lambda>u1.
     bindG (uniform (Fin (- 2)) (Fin 2)) (\<lambda>u2.
     returnG (s\<lparr>target_rpm := py_max (Fin 1200) (py_sub (target_rpm s) (py_mul dt (Fin 1500))),
       tps := py_max (Fin 0) (py_sub (tps s) (py_mul dt (Fin 80))),
       map_kpa := py_max (Fin 20) (py_sub (map_kpa s) (py_mul dt (Fin 30))),
       afr := py_add (lit (155/10)) u1,
       advance := py_add (Fin 25) u2,
       iac_step := 0,
       accel_enrich := Fin 0\<rparr>)))"

section \<open>The common part of a step\<close>

definition update_fuel_params :: "engine_state \<Rightarrow> engine_state gen" where
  "update_fuel_params s =
     bindG (liftG (py_div (map_kpa s) (Fin 100))) (\<lambda>load.
     bindG (uniform (lit (- 1/10)) (lit (1/10))) (\<lambda>u1.
     let pw = py_add (py_add (lit (15/10)) (py_mul load (Fin 8))) u1 in
     bindG (uniform (lit (- 5/100)) (lit (5/100))) (\<lambda>u2.
     bindG (uniform (lit (- 1/10)) (lit (1/10))) (\<lambda>u3.
     bindG (uniform (Fin (- 2)) (Fin 2)) (\<lambda>u4.
     let ve = py_add (py_add (Fin 75) (py_mul load (Fin 50))) u4 in
     bindG (uniform (Fin (- 1)) (Fin 1)) (\<lambda>u5.
     bindG (uniform (Fin (- 3)) (Fin 3)) (\<lambda>u6.
     bindG (uniform (Fin (- 3)) (Fin 3)) (\<lambda>u7.
     returnG (s\<lparr>pulse_width := pw, pulse_width2 := py_add pw u2, dwell := py_add (lit (25/10)) u3,
       ve_curr1 := ve, ve_curr2 := py_add ve u5,
       ego_correction1 := py_add (Fin 100) u6, ego_correction2 := py_add (Fin 100) u7\<rparr>)))))))))"

text \<open>\<open>x += (target - x) * dt * k\<close>, then a random step.\<close>

definition approach :: "pyfloat \<Rightarrow> pyfloat \<Rightarrow> pyfloat \<Rightarrow> pyfloat \<Rightarrow> pyfloat" where
  "approach target dt k x = py_add x (py_mul (py_mul (py_sub target x) dt) k)"

definition update_temperatures :: "pyfloat \<Rightarrow> engine_state \<Rightarrow> engine_state gen" where
  "update_temperatures dt s =
     (let target_coolant = (if py_lt (Fin 500) (rpm s) then Fin 190 else Fin 70) in
     bindG (uniform (lit (- 5/10)) (lit (5/10))) (\<lambda>u1.
     bindG (liftG (py_div (rpm s) (Fin 6500))) (\<lambda>flow.
     let target_mat = py_add (Fin 90) (py_mul flow (Fin 30)) in
     bindG (uniform (lit (- 2/10)) (lit (2/10))) (\<lambda>u2.
     returnG (s\<lparr>coolant := py_add (approach target_coolant dt (lit (1/100)) (coolant s)) u1,
       mat_temp := py_add (approach target_mat dt (lit (5/100)) (mat_temp s)) u2\<rparr>)))))"

definition update_battery :: "engine_state \<Rightarrow> engine_state gen" where
  "update_battery s =
     bindG (liftG (py_div (rpm s) (Fin 6500))) (\<lambda>flow.
     bindG (uniform (lit (- 5/100)) (lit (5/100))) (\<lambda>u.
     returnG (s\<lparr>battery := py_add (py_sub (lit (141/10)) (py_mul flow (lit (3/10)))) u\<rparr>)))"

definition update_enrichments :: "engine_state \<Rightarrow> engine_state gen" where
  "update_enrichments s =
     bindG (uniform (Fin (- 1)) (Fin 1)) (\<lambda>u.
     returnG (s\<lparr>warmup_enrich := Fin (100 + (if warmup s then 20 else 0)),
       gamma_enrich := Fin (100 + (if warmup s then 10 else 0)),
       air_correction := py_add (Fin 100) u,
       baro_correction := Fin 100\<rparr>))"

definition modes :: "string list" where
  "modes = [''idle'', ''cruise'', ''accel'', ''decel'']"

definition change_mode :: "engine_state \<Rightarrow> engine_state gen" where
  "change_mode s =
     (let weights =
        (if py_lt (rpm s) (Fin 1000) then [lit (2/10), lit (3/10), lit (4/10), lit (1/10)]
         else if py_lt (Fin 5000) (rpm s) then [lit (1/10), lit (2/10), lit (1/10), lit (6/10)]
         else [lit (3/10), lit (35/100), lit (2/10), lit (15/100)])
      in bindG (choice modes weights) (\<lambda>m.
         bindG (uniform (Fin 2) (Fin 8)) (\<lambda>t.
         returnG (s\<lparr>mode := m, mode_timer := t\<rparr>))))"

definition update_mode :: "pyfloat \<Rightarrow> engine_state \<Rightarrow> engine_state gen" where
  "update_mode dt s =
     (if mode s = ''idle'' then update_idle dt s
      else if mode s = ''cruise'' then update_cruise dt s
      else if mode s = ''accel'' then update_accel dt s
      else if mode s = ''decel'' then update_decel dt s
      else returnG s)"

definition smooth_rpm :: "pyfloat \<Rightarrow> engine_state \<Rightarrow> engine_state" where
  "smooth_rpm dt s =
     (let rpm_diff = py_sub (target_rpm s) (rpm s)
      in s\<lparr>rpm := py_max (Fin 0) (py_add (rpm s) (py_mul rpm_diff (py_min (Fin 1) (py_mul dt (Fin 5)))))\<rparr>)"

definition update_derivatives :: "pyfloat \<Rightarrow> engine_state \<Rightarrow> engine_state gen" where
  "update_derivatives dt s =
     (if py_lt (Fin 0) dt then
        bindG (liftG (py_div (py_sub (tps s) (prev_tps s)) dt)) (\<lambda>a.
        bindG (liftG (py_div (py_sub (map_kpa s) (prev_map s)) dt)) (\<lambda>b.
        bindG (liftG (py_div (py_sub (rpm s) (prev_rpm s)) dt)) (\<lambda>c.
        returnG (s\<lparr>tps_dot := a, map_dot := b, rpm_dot := c\<rparr>))))
      else returnG s)"

definition update_engine :: "pyfloat \<Rightarrow> engine_state \<Rightarrow> engine_state gen" where
  "update_engine dt s0 =
     (let s1 = s0\<lparr>mode_timer := py_sub (mode_timer s0) dt\<rparr> in
     bindG (if py_le (mode_timer s1) (Fin 0) then change_mode s1 else returnG s1) (\<lambda>s2.
     let s3 = s2\<lparr>prev_tps := tps s2, prev_map := map_kpa s2, prev_rpm := rpm s2\<rparr> in
     bindG (update_mode dt s3) (\<lambda>s4.
     bindG (update_derivatives dt (smooth_rpm dt s4)) (\<lambda>s5.
     bindG (update_fuel_params s5) (\<lambda>s6.
     bindG (update_temperatures dt s6) (\<lambda>s7.
     bindG (update_battery s7) (\<lambda>s8.
     bindG (update_enrichments s8) (\<lambda>s9.
     returnG (s9\<lparr>warmup := py_lt (coolant s9) (Fin 160), cranking := False\<rparr>)))))))))"

section \<open>Derived values\<close>

definition seconds :: "pyfloat \<Rightarrow> engine_state \<Rightarrow> int result" where
  "seconds now s = py_int (py_sub now (start_time s))"

definition engine_bits :: "engine_state \<Rightarrow> int" where
  "engine_bits s =
     (let bits = (if running s then 0x01 else 0 :: int);
          bits = (if cranking s then or bits 0x02 else bits)
      in if warmup s then or bits 0x0C else bits)"

definition squirt_bits :: "engine_state \<Rightarrow> int" where
  "squirt_bits s = (if running s then 0x28 else 0)"

definition afr_target :: "engine_state \<Rightarrow> pyfloat" where
  "afr_target s = (if py_lt (Fin 80) (tps s) then lit (125/10) else lit (147/10))"

definition set_mode :: "string \<Rightarrow> engine_state \<Rightarrow> engine_state" where
  "set_mode m s = (if m \<in> set modes then s\<lparr>mode := m, mode_timer := Fin 999\<rparr> else s)"

section \<open>Scenarios\<close>

text \<open>The runner and the engine state it refers to.\<close>

record scenario_runner =
  engine :: engine_state
  scenario_name :: "string option"
  scenario_step :: int
  scenario_timer :: pyfloat

definition ScenarioRunner :: "engine_state \<Rightarrow> scenario_runner" where
  "ScenarioRunner s = \<lparr>engine = s, scenario_name = None, scenario_step = 0, scenario_timer = Fin 0\<rparr>"

definition run_cold_start :: "scenario_runner \<Rightarrow> scenario_runner" where
  "run_cold_start r =
     r\<lparr>scenario_name := Some ''cold_start'',
       engine := (engine r)\<lparr>coolant := Fin 70, mat_temp := Fin 60, warmup := True, cranking := True, rpm := Fin 0\<rparr>,
       scenario_step := 0\<rparr>"

definition run_warmup :: "scenario_runner \<Rightarrow> scenario_runner" where
  "run_warmup r =
     r\<lparr>scenario_name := Some ''warmup'', engine := (engine r)\<lparr>coolant := Fin 100, warmup := True\<rparr>, scenario_step := 0\<rparr>"

definition run_highway :: "scenario_runner \<Rightarrow> scenario_runner" where
  "run_highway r =
     r\<lparr>scenario_name := Some ''highway'',
       engine := (set_mode ''cruise'' (engine r))\<lparr>target_rpm := Fin 3500, tps := Fin 30, map_kpa := Fin 70\<rparr>\<rparr>"

definition run_track_day :: "scenario_runner \<Rightarrow> scenario_runner" where
  "run_track_day r = r\<lparr>scenario_name := Some ''track'', scenario_step := 0\<rparr>"

definition update_cold_start :: "pyfloat \<Rightarrow> scenario_runner \<Rightarrow> scenario_runner" where
  "update_cold_start dt r0 =
     (let r = r0\<lparr>scenario_timer := py_add (scenario_timer r0) dt\<rparr>; s = engine r in
      if scenario_step r = 0 \<and> py_lt (Fin 2) (scenario_timer r) then
        r\<lparr>engine := s\<lparr>cranking := True, rpm := Fin 250\<rparr>, scenario_step := 1\<rparr>
      else if scenario_step r = 1 \<and> py_lt (Fin 4) (scenario_timer r) then
        r\<lparr>engine := s\<lparr>cranking := False, running := True, rpm := Fin 1200\<rparr>, scenario_step := 2\<rparr>
      else if scenario_step r = 2 \<and> py_lt (Fin 8) (scenario_timer r) then
        r\<lparr>engine := s\<lparr>target_rpm := Fin 1100\<rparr>, scenario_step := 3\<rparr>
      else if scenario_step r = 3 then
        (let c = py_add (coolant s) (py_mul dt (lit (5/10)))
         in r\<lparr>engine := s\<lparr>coolant := c\<rparr>,
              scenario_name := (if py_lt (Fin 180) c then None else scenario_name r)\<rparr>)
      else r)"

definition update_track :: "pyfloat \<Rightarrow> scenario_runner \<Rightarrow> scenario_runner gen" where
  "update_track dt r0 =
     (let r = r0\<lparr>scenario_timer := py_add (scenario_timer r0) dt\<rparr>; s = engine r in
     bindG (liftG (py_mod (scenario_timer r) (Fin 20))) (\<lambda>cycle_time.
     if py_lt cycle_time (Fin 8) then
       bindG (uniform (Fin (- 200)) (Fin 200)) (\<lambda>u.
       returnG (r\<lparr>engine := (set_mode ''accel'' s)\<lparr>target_rpm := py_add (Fin 6000) u\<rparr>\<rparr>))
     else if py_lt cycle_time (Fin 12) then
       returnG (r\<lparr>engine := set_mode ''decel'' s\<rparr>)
     else if py_lt cycle_time (Fin 16) then
       returnG (r\<lparr>engine := s\<lparr>target_rpm := Fin 4000, tps := Fin 40, map_kpa := Fin 60\<rparr>\<rparr>)
     else returnG (r\<lparr>engine := set_mode ''accel'' s\<rparr>)))"

definition update_scenario :: "pyfloat \<Rightarrow> scenario_runner \<Rightarrow> scenario_runner gen" where
  "update_scenario dt r =
     (if scenario_name r = None \<or> scenario_name r = Some [] then returnG r
      else if scenario_name r = Some ''cold_start'' then returnG (update_cold_start dt r)
      else if scenario_name r = Some ''track'' then update_track dt r
      else returnG r)"

section \<open>The envelope of the engine\<close>

definition dt_ok :: "pyfloat \<Rightarrow> bool" where
  "dt_ok dt \<longleftrightarrow> inside 0 20 dt"

definition engine_ok :: "engine_state \<Rightarrow> bool" where
  "engine_ok s \<longleftrightarrow>
     inside 0 6501 (rpm s) \<and> inside 830 6500 (target_rpm s) \<and> inside 20 100 (map_kpa s) \<and>
     inside 0 95 (tps s) \<and> inside 12 16 (afr s) \<and> inside 10 35 (advance s) \<and>
     inside 1 11 (pulse_width s) \<and> inside 1 11 (pulse_width2 s) \<and> inside 2 3 (dwell s) \<and>
     inside 13 15 (battery s) \<and> inside 73 127 (ve_curr1 s) \<and> inside 72 128 (ve_curr2 s) \<and>
     inside 97 103 (ego_correction1 s) \<and> inside 97 103 (ego_correction2 s) \<and>
     inside 100 120 (warmup_enrich s) \<and> inside 100 110 (gamma_enrich s) \<and>
     inside 99 101 (air_correction s) \<and> inside 0 999 (mode_timer s) \<and>
     0 \<le> iac_step s \<and> iac_step s \<le> 35 \<and> mode s \<in> set modes"

lemmas float_bounds = representable_simps dt_ok_def

lemma add_Fin:
  "inside a b x \<Longrightarrow> lo \<le> c + a \<Longrightarrow> c + b \<le> hi \<Longrightarrow> representable lo \<Longrightarrow> representable hi \<Longrightarrow>
     inside lo hi (py_add (Fin c) x)"
  by (rule inside_add [of c c _ a b]) simp_all

lemma add_lit:
  "inside a b x \<Longrightarrow> l \<le> c \<Longrightarrow> c \<le> u \<Longrightarrow> lo \<le> l + a \<Longrightarrow> u + b \<le> hi \<Longrightarrow> representable l \<Longrightarrow> representable u \<Longrightarrow>
     representable lo \<Longrightarrow> representable hi \<Longrightarrow> inside lo hi (py_add (rnd c) x)"
  by (rule inside_add [OF inside_rnd]) simp_all

lemma dt_times: "dt_ok dt \<Longrightarrow> 0 \<le> k \<Longrightarrow> representable (20 * k) \<Longrightarrow> inside 0 (20 * k) (py_mul dt (Fin k))"
  unfolding dt_ok_def by (rule inside_mul [of 0 20 _ k k]) (simp_all add: representable_simps)

text \<open>\<open>max(lo, x - dt * k)\<close> and \<open>min(hi, x + dt * k)\<close>.\<close>

lemma decay:
  assumes "dt_ok dt" and "inside a b x" and "0 \<le> k" and "representable (20 * k)"
    and "representable (a - 20 * k)" and "representable b" and "lo \<le> b" and "a - 20 * k \<le> lo"
  shows "inside lo b (py_max (Fin lo) (py_sub x (py_mul dt (Fin k))))"
proof -
  have "inside (a - 20 * k) b (py_sub x (py_mul dt (Fin k)))"
    by (rule inside_sub [OF assms(2) dt_times [OF assms(1,3,4)]]) (use assms in simp_all)
  from inside_max [of lo lo "Fin lo", OF _ this] assms(7,8) show ?thesis by (simp add: max_absorb1 max_absorb2)
qed

lemma growth:
  assumes "dt_ok dt" and "inside a b x" and "0 \<le> k" and "representable (20 * k)"
    and "representable (b + 20 * k)" and "representable a" and "a \<le> hi" and "hi \<le> b + 20 * k"
  shows "inside a hi (py_min (Fin hi) (py_add x (py_mul dt (Fin k))))"
proof -
  have "inside a (b + 20 * k) (py_add x (py_mul dt (Fin k)))"
    by (rule inside_add [OF assms(2) dt_times [OF assms(1,3,4)]]) (use assms in simp_all)
  from inside_min [of hi hi "Fin hi", OF _ this] assms(7,8) show ?thesis by (simp add: min_absorb1 min_absorb2)
qed

text \<open>The pressure and the advance under acceleration.\<close>

lemma full_load:
  assumes "inside 0 95 throttle"
  shows "inside 40 100 (py_min (Fin 100) (py_add (Fin 40) (py_mul throttle (lit (6/10)))))" (is "inside _ _ ?pressure")
    and "inside 10 35 (py_max (Fin 10) (py_sub (Fin 35)
      (py_mul (py_min (Fin 100) (py_add (Fin 40) (py_mul throttle (lit (6/10))))) (lit (2/10)))))"
proof -
  let ?push = "py_mul throttle (lit (6/10))" and ?drop = "py_mul ?pressure (lit (2/10))"
  have "inside (1 / 2) 1 (lit (6/10))" by (rule inside_rnd) (simp_all add: float_bounds)
  from inside_mul [OF assms this, of 0 95] have "inside 0 95 ?push" by (simp add: float_bounds)
  then have "inside 40 135 (py_add (Fin 40) ?push)" by (rule add_Fin) (simp_all add: float_bounds)
  from inside_min [of 100 100 "Fin 100", OF _ this] show pressure: "inside 40 100 ?pressure" by simp
  have "inside (1 / 16) (1 / 4) (lit (2/10))" by (rule inside_rnd) (simp_all add: float_bounds)
  from inside_mul [OF pressure this, of 2 25] have "inside 2 25 ?drop" by (simp add: float_bounds)
  from inside_sub [of 35 35 "Fin 35", OF _ this, of 10 33] have "inside 10 33 (py_sub (Fin 35) ?drop)"
    by (simp add: float_bounds)
  from inside_max [of 10 10 "Fin 10", OF _ this] show "inside 10 35 (py_max (Fin 10) (py_sub (Fin 35) ?drop))"
    by (auto intro: inside_mono)
qed

text \<open>The pulse width and the battery's voltage.\<close>

lemma pulse:
  assumes load: "inside 0 1 load" and u: "inside (- (1 / 4)) (1 / 2) u"
  shows "inside (5 / 4) 10 (py_add (py_add (lit (15/10)) (py_mul load (Fin 8))) u)"
proof -
  have "inside 0 8 (py_mul load (Fin 8))"
    by (rule inside_mul [OF load, of 8 8]) (simp_all add: float_bounds)
  then have "inside (3 / 2) (19 / 2) (py_add (lit (15/10)) (py_mul load (Fin 8)))"
    by (rule add_lit [of 0 8 _ "3 / 2" _ "3 / 2"]) (simp_all add: float_bounds)
  from inside_add [OF this u, of "5 / 4" 10] show ?thesis by (simp add: float_bounds)
qed

lemma volts:
  assumes flow: "inside 0 (3 / 2) flow" and u: "inside (- (1 / 4)) (1 / 2) u"
  shows "inside 13 15 (py_add (py_sub (lit (141/10)) (py_mul flow (lit (3/10)))) u)"
proof -
  have "inside (1 / 4) (1 / 2) (lit (3/10))" by (rule inside_rnd) (simp_all add: float_bounds)
  from inside_mul [OF flow this, of 0 "3 / 4"] have drop: "inside 0 (3 / 4) (py_mul flow (lit (3/10)))"
    by (simp add: float_bounds)
  have "inside 14 (29 / 2) (lit (141/10))" by (rule inside_rnd) (simp_all add: float_bounds)
  from inside_sub [OF this drop, of "53 / 4" "29 / 2"]
  have "inside (53 / 4) (29 / 2) (py_sub (lit (141/10)) (py_mul flow (lit (3/10))))" by (simp add: float_bounds)
  from inside_add [OF this u, of 13 15] show ?thesis by (simp add: float_bounds)
qed

text \<open>The weights of the modes.\<close>

lemma weights_ok:
  "list_all (inside (1 / 16) 1) (if slow then [lit (2/10), lit (3/10), lit (4/10), lit (1/10)]
      else if fast then [lit (1/10), lit (2/10), lit (1/10), lit (6/10)]
      else [lit (3/10), lit (35/100), lit (2/10), lit (15/100)])"
proof -
  have w: "inside (1 / 16) 1 (lit (k / 10))" if "1 \<le> k" "k \<le> 10" for k
    using that by (intro inside_rnd) (simp_all add: float_bounds)
  have w2: "inside (1 / 16) 1 (lit (k / 100))" if "15 \<le> k" "k \<le> 100" for k
    using that by (intro inside_rnd) (simp_all add: float_bounds)
  show ?thesis
    using w [of 1] w [of 2] w [of 3] w [of 4] w [of 6] w2 [of 35] w2 [of 15] by simp
qed

lemma update_idle_safe:
  assumes s: "engine_ok s" and dt: "dt_ok dt" shows "safe (update_idle dt s) engine_ok"
  unfolding update_idle_def
proof (intro bind_uniform bind_uniform_half bind_lift safe_return)
  fix u1 u2 u3 u4 u5 and step :: int
  assume u1: "inside (- 20) 20 u1" and u2: "inside (- 2) 2 u2" and u3: "inside (- (1 / 2)) (3 / 4) u3"
    and u4: "inside (- 1) 1 u4" and step: "- 5 \<le> step \<and> step \<le> 5"
  have "inside 830 6500 (py_add (Fin 850) u1)" by (rule add_Fin [OF u1]) (simp_all add: float_bounds)
  moreover have "inside 0 95 (py_max (Fin 0) (py_sub (tps s) (py_mul dt (Fin 50))))"
    by (rule decay [OF dt, of 0 95]) (use s in \<open>simp_all add: engine_ok_def float_bounds\<close>)
  moreover have "inside 20 100 (py_add (Fin 30) u2)" by (rule add_Fin [OF u2]) (simp_all add: float_bounds)
  moreover have "inside 12 16 (py_add (lit (147/10)) u3)"
    by (rule add_lit [OF u3, of "29 / 2" _ 15]) (simp_all add: float_bounds)
  moreover have "inside 10 35 (py_add (Fin 18) u4)" by (rule add_Fin [OF u4]) (simp_all add: float_bounds)
  ultimately show "engine_ok (s\<lparr>target_rpm := py_add (Fin 850) u1,
       tps := py_max (Fin 0) (py_sub (tps s) (py_mul dt (Fin 50))), map_kpa := py_add (Fin 30) u2,
       afr := py_add (lit (147/10)) u3, advance := py_add (Fin 18) u4, iac_step := 30 + step\<rparr>)"
    using s step by (simp add: engine_ok_def)
next
  fix u5 assume "inside (- 5) 5 u5"
  then show "\<exists>k. py_int u5 = Inr k \<and> - 5 \<le> k \<and> k \<le> 5" using inside_py_int [of "- 5" 5 u5] by simp
qed (simp_all add: float_bounds)

lemma update_cruise_safe:
  assumes s: "engine_ok s" shows "safe (update_cruise dt s) engine_ok"
  unfolding update_cruise_def
proof (intro bind_uniform bind_uniform_quarter safe_return)
  fix u1 u2 u3 u4 u5
  assume u1: "inside (- 100) 100 u1" and u2: "inside (- 3) 3 u2" and u3: "inside (- 5) 5 u3"
    and u4: "inside (- (1 / 4)) (1 / 2) u4" and u5: "inside (- 2) 2 u5"
  have "inside 830 6500 (py_add (Fin 2800) u1)" by (rule add_Fin [OF u1]) (simp_all add: float_bounds)
  moreover have "inside 0 95 (py_add (Fin 25) u2)" by (rule add_Fin [OF u2]) (simp_all add: float_bounds)
  moreover have "inside 20 100 (py_add (Fin 55) u3)" by (rule add_Fin [OF u3]) (simp_all add: float_bounds)
  moreover have "inside 12 16 (py_add (lit (145/10)) u4)"
    by (rule add_lit [OF u4, of "29 / 2" _ "29 / 2"]) (simp_all add: float_bounds)
  moreover have "inside 10 35 (py_add (Fin 28) u5)" by (rule add_Fin [OF u5]) (simp_all add: float_bounds)
  ultimately show "engine_ok (s\<lparr>target_rpm := py_add (Fin 2800) u1, tps := py_add (Fin 25) u2,
       map_kpa := py_add (Fin 55) u3, afr := py_add (lit (145/10)) u4, advance := py_add (Fin 28) u5,
       iac_step := 0\<rparr>)"
    using s by (simp add: engine_ok_def)
qed (simp_all add: float_bounds)

lemma update_accel_safe:
  assumes s: "engine_ok s" and dt: "dt_ok dt" shows "safe (update_accel dt s) engine_ok"
  unfolding update_accel_def Let_def
proof (intro bind_uniform_half safe_return)
  let ?target = "py_min (Fin 6500) (py_add (target_rpm s) (py_mul dt (Fin 2000)))"
  let ?throttle = "py_min (Fin 95) (py_add (tps s) (py_mul dt (Fin 100)))"
  let ?pressure = "py_min (Fin 100) (py_add (Fin 40) (py_mul ?throttle (lit (6/10))))"
  let ?drop = "py_mul ?pressure (lit (2/10))"
  fix u assume u: "inside (- (1 / 2)) (3 / 4) u"
  have "inside 830 6500 ?target"
    by (rule growth [OF dt, of 830 6500]) (use s in \<open>simp_all add: engine_ok_def float_bounds\<close>)
  moreover have throttle: "inside 0 95 ?throttle"
    by (rule growth [OF dt, of 0 95]) (use s in \<open>simp_all add: engine_ok_def float_bounds\<close>)
  note full_load [OF throttle]
  moreover from this(1) have "inside 20 100 ?pressure" by (rule inside_mono) simp_all
  moreover have "inside 12 16 (py_add (lit (125/10)) u)"
    by (rule add_lit [OF u, of "25 / 2" _ "25 / 2"]) (simp_all add: float_bounds)
  ultimately show "engine_ok (s\<lparr>target_rpm := ?target, tps := ?throttle, map_kpa := ?pressure,
      afr := py_add (lit (125/10)) u, advance := py_max (Fin 10) (py_sub (Fin 35) ?drop), iac_step := 0,
      accel_enrich := py_mul (tps_dot s) (lit (1/10))\<rparr>)"
    using s throttle by (simp add: engine_ok_def)
qed (simp_all add: float_bounds)

lemma update_decel_safe:
  assumes s: "engine_ok s" and dt: "dt_ok dt" shows "safe (update_decel dt s) engine_ok"
  unfolding update_decel_def
proof (intro bind_uniform bind_uniform_quarter safe_return)
  fix u1 u2 assume u1: "inside (- (1 / 4)) (1 / 2) u1" and u2: "inside (- 2) 2 u2"
  have "inside 1200 6500 (py_max (Fin 1200) (py_sub (target_rpm s) (py_mul dt (Fin 1500))))"
    by (rule decay [OF dt, of 830 6500]) (use s in \<open>simp_all add: engine_ok_def float_bounds\<close>)
  then have "inside 830 6500 (py_max (Fin 1200) (py_sub (target_rpm s) (py_mul dt (Fin 1500))))"
    by (rule inside_mono) simp_all
  moreover have "inside 0 95 (py_max (Fin 0) (py_sub (tps s) (py_mul dt (Fin 80))))"
    by (rule decay [OF dt, of 0 95]) (use s in \<open>simp_all add: engine_ok_def float_bounds\<close>)
  moreover have "inside 20 100 (py_max (Fin 20) (py_sub (map_kpa s) (py_mul dt (Fin 30))))"
    by (rule decay [OF dt, of 20 100]) (use s in \<open>simp_all add: engine_ok_def float_bounds\<close>)
  moreover have "inside 12 16 (py_add (lit (155/10)) u1)"
    by (rule add_lit [OF u1, of "31 / 2" _ "31 / 2"]) (simp_all add: float_bounds)
  moreover have "inside 10 35 (py_add (Fin 25) u2)" by (rule add_Fin [OF u2]) (simp_all add: float_bounds)
  ultimately show "engine_ok (s\<lparr>target_rpm := py_max (Fin 1200) (py_sub (target_rpm s) (py_mul dt (Fin 1500))),
       tps := py_max (Fin 0) (py_sub (tps s) (py_mul dt (Fin 80))),
       map_kpa := py_max (Fin 20) (py_sub (map_kpa s) (py_mul dt (Fin 30))),
       afr := py_add (lit (155/10)) u1, advance := py_add (Fin 25) u2, iac_step := 0, accel_enrich := Fin 0\<rparr>)"
    using s by (simp add: engine_ok_def)
qed (simp_all add: float_bounds)

lemma update_mode_safe: "engine_ok s \<Longrightarrow> dt_ok dt \<Longrightarrow> safe (update_mode dt s) engine_ok"
  by (simp add: update_mode_def update_idle_safe update_cruise_safe update_accel_safe update_decel_safe safe_return)

text \<open>
  The smoothing of the engine speed: towards the target, never past it by more than the
  rounding.
\<close>

lemma smoothed:
  assumes "inside 0 6501 x" and "inside 830 6500 y" and dt: "dt_ok dt"
  shows "inside 0 6501 (py_max (Fin 0) (py_add x (py_mul (py_sub y x) (py_min (Fin 1) (py_mul dt (Fin 5))))))"
proof -
  from assms(1,2) obtain r t where x: "x = Fin r" "y = Fin t" and r: "0 \<le> r" "r \<le> 6501" and t: "830 \<le> t" "t \<le> 6500"
    by (auto simp: inside_def)
  have "inside 0 100 (py_mul dt (Fin 5))" using dt_times [OF dt, of 5] by (simp add: float_bounds)
  from inside_min [of 1 1 "Fin 1", OF _ this] have "inside 0 1 (py_min (Fin 1) (py_mul dt (Fin 5)))" by simp
  then obtain f where f: "py_min (Fin 1) (py_mul dt (Fin 5)) = Fin f" "0 \<le> f" "f \<le> 1" by (auto simp: inside_def)
  let ?new = "py_add (Fin r) (py_mul (py_sub (Fin t) (Fin r)) (Fin f))"
  have "inside (- 6501) 6501 ?new"
  proof (cases "t \<le> r")
    case True
    have d: "inside (- 6501) 0 (py_sub (Fin t) (Fin r))"
      using True r t by (auto simp: py_sub_def intro!: inside_rnd simp: representable_simps)
    then obtain d where d: "py_sub (Fin t) (Fin r) = Fin d" "- 6501 \<le> d" "d \<le> 0" by (auto simp: inside_def)
    have "- 6501 \<le> d * f" "d * f \<le> 0"
      using d f mult_left_mono_neg [of f 1 d] by (auto simp: mult_nonpos_nonneg)
    then have "inside (- 6501) 0 (py_mul (py_sub (Fin t) (Fin r)) (Fin f))"
      by (auto simp: d intro!: inside_rnd simp: representable_simps)
    from inside_add [of r r "Fin r", OF _ this, of "- 6501" 6501] r show ?thesis by (simp add: representable_simps)
  next
    case False
    have "\<bar>t - r\<bar> < 2 ^ 52" using False r t by simp
    from rnd_error [OF this] obtain d where d: "py_sub (Fin t) (Fin r) = Fin d" "d \<le> t - r + 1 / 2" "t - r - 1 / 2 \<le> d"
      by (auto simp: py_sub_def)
    have d0: "0 \<le> d"
      using False inside_rnd [of 0 6501 "t - r"] d(1) r t by (auto simp: py_sub_def representable_simps)
    have df: "0 \<le> d * f" "d * f \<le> d" using d0 f mult_left_mono [of f 1 d] by auto
    then have "\<bar>d * f\<bar> < 2 ^ 52" using d(2) r t by simp
    from rnd_error [OF this] obtain e where e: "py_mul (Fin d) (Fin f) = Fin e" "e \<le> d * f + 1 / 2"
      by auto
    have "0 \<le> e" using inside_rnd [of 0 6502 "d * f"] df d(2) r t e(1) by (auto simp: representable_simps)
    with e(2) df(2) d(2) r t show ?thesis
      unfolding d(1) e(1) by (auto intro!: inside_rnd simp: representable_simps)
  qed
  from inside_max [of 0 0 "Fin 0", OF _ this] show ?thesis by (simp add: x f(1))
qed

lemma smooth_rpm_ok: "engine_ok s \<Longrightarrow> dt_ok dt \<Longrightarrow> engine_ok (smooth_rpm dt s)"
  using smoothed [of "rpm s" "target_rpm s" dt] by (simp add: smooth_rpm_def Let_def engine_ok_def)

lemma update_derivatives_safe: "engine_ok s \<Longrightarrow> safe (update_derivatives dt s) engine_ok"
proof (cases "py_lt (Fin 0) dt")
  case True
  assume s: "engine_ok s"
  have div: "\<exists>z. py_div a dt = Inr z \<and> True" for a
    using True by (cases dt; cases a) auto
  show ?thesis
    unfolding update_derivatives_def if_P [OF True]
    by (rule bind_lift [OF div], rule bind_lift [OF div], rule bind_lift [OF div], rule safe_return)
      (use s in \<open>simp add: engine_ok_def\<close>)
next
  case False
  assume "engine_ok s"
  then show ?thesis by (simp only: update_derivatives_def if_not_P [OF False] safe_return)
qed

lemma update_fuel_params_safe:
  assumes s: "engine_ok s" shows "safe (update_fuel_params s) engine_ok"
  unfolding update_fuel_params_def Let_def
proof (intro bind_lift bind_uniform bind_uniform_quarter safe_return)
  show "\<exists>x. py_div (map_kpa s) (Fin 100) = Inr x \<and> inside 0 1 x"
    by (rule inside_div [of 20 100 _ 100 100 100]) (use s in \<open>simp_all add: engine_ok_def float_bounds\<close>)
next
  fix load u1 u2 u3 u4 u5 u6 u7
  assume load: "inside 0 1 load" and u1: "inside (- (1 / 4)) (1 / 2) u1" and u2: "inside (- (1 / 4)) (1 / 2) u2"
    and u3: "inside (- (1 / 4)) (1 / 2) u3" and u4: "inside (- 2) 2 u4" and u5: "inside (- 1) 1 u5"
    and u6: "inside (- 3) 3 u6" and u7: "inside (- 3) 3 u7"
  let ?pw = "py_add (py_add (lit (15/10)) (py_mul load (Fin 8))) u1"
  let ?ve = "py_add (py_add (Fin 75) (py_mul load (Fin 50))) u4"
  have pw: "inside (5 / 4) 10 ?pw" by (rule pulse [OF load u1])
  from inside_add [OF pw u2, of 1 11] have pw2: "inside 1 11 (py_add ?pw u2)" by (simp add: float_bounds)
  have "inside 0 50 (py_mul load (Fin 50))"
    by (rule inside_mul [OF load, of 50 50]) (simp_all add: float_bounds)
  then have "inside 75 125 (py_add (Fin 75) (py_mul load (Fin 50)))"
    by (rule add_Fin) (simp_all add: float_bounds)
  from inside_add [OF this u4, of 73 127] have ve: "inside 73 127 ?ve" by (simp add: float_bounds)
  from inside_add [OF this u5, of 72 128] have ve2: "inside 72 128 (py_add ?ve u5)" by (simp add: float_bounds)
  have dw: "inside 2 3 (py_add (lit (25/10)) u3)"
    by (rule add_lit [OF u3, of "5 / 2" _ "5 / 2"]) (simp_all add: float_bounds)
  have ego: "inside 97 103 (py_add (Fin 100) u6)" "inside 97 103 (py_add (Fin 100) u7)"
    by (rule add_Fin [OF u6] add_Fin [OF u7]; simp add: float_bounds)+
  show "engine_ok (s\<lparr>pulse_width := ?pw, pulse_width2 := py_add ?pw u2, dwell := py_add (lit (25/10)) u3,
      ve_curr1 := ?ve, ve_curr2 := py_add ?ve u5, ego_correction1 := py_add (Fin 100) u6,
      ego_correction2 := py_add (Fin 100) u7\<rparr>)"
    using s inside_mono [OF pw, of 1 11] pw2 ve ve2 dw ego by (simp add: engine_ok_def)
qed (simp_all add: float_bounds)

lemma update_temperatures_safe: "engine_ok s \<Longrightarrow> safe (update_temperatures dt s) engine_ok"
  unfolding update_temperatures_def Let_def
proof (intro bind_lift bind_uniform_lit safe_return)
  assume "engine_ok s"
  then show "\<exists>x. py_div (rpm s) (Fin 6500) = Inr x \<and> True" by (auto simp: engine_ok_def inside_def)
qed (simp_all add: engine_ok_def)

lemma update_battery_safe:
  assumes s: "engine_ok s" shows "safe (update_battery s) engine_ok"
  unfolding update_battery_def
proof (intro bind_lift bind_uniform_quarter safe_return)
  show "\<exists>x. py_div (rpm s) (Fin 6500) = Inr x \<and> inside 0 (3 / 2) x"
    by (rule inside_div [of 0 6501 _ 6500 6500 6500]) (use s in \<open>simp_all add: engine_ok_def float_bounds\<close>)
next
  fix flow u assume "inside 0 (3 / 2) flow" and "inside (- (1 / 4)) (1 / 2) u"
  from volts [OF this]
  s show "engine_ok (s\<lparr>battery := py_add (py_sub (lit (141/10)) (py_mul flow (lit (3/10)))) u\<rparr>)"
    by (simp add: engine_ok_def)
qed (simp_all add: float_bounds)

lemma update_enrichments_safe:
  assumes s: "engine_ok s" shows "safe (update_enrichments s) engine_ok"
  unfolding update_enrichments_def
proof (intro bind_uniform safe_return)
  fix u assume u: "inside (- 1) 1 u"
  have "inside 99 101 (py_add (Fin 100) u)" by (rule add_Fin [OF u]) (simp_all add: float_bounds)
  with s show "engine_ok (s\<lparr>warmup_enrich := Fin (100 + (if warmup s then 20 else 0)),
      gamma_enrich := Fin (100 + (if warmup s then 10 else 0)), air_correction := py_add (Fin 100) u,
      baro_correction := Fin 100\<rparr>)"
    by (simp add: engine_ok_def)
qed (simp_all add: float_bounds)

text \<open>The envelope without its bound on the mode timer, which a step breaks and repairs.\<close>

definition envelope :: "engine_state \<Rightarrow> bool" where
  "envelope s \<longleftrightarrow> engine_ok (s\<lparr>mode_timer := Fin 0\<rparr>)"

lemma engine_ok_envelope: "engine_ok s \<longleftrightarrow> envelope s \<and> inside 0 999 (mode_timer s)"
  by (auto simp: engine_ok_def envelope_def)

lemma envelope_update [simp]:
  "envelope (s\<lparr>mode_timer := t\<rparr>) = envelope s"
  "m \<in> set modes \<Longrightarrow> envelope s \<Longrightarrow> envelope (s\<lparr>mode := m\<rparr>)"
  by (simp_all add: envelope_def engine_ok_def)

lemma change_mode_safe:
  assumes s: "envelope s" shows "safe (change_mode s) engine_ok"
  unfolding change_mode_def Let_def
proof (rule safe_bind [OF safe_choice [where P = "\<lambda>m. m \<in> set modes"]])
  show "list_all (inside (1 / 16) 1)
     (if py_lt (rpm s) (Fin 1000) then [lit (2/10), lit (3/10), lit (4/10), lit (1/10)]
      else if py_lt (Fin 5000) (rpm s) then [lit (1/10), lit (2/10), lit (1/10), lit (6/10)]
      else [lit (3/10), lit (35/100), lit (2/10), lit (15/100)])" by (rule weights_ok)
next
  fix m assume m: "m \<in> set modes"
  show "safe (bindG (uniform (Fin 2) (Fin 8)) (\<lambda>t. returnG (s\<lparr>mode := m, mode_timer := t\<rparr>))) engine_ok"
  proof (intro bind_uniform safe_return)
    fix t assume "inside 2 8 t"
    then have "inside 0 999 t" by (rule inside_mono) simp_all
    with m s show "engine_ok (s\<lparr>mode := m, mode_timer := t\<rparr>)" by (simp add: engine_ok_envelope)
  qed (simp_all add: float_bounds)
qed (auto simp: modes_def)

lemma update_engine_safe:
  assumes s: "engine_ok s" and dt: "dt_ok dt" shows "safe (update_engine dt s) engine_ok"
proof -
  let ?s1 = "s\<lparr>mode_timer := py_sub (mode_timer s) dt\<rparr>"
  have env: "envelope ?s1" using s by (simp add: engine_ok_envelope)
  have "inside (- 20) 999 (py_sub (mode_timer s) dt)"
    by (rule inside_sub [of 0 999 _ 0 20]) (use s dt in \<open>simp_all add: engine_ok_def float_bounds\<close>)
  then have ok1: "engine_ok ?s1" if "\<not> py_le (mode_timer ?s1) (Fin 0)"
    using that env by (auto simp: engine_ok_envelope inside_def py_le_def)
  have "safe (if py_le (mode_timer ?s1) (Fin 0) then change_mode ?s1 else returnG ?s1) engine_ok"
    using change_mode_safe [OF env] ok1 by (simp add: safe_return)
  then show ?thesis
    unfolding update_engine_def Let_def
  proof (rule safe_bind)
    fix s2 assume s2: "engine_ok s2"
    then have s3: "engine_ok (s2\<lparr>prev_tps := tps s2, prev_map := map_kpa s2, prev_rpm := rpm s2\<rparr>)"
      by (simp add: engine_ok_def)
    have final: "engine_ok (s9\<lparr>warmup := w, cranking := c\<rparr>)" if "engine_ok s9" for s9 w c
      using that by (simp add: engine_ok_def)
    show "safe (bindG (update_mode dt (s2\<lparr>prev_tps := tps s2, prev_map := map_kpa s2, prev_rpm := rpm s2\<rparr>)) (\<lambda>s4.
     bindG (update_derivatives dt (smooth_rpm dt s4)) (\<lambda>s5. bindG (update_fuel_params s5) (\<lambda>s6.
     bindG (update_temperatures dt s6) (\<lambda>s7. bindG (update_battery s7) (\<lambda>s8. bindG (update_enrichments s8) (\<lambda>s9.
     returnG (s9\<lparr>warmup := py_lt (coolant s9) (Fin 160), cranking := False\<rparr>)))))))) engine_ok"
      by (rule safe_bind [OF update_mode_safe [OF s3 dt]], rule safe_bind [OF update_derivatives_safe [OF smooth_rpm_ok [OF _ dt]]],
          assumption, rule safe_bind [OF update_fuel_params_safe], assumption,
          rule safe_bind [OF update_temperatures_safe], assumption, rule safe_bind [OF update_battery_safe], assumption,
          rule safe_bind [OF update_enrichments_safe], assumption, rule safe_return, rule final)
  qed
qed

lemma EngineState_ok: "engine_ok (EngineState now)"
proof -
  have "inside 12 16 (lit (147/10))" "inside 1 11 (lit (25/10))" "inside 13 15 (lit (141/10))"
    by (rule inside_rnd; simp add: float_bounds)+
  then show ?thesis by (simp add: engine_ok_def EngineState_def modes_def)
qed

lemma run_scenarios_ok:
  "engine_ok (engine r) \<Longrightarrow> engine_ok (engine (run_cold_start r))"
  "engine_ok (engine r) \<Longrightarrow> engine_ok (engine (run_warmup r))"
  "engine_ok (engine r) \<Longrightarrow> engine_ok (engine (run_highway r))"
  "engine_ok (engine r) \<Longrightarrow> engine_ok (engine (run_track_day r))"
  by (simp_all add: engine_ok_def run_cold_start_def run_warmup_def run_highway_def run_track_day_def
      set_mode_def modes_def)

lemma set_mode_ok: "engine_ok s \<Longrightarrow> engine_ok (set_mode m s)"
  by (simp add: set_mode_def engine_ok_def)

lemma update_cold_start_ok: "engine_ok (engine r) \<Longrightarrow> engine_ok (engine (update_cold_start dt r))"
  by (simp add: update_cold_start_def Let_def engine_ok_def)

lemma update_track_safe: "engine_ok (engine r) \<Longrightarrow> safe (update_track dt r) (\<lambda>r'. engine_ok (engine r'))"
proof -
  assume ok: "engine_ok (engine r)"
  let ?r = "r\<lparr>scenario_timer := py_add (scenario_timer r) dt\<rparr>"
  have md: "\<exists>x. py_mod (scenario_timer ?r) (Fin 20) = Inr x \<and> True"
    by (cases "scenario_timer ?r") (simp_all add: Let_def)
  have accel: "safe (bindG (uniform (Fin (- 200)) (Fin 200)) (\<lambda>u.
      returnG (?r\<lparr>engine := (set_mode ''accel'' (engine ?r))\<lparr>target_rpm := py_add (Fin 6000) u\<rparr>\<rparr>)))
      (\<lambda>r'. engine_ok (engine r'))"
  proof (intro bind_uniform safe_return)
    fix u assume u: "inside (- 200) 200 u"
    have "inside 830 6500 (py_add (Fin 6000) u)" by (rule add_Fin [OF u]) (simp_all add: float_bounds)
    with set_mode_ok [OF ok, of "''accel''"]
    show "engine_ok (engine (?r\<lparr>engine := (set_mode ''accel'' (engine ?r))\<lparr>target_rpm := py_add (Fin 6000) u\<rparr>\<rparr>))"
      by (simp add: engine_ok_def)
  qed (simp_all add: float_bounds)
  have corner: "engine_ok ((engine r)\<lparr>target_rpm := Fin 4000, tps := Fin 40, map_kpa := Fin 60\<rparr>)"
    using ok by (simp add: engine_ok_def)
  show ?thesis
    unfolding update_track_def Let_def
    by (rule bind_lift [OF md])
      (use accel corner set_mode_ok [OF ok] in \<open>simp add: safe_return\<close>)
qed

lemma update_scenario_safe:
  "engine_ok (engine r) \<Longrightarrow> safe (update_scenario dt r) (\<lambda>r'. engine_ok (engine r'))"
  by (simp add: update_scenario_def safe_return update_cold_start_ok update_track_safe)

section \<open>The simulation loop\<close>

text \<open>\<open>self.state.update(dt); self.scenario.update(dt)\<close> of \<open>ECUSimulator._run_loop\<close>.\<close>

definition tick :: "pyfloat \<Rightarrow> scenario_runner \<Rightarrow> scenario_runner gen" where
  "tick dt r = bindG (update_engine dt (engine r)) (\<lambda>s. update_scenario dt (r\<lparr>engine := s\<rparr>))"

text \<open>What can happen to the engine between its creation and the end of a session.\<close>

datatype engine_event = Tick pyfloat | ColdStart | Warmup | Highway | TrackDay | SetMode string

fun engine_step :: "engine_event \<Rightarrow> scenario_runner \<Rightarrow> scenario_runner gen" where
  "engine_step (Tick dt) r = tick dt r"
| "engine_step ColdStart r = returnG (run_cold_start r)"
| "engine_step Warmup r = returnG (run_warmup r)"
| "engine_step Highway r = returnG (run_highway r)"
| "engine_step TrackDay r = returnG (run_track_day r)"
| "engine_step (SetMode m) r = returnG (r\<lparr>engine := set_mode m (engine r)\<rparr>)"

fun engine_run :: "engine_event list \<Rightarrow> scenario_runner \<Rightarrow> scenario_runner gen" where
  "engine_run [] r = returnG r"
| "engine_run (e # es) r = bindG (engine_step e r) (engine_run es)"

fun event_ok :: "engine_event \<Rightarrow> bool" where
  "event_ok (Tick dt) = dt_ok dt"
| "event_ok _ = True"

lemma tick_safe: "engine_ok (engine r) \<Longrightarrow> dt_ok dt \<Longrightarrow> safe (tick dt r) (\<lambda>r'. engine_ok (engine r'))"
  unfolding tick_def by (rule safe_bind [OF update_engine_safe]) (auto intro: update_scenario_safe)

lemma engine_step_safe:
  "engine_ok (engine r) \<Longrightarrow> event_ok e \<Longrightarrow> safe (engine_step e r) (\<lambda>r'. engine_ok (engine r'))"
  by (cases e) (simp_all add: tick_safe run_scenarios_ok set_mode_ok safe_return)

lemma engine_run_safe:
  "engine_ok (engine r) \<Longrightarrow> list_all event_ok es \<Longrightarrow> safe (engine_run es r) (\<lambda>r'. engine_ok (engine r'))"
proof (induction es arbitrary: r)
  case (Cons e es)
  from Cons.prems have "event_ok e" "list_all event_ok es" by simp_all
  then show ?case
    using safe_bind [OF engine_step_safe [OF Cons.prems(1)], of e "engine_run es"] Cons.IH by simp
qed (simp add: safe_return)

section \<open>Properties of the engine\<close>

text \<open>
  C10: the simulated engine never leaves its envelope. From a fresh engine, through any sequence
  of time steps of at most 20 seconds, scenario starts and mode changes, with any random draws
  from \<open>[0, 1)\<close>, no operation raises, and afterwards every bounded quantity is a finite float
  within its bounds: engine speed in [0, 6501], manifold pressure in [20, 100], throttle in
  [0, 95], mixture in [12, 16], and the others as \<open>engine_ok\<close> says, with binary64 rounding of
  every operation.
\<close>

theorem engine_stays_in_envelope:
  assumes "list_all event_ok es" and "draws_ok g"
  shows "\<exists>r g'. engine_run es (ScenarioRunner (EngineState now)) g = (Inr r, g') \<and> engine_ok (engine r)"
proof -
  have "engine_ok (engine (ScenarioRunner (EngineState now)))"
    by (simp add: ScenarioRunner_def EngineState_ok)
  from safe_run [OF engine_run_safe [OF this assms(1)] assms(2)] show ?thesis by blast
qed

theorem engine_stays_in_envelope_witness:
  "\<exists>r g'. engine_run [ColdStart, Tick (Fin (1 / 16)), TrackDay, Tick (Fin 5)]
      (ScenarioRunner (EngineState (Fin 0))) (sconst (1 / 2)) = (Inr r, g') \<and> engine_ok (engine r)"
  by (rule engine_stays_in_envelope) (simp_all add: dt_ok_def draws_ok_def sset_sconst)

lemma change_mode_post: "post (change_mode s) (\<lambda>s'. accel_enrich s' = accel_enrich s)"
  unfolding change_mode_def Let_def by (intro post_any post_return) simp

lemma update_mode_post:
  "post (update_mode dt s) (\<lambda>s'. mode s' = mode s \<and> (mode s \<in> {''idle'', ''cruise''} \<longrightarrow> accel_enrich s' = accel_enrich s))"
  unfolding update_mode_def update_idle_def update_cruise_def update_accel_def update_decel_def Let_def
  by (simp add: post_any post_return)

lemma after_mode_post:
  "post (bindG (update_derivatives dt (smooth_rpm dt s4)) (\<lambda>s5.
     bindG (update_fuel_params s5) (\<lambda>s6. bindG (update_temperatures dt s6) (\<lambda>s7.
     bindG (update_battery s7) (\<lambda>s8. bindG (update_enrichments s8) (\<lambda>s9.
     returnG (s9\<lparr>warmup := py_lt (coolant s9) (Fin 160), cranking := False\<rparr>)))))))
      (\<lambda>s'. mode s' = mode s4 \<and> accel_enrich s' = accel_enrich s4)"
proof -
    let ?K = "\<lambda>s'. mode s' = mode s4 \<and> accel_enrich s' = accel_enrich s4"
    have d: "post (update_derivatives dt (smooth_rpm dt s4)) ?K"
      by (simp add: update_derivatives_def smooth_rpm_def Let_def post_any post_return)
    have f: "?K x \<Longrightarrow> post (update_fuel_params x) ?K" for x
      unfolding update_fuel_params_def Let_def by (intro post_any post_return) simp
    have t: "?K x \<Longrightarrow> post (update_temperatures dt x) ?K" for x
      unfolding update_temperatures_def Let_def by (intro post_any post_return) simp
    have b: "?K x \<Longrightarrow> post (update_battery x) ?K" for x
      unfolding update_battery_def by (intro post_any post_return) simp
    have e: "?K x \<Longrightarrow> post (update_enrichments x) ?K" for x
      unfolding update_enrichments_def by (intro post_any post_return) simp
    show ?thesis
      by (rule post_bind [OF d], rule post_bind [OF f], assumption, rule post_bind [OF t], assumption,
          rule post_bind [OF b], assumption, rule post_bind [OF e], assumption, rule post_return, simp)
qed

lemma update_engine_post:
  "post (update_engine dt s) (\<lambda>s'. mode s' \<in> {''idle'', ''cruise''} \<longrightarrow> accel_enrich s' = accel_enrich s)"
proof -
  let ?s1 = "s\<lparr>mode_timer := py_sub (mode_timer s) dt\<rparr>"
  have first: "post (if py_le (mode_timer ?s1) (Fin 0) then change_mode ?s1 else returnG ?s1)
      (\<lambda>s'. accel_enrich s' = accel_enrich s)"
    using change_mode_post [of ?s1] by (simp add: post_return)
  show ?thesis
    unfolding update_engine_def Let_def
    by (rule post_bind [OF first], rule post_bind [OF update_mode_post])
      (fastforce intro: post_def [THEN iffD2] dest: post_run [OF after_mode_post])
qed

lemma update_engine_mode:
  assumes "\<not> py_le (py_sub (mode_timer s) dt) (Fin 0)"
  shows "post (update_engine dt s) (\<lambda>s'. mode s' = mode s)"
proof -
  let ?s1 = "s\<lparr>mode_timer := py_sub (mode_timer s) dt\<rparr>"
  have first: "post (if py_le (mode_timer ?s1) (Fin 0) then change_mode ?s1 else returnG ?s1) (\<lambda>s'. mode s' = mode s)"
    using assms by (simp add: post_return)
  show ?thesis
    unfolding update_engine_def Let_def
    by (rule post_bind [OF first], rule post_bind [OF update_mode_post])
      (fastforce intro: post_def [THEN iffD2] dest: post_run [OF after_mode_post])
qed

text \<open>
  The acceleration enrichment goes stale. A step that ends in idle or cruise mode leaves
  \<open>accel_enrich\<close> as it was: what the last step of an acceleration set stays until the next
  acceleration or deceleration.
\<close>

lemma accel_enrich_stale:
  assumes "update_engine dt s g = (Inr s', g')" and "mode s' \<in> {''idle'', ''cruise''}"
  shows "accel_enrich s' = accel_enrich s"
  using post_run [OF update_engine_post assms(1)] assms(2) by blast

definition idle_state :: engine_state where
  "idle_state = (EngineState (Fin 0))\<lparr>mode_timer := Fin 999, accel_enrich := Fin 7\<rparr>"

end
