(* ===== verification/Channels.thy ===== *)
theory Channels
  imports PyStruct
begin

text \<open>
  Filling a block of channels: what every builder of OUTPC blocks does, whatever its fields and
  values are. A writer packs a channel's value at its offset or leaves the block as it is; a channel
  that no other written channel overlaps then reads back as its value.
\<close>

section \<open>The interface\<close>

text \<open>
  The type and the offset of a channel, the integer a value becomes, whether a channel is \<open>filled\<close>
  in a block of \<open>n\<close> bytes, and the writer.
\<close>

locale channel_writer =
  fixes channel_fmt :: "'f \<Rightarrow> fmt"
    and channel_off :: "'f \<Rightarrow> int"
    and channel_raw :: "'f \<Rightarrow> 'v \<Rightarrow> int result"
    and filled :: "nat \<Rightarrow> 'f \<Rightarrow> bool"
    and put_channel :: "'f \<Rightarrow> 'v \<Rightarrow> bytes \<Rightarrow> bytes result"
  assumes write_packs: "put_channel f v buf = Inr buf' \<Longrightarrow>
      buf' = buf \<or> (\<exists>k. channel_raw f v = Inr k \<and> pack_into (channel_fmt f) buf (channel_off f) k = Inr buf')"
    and write_fills: "put_channel f v buf = Inr buf' \<Longrightarrow> filled (length buf) f \<Longrightarrow>
      \<exists>k. channel_raw f v = Inr k \<and> pack_into (channel_fmt f) buf (channel_off f) k = Inr buf'"
    and filled_off: "filled n f \<Longrightarrow> 0 \<le> channel_off f"
begin

text \<open>The loop over the values.\<close>

definition write_all :: "(string \<Rightarrow> 'f option) \<Rightarrow> (string \<times> 'v) list \<Rightarrow> bytes \<Rightarrow> bytes result" where
  "write_all fs vals buf =
     foldE (\<lambda>(n, v) buf. case fs n of Some f \<Rightarrow> put_channel f v buf | None \<Rightarrow> Inr buf) vals buf"

text \<open>Two channels that share no byte.\<close>

definition disjoint :: "'f \<Rightarrow> 'f \<Rightarrow> bool" where
  "disjoint f g \<longleftrightarrow> 0 \<le> channel_off g \<and>
     (channel_off f + int (calcsize (snd (channel_fmt f))) \<le> channel_off g \<or>
      channel_off g + int (calcsize (snd (channel_fmt g))) \<le> channel_off f)"

lemma write_length: "put_channel f v buf = Inr buf' \<Longrightarrow> length buf' = length buf"
  using write_packs pack_into_length by blast

lemma write_all_length: "write_all fs vals buf = Inr buf' \<Longrightarrow> length buf' = length buf"
  unfolding write_all_def
  by (erule foldE_invariant [where P = "\<lambda>b. length b = length buf"])
    (auto simp: write_length split: option.splits)

lemma write_disjoint:
  assumes "put_channel g v buf = Inr buf'" and "disjoint f g" and "0 \<le> channel_off f"
  shows "unpack_from (channel_fmt f) buf' (channel_off f) = unpack_from (channel_fmt f) buf (channel_off f)"
  using write_packs [OF assms(1)]
proof (elim disjE exE conjE)
  fix k assume p: "pack_into (channel_fmt g) buf (channel_off g) k = Inr buf'"
  show ?thesis
    by (rule unpack_from_pack_into_other [OF p]) (use assms(2,3) in \<open>auto simp: disjoint_def\<close>)
qed simp

lemma write_all_value:
  assumes "write_all fs vals buf = Inr buf'" and "map_of (rev vals) n = Some v"
    and "fs n = Some f" and "filled (length buf) f"
    and "\<And>m g. m \<noteq> n \<Longrightarrow> m \<in> fst ` set vals \<Longrightarrow> fs m = Some g \<Longrightarrow> disjoint f g"
  shows "\<exists>k. channel_raw f v = Inr k \<and> unpack_from (channel_fmt f) buf' (channel_off f) = Inr k"
  using assms
proof (induction vals arbitrary: buf' rule: rev_induct)
  case (snoc x vals)
  obtain m u where x: "x = (m, u)" by (cases x)
  from snoc.prems(1) obtain b where b: "write_all fs vals buf = Inr b"
    and last: "(case fs m of Some g \<Rightarrow> put_channel g u b | None \<Rightarrow> Inr b) = Inr buf'"
    by (auto simp: write_all_def foldE_append bindE_eq_Inr x)
  have len: "length b = length buf" by (rule write_all_length [OF b])
  show ?case
  proof (cases "m = n")
    case True
    with x snoc.prems(2,3) last have "put_channel f v b = Inr buf'" by simp
    from write_fills [OF this] snoc.prems(4) len obtain k where
      "channel_raw f v = Inr k" "pack_into (channel_fmt f) b (channel_off f) k = Inr buf'" by auto
    then show ?thesis by (auto simp: unpack_from_pack_into)
  next
    case False
    with x snoc.prems(2) have "map_of (rev vals) n = Some v" by simp
    from snoc.IH [OF b this snoc.prems(3,4)] snoc.prems(5) obtain k where
      k: "channel_raw f v = Inr k" "unpack_from (channel_fmt f) b (channel_off f) = Inr k" by auto
    have "unpack_from (channel_fmt f) buf' (channel_off f) = unpack_from (channel_fmt f) b (channel_off f)"
    proof (cases "fs m")
      case (Some g)
      have "disjoint f g" by (rule snoc.prems(5) [OF False _ Some]) (simp add: x)
      with last Some snoc.prems(4) filled_off show ?thesis by (auto intro: write_disjoint)
    qed (use last in simp)
    with k show ?thesis by simp
  qed
qed simp

end

end
