(* ===== verification/OutpcBuilder.thy ===== *)
theory OutpcBuilder
  imports IniParser EngineState Channels
begin

text \<open>
  \<open>ecuSim/src/outpc_builder.py\<close>: the block of realtime data. The builder refers to the engine;
  both, with the values \<open>time.time()\<close> will return, are the world the protocol's callable acts on.
\<close>

section \<open>State\<close>

record outpc_state =
  builder_config :: ini_config
  debug_values :: bool
  debug_counter :: int
  last_debug_print :: pyfloat

record ecu_world =
  builder :: outpc_state
  scenario :: scenario_runner
  clock :: "pyfloat stream"

definition OUTPCBuilder :: "ini_config \<Rightarrow> bool \<Rightarrow> outpc_state" where
  "OUTPCBuilder cfg dbg = \<lparr>builder_config = cfg, debug_values = dbg, debug_counter = 0, last_debug_print = Fin 0\<rparr>"

section \<open>Values\<close>

text \<open>The dictionary of \<open>_get_field_values\<close>, in its order; \<open>now\<close> is what \<open>time.time()\<close> returns.\<close>

definition get_field_values :: "pyfloat \<Rightarrow> engine_state \<Rightarrow> (string \<times> pyfloat) list result" where
  "get_field_values now s =
     bindE (bindE (seconds now s) py_float) (\<lambda>secs.
     bindE (py_float (squirt_bits s)) (\<lambda>squirt.
     bindE (py_float (engine_bits s)) (\<lambda>eng.
     bindE (py_float (iac_step s)) (\<lambda>iac.
     bindE (py_div (Fin 60000000) (py_max (rpm s) (Fin 1))) (\<lambda>delta_t.
     Inr [
       (''seconds'', secs), (''rpm'', rpm s), (''advance'', advance s),
       (''pulseWidth1'', pulse_width s), (''pulseWidth2'', pulse_width2 s),
       (''pulseWidth3'', pulse_width s), (''pulseWidth4'', pulse_width2 s), (''squirt'', squirt),
       (''engine'', eng), (''afrtgt1'', afr_target s), (''afrtgt2'', afr_target s),
       (''barometer'', barometer s), (''map'', map_kpa s), (''mat'', mat_temp s),
       (''coolant'', coolant s), (''tps'', tps s), (''batteryVoltage'', battery s),
       (''afr1'', afr s), (''afr2'', py_add (afr s) (lit (1/10))), (''wbo2_en1'', Fin 1),
       (''wbo2_en2'', Fin 1), (''knock'', knock_voltage s), (''knockRetard'', knock_retard s),
       (''egoCorrection1'', ego_correction1 s), (''egoCorrection2'', ego_correction2 s),
       (''airCorrection'', air_correction s), (''warmupEnrich'', warmup_enrich s),
       (''accelEnrich'', accel_enrich s), (''tpsfuelcut'', Fin 100),
       (''baroCorrection'', baro_correction s), (''gammaEnrich'', gamma_enrich s),
       (''veCurr1'', ve_curr1 s), (''veCurr2'', ve_curr2 s), (''iacstep'', iac),
       (''idleDC'', py_mul iac (lit (392/1000))),
       (''coldAdvDeg'', if warmup s then Fin 2 else Fin 0), (''TPSdot'', tps_dot s),
       (''MAPdot'', map_dot s), (''RPMdot'', rpm_dot s), (''dwell'', dwell s),
       (''dwell_trl'', py_mul (dwell s) (lit (8/10))), (''fuelload'', map_kpa s),
       (''fuelload2'', map_kpa s), (''ignload'', map_kpa s), (''ignload2'', map_kpa s),
       (''mafload'', map_kpa s), (''fuelCorrection'', Fin 100), (''looptime'', Fin 15000),
       (''synccnt'', Fin 1), (''syncreason'', Fin 0), (''status1'', Fin 0), (''status2'', Fin 0),
       (''status3'', Fin 0), (''status4'', Fin 0), (''timing_err'', Fin 0), (''wallfuel1'', Fin 0),
       (''wallfuel2'', Fin 0), (''EAEFuelCorr1'', Fin 100), (''EAEFuelCorr2'', Fin 100),
       (''eaeload1'', map_kpa s), (''afrload1'', map_kpa s), (''boostduty'', Fin 0),
       (''boost_targ'', Fin 0), (''gpioadc0'', Fin 512), (''gpioadc1'', Fin 512),
       (''gpioadc2'', Fin 512), (''gpioadc3'', Fin 512), (''gpioadc4'', Fin 512),
       (''gpioadc5'', Fin 512), (''gpioadc6'', Fin 512), (''gpioadc7'', Fin 512),
       (''inj_adv1'', Fin 0), (''inj_adv2'', Fin 0), (''vetrim1curr'', Fin 100),
       (''vetrim2curr'', Fin 100), (''vetrim3curr'', Fin 100), (''vetrim4curr'', Fin 100),
       (''maf'', Fin 0), (''maf_volts'', Fin 0), (''airtemp'', mat_temp s), (''fuel_pct'', Fin 0),
       (''ext_advance'', Fin 0), (''base_advance'', advance s), (''idle_cor_advance'', Fin 0),
       (''mat_retard'', Fin 0), (''flex_advance'', Fin 0), (''adv1'', advance s), (''adv2'', Fin 0),
       (''adv3'', Fin 0), (''revlim_retard'', Fin 0), (''nitrous_retard'', Fin 0),
       (''deadtime1'', Fin 1), (''n2o_addfuel'', Fin 0), (''portStatus'', Fin 0),
       (''portbde'', Fin 0), (''portam'', Fin 0), (''portt'', Fin 0),
       (''tpsADC'', py_mul (tps s) (lit (1023/100))), (''deltaT'', delta_t),
       (''cl_idle_targ_rpm'', Fin 850), (''idleupcnt'', Fin 0), (''user0'', Fin 0),
       (''gpioport0'', Fin 0), (''gpioport1'', Fin 0), (''gpioport2'', Fin 0),
       (''gpiopwmin0'', Fin 0), (''gpiopwmin1'', Fin 0), (''gpiopwmin2'', Fin 0),
       (''gpiopwmin3'', Fin 0), (''adc6'', Fin 0), (''adc7'', Fin 0)])))))"

text \<open>\<open>sorted(channels.items(), key=lambda x: x[1].offset)\<close>, and the value of each channel.\<close>

definition sorted_channels :: "ini_config \<Rightarrow> (string \<times> field_def) list" where
  "sorted_channels cfg = sort_key (\<lambda>x. foffset (snd x)) (output_channels cfg)"

definition debug_field_values :: "outpc_state \<Rightarrow> (string \<times> pyfloat) list" where
  "debug_field_values b =
     List.map (\<lambda>(i, n, f). (n, Fin (of_int ((debug_counter b + int i) mod 256))))
       (List.enumerate 0 (sorted_channels (builder_config b)))"

text \<open>\<open>(value - translate) / scale\<close>, or the value itself for a scale of zero.\<close>

definition raw_value :: "field_def \<Rightarrow> pyfloat \<Rightarrow> pyfloat result" where
  "raw_value f v =
     (if py_eq (fscale f) (Fin 0) then Inr v else py_div (py_sub v (ftranslate f)) (fscale f))"

text \<open>What the debug print computes for the first 20 channels; it may raise.\<close>

definition print_debug_values :: "(string \<times> field_def) list \<Rightarrow> (string \<times> pyfloat) list \<Rightarrow> unit result" where
  "print_debug_values channels vals =
     foldE (\<lambda>(c, v) u. bindE (raw_value (snd c) (snd v)) (\<lambda>r. bindE (py_int r) (\<lambda>i. Inr ())))
       (take 20 (zip channels vals)) ()"

definition get_debug_values :: "pyfloat \<Rightarrow> outpc_state \<Rightarrow> (string \<times> pyfloat) list result \<times> outpc_state" where
  "get_debug_values now b =
     (let vals = debug_field_values b;
          next = b\<lparr>debug_counter := (debug_counter b + 1) mod 256\<rparr>
      in if py_le (Fin 2) (py_sub now (last_debug_print b)) then
           (case print_debug_values (sorted_channels (builder_config b)) vals of
              Inl e \<Rightarrow> (Inl e, b)
            | Inr u \<Rightarrow> (Inr vals, next\<lparr>last_debug_print := now\<rparr>))
         else (Inr vals, next))"

section \<open>Encoding\<close>

definition type_range :: "string \<Rightarrow> int \<times> int" where
  "type_range dt =
     (if dt = ''U08'' then (0, 255) else if dt = ''S08'' then (- 128, 127)
      else if dt = ''U16'' then (0, 65535) else if dt = ''S16'' then (- 32768, 32767)
      else if dt = ''U32'' then (0, 4294967295) else if dt = ''S32'' then (- 2147483648, 2147483647)
      else (0, 65535))"

definition clamp :: "string \<Rightarrow> int \<Rightarrow> int" where
  "clamp dt v = max (fst (type_range dt)) (min (snd (type_range dt)) v)"

definition encode_field :: "field_def \<Rightarrow> pyfloat \<Rightarrow> bytes \<Rightarrow> bytes result" where
  "encode_field f v buf =
     (if foffset f + fsize f > int (length buf) then Inr buf
      else if ftype f = ''bits'' \<and> bit_range f = None then Inr buf
      else bindE (raw_value f v) (\<lambda>r.
           bindE (py_int r) (\<lambda>k.
           catchE (pack_into (struct_format f) buf (foffset f) (clamp (dtype f) k))
             (\<lambda>e. e = StructError) (Inr buf))))"

text \<open>The loop of \<open>build\<close> over the values.\<close>

definition encode_all :: "ini_config \<Rightarrow> (string \<times> pyfloat) list \<Rightarrow> bytes \<Rightarrow> bytes result" where
  "encode_all cfg vals buf =
     foldE (\<lambda>(n, v) buf.
       case dict_get (output_channels cfg) n of Some f \<Rightarrow> encode_field f v buf | None \<Rightarrow> Inr buf) vals buf"

definition build :: "ecu_world \<Rightarrow> bytes result \<times> ecu_world" where
  "build w =
     (let b = builder w; cfg = builder_config b; now = shd (clock w); w1 = w\<lparr>clock := stl (clock w)\<rparr> in
      if ini_block_size cfg < 0 then (Inl ValueError, w)
      else let buf = zeros (nat (ini_block_size cfg)) in
        if debug_values b then
          (let (vals, b') = get_debug_values now b
           in (bindE vals (\<lambda>vs. encode_all cfg vs buf), w1\<lparr>builder := b'\<rparr>))
        else (bindE (get_field_values now (engine (scenario w))) (\<lambda>vs. encode_all cfg vs buf), w1))"

section \<open>The range of a type is the range of its format\<close>

lemma type_range_fmt: "type_range dt = (fmt_lo (fmt_of dt), fmt_hi (fmt_of dt))"
  by (simp add: type_range_def fmt_of_def fmt_lo_def fmt_hi_def)

lemma clamp_in_fmt: "in_fmt (fmt_of dt) (clamp dt v)"
proof -
  have "fmt_lo c \<le> fmt_hi c" for c by (cases c) (simp_all add: fmt_lo_def fmt_hi_def)
  then show ?thesis by (auto simp: clamp_def type_range_fmt in_fmt_def)
qed

lemma clamp_id: "in_fmt (fmt_of dt) v \<Longrightarrow> clamp dt v = v"
  by (simp add: clamp_def type_range_fmt in_fmt_def)

text \<open>What encoding a field does to the buffer.\<close>

lemma encode_field_Inr:
  assumes "encode_field f v buf = Inr buf'"
  shows "buf' = buf \<or> (\<exists>r k. raw_value f v = Inr r \<and> py_int r = Inr k \<and>
    pack_into (struct_format f) buf (foffset f) (clamp (dtype f) k) = Inr buf')"
proof -
  have "(case p of Inr b \<Rightarrow> b | Inl e \<Rightarrow> buf) = buf' \<Longrightarrow> buf' = buf \<or> p = Inr buf'" for p :: "bytes result"
    by (cases p) simp_all
  with assms show ?thesis
    by (auto simp: encode_field_def bindE_eq_Inr pack_into_caught split: if_splits)
qed

text \<open>The integer a value becomes.\<close>

definition raw_int :: "field_def \<Rightarrow> pyfloat \<Rightarrow> int result" where
  "raw_int f v = bindE (raw_value f v) (\<lambda>r. bindE (py_int r) (\<lambda>k. Inr (clamp (dtype f) k)))"

text \<open>A channel with a place of its own in a block of \<open>n\<close> bytes that the builder fills.\<close>

definition placed :: "nat \<Rightarrow> field_def \<Rightarrow> bool" where
  "placed n f \<longleftrightarrow> 0 \<le> foffset f \<and> foffset f + fsize f \<le> int n \<and> int (base_size (dtype f)) \<le> fsize f \<and>
     \<not> (ftype f = ''bits'' \<and> bit_range f = None)"

definition apart :: "field_def \<Rightarrow> field_def \<Rightarrow> bool" where
  "apart f g \<longleftrightarrow> 0 \<le> foffset g \<and>
     (foffset f + int (base_size (dtype f)) \<le> foffset g \<or> foffset g + int (base_size (dtype g)) \<le> foffset f)"

interpretation builder_channels: channel_writer struct_format foffset raw_int placed encode_field
proof
  fix f v buf buf'
  assume "encode_field f v buf = Inr buf'"
  from encode_field_Inr [OF this] show "buf' = buf \<or>
      (\<exists>k. raw_int f v = Inr k \<and> pack_into (struct_format f) buf (foffset f) k = Inr buf')"
    by (auto simp: raw_int_def)
next
  fix f v buf buf'
  assume e: "encode_field f v buf = Inr buf'" and pl: "placed (length buf) f"
  then obtain r k where rk: "raw_value f v = Inr r" "py_int r = Inr k"
    by (auto simp: encode_field_def placed_def bindE_eq_Inr)
  have "\<exists>b. pack_into (struct_format f) buf (foffset f) (clamp (dtype f) k) = Inr b"
    using pl by (intro pack_into_nonneg) (simp_all add: placed_def struct_format_def calcsize_fmt_of clamp_in_fmt)
  then obtain b where b: "pack_into (struct_format f) buf (foffset f) (clamp (dtype f) k) = Inr b" ..
  with e pl rk have "buf' = b" by (auto simp: encode_field_def placed_def pack_into_caught)
  with b rk show "\<exists>k. raw_int f v = Inr k \<and> pack_into (struct_format f) buf (foffset f) k = Inr buf'"
    by (simp add: raw_int_def)
qed (simp add: placed_def)

lemma encode_all_writes: "encode_all cfg vals buf = builder_channels.write_all (dict_get (output_channels cfg)) vals buf"
  by (simp add: encode_all_def builder_channels.write_all_def)

lemma encode_all_length: "encode_all cfg vals buf = Inr buf' \<Longrightarrow> length buf' = length buf"
  unfolding encode_all_writes by (rule builder_channels.write_all_length)

lemma encode_all_value:
  assumes "encode_all cfg vals buf = Inr buf'" and "map_of (rev vals) n = Some v"
    and "dict_get (output_channels cfg) n = Some f" and "placed (length buf) f"
    and "\<And>m g. m \<noteq> n \<Longrightarrow> m \<in> fst ` set vals \<Longrightarrow> dict_get (output_channels cfg) m = Some g \<Longrightarrow> apart f g"
  shows "\<exists>r k. raw_value f v = Inr r \<and> py_int r = Inr k \<and>
    unpack_from (struct_format f) buf' (foffset f) = Inr (clamp (dtype f) k)"
proof -
  have "\<exists>k. raw_int f v = Inr k \<and> unpack_from (struct_format f) buf' (foffset f) = Inr k"
    by (rule builder_channels.write_all_value [OF assms(1) [unfolded encode_all_writes] assms(2-4)])
      (use assms(5) in \<open>simp add: builder_channels.disjoint_def apart_def struct_format_def calcsize_fmt_of\<close>)
  then show ?thesis by (auto simp: raw_int_def bindE_eq_Inr)
qed

lemma build_length_aux:
  "build w = (Inr b, w') \<Longrightarrow> length b = nat (ini_block_size (builder_config (builder w)))"
  by (auto simp: build_def Let_def bindE_eq_Inr encode_all_length split: if_splits prod.splits)

abbreviation channel_value :: "field_def \<Rightarrow> bytes \<Rightarrow> int result" where
  "channel_value f buf \<equiv> unpack_from (struct_format f) buf (foffset f)"

section \<open>When the builder does not raise\<close>

definition moderate :: "pyfloat \<Rightarrow> bool" where
  "moderate v \<longleftrightarrow> inside (- (2 ^ 60)) (2 ^ 60) v"

text \<open>A channel whose translate is moderate and whose scale is zero or not tiny.\<close>

definition scale_ok :: "field_def \<Rightarrow> bool" where
  "scale_ok f \<longleftrightarrow> moderate (ftranslate f) \<and> (\<exists>s. fscale f = Fin s \<and> (s = 0 \<or> 1 \<le> \<bar>s\<bar> * 2 ^ 60))"

lemma representable_power: "k \<le> 900 \<Longrightarrow> representable (2 ^ k) \<and> representable (- (2 ^ k))"
  using representable_dyadic [of 1 "int k"] representable_dyadic [of "- 1" "int k"] by simp

lemma raw_value_finite:
  assumes "moderate v" and "scale_ok f"
  shows "\<exists>x. raw_value f v = Inr (Fin x)"
proof -
  obtain s where s: "fscale f = Fin s" "s = 0 \<or> 1 \<le> \<bar>s\<bar> * 2 ^ 60" using assms(2) by (auto simp: scale_ok_def)
  show ?thesis
  proof (cases "s = 0")
    case True
    with s assms(1) show ?thesis by (auto simp: raw_value_def moderate_def inside_def)
  next
    case False
    have rep: "representable (2 ^ 61)" "representable (- (2 ^ 61))" "representable (2 ^ 121)" "representable (- (2 ^ 121))"
      using representable_power [of 61] representable_power [of 121] by simp_all
    have "inside (- (2 ^ 61)) (2 ^ 61) (py_sub v (ftranslate f))"
      by (rule inside_sub [of "- (2 ^ 60)" "2 ^ 60" _ "- (2 ^ 60)" "2 ^ 60", OF _ _ rep(2,1)])
        (use assms in \<open>simp_all add: moderate_def scale_ok_def\<close>)
    then obtain u where u: "py_sub v (ftranslate f) = Fin u" "\<bar>u\<bar> \<le> 2 ^ 61" by (auto simp: inside_def abs_le_iff)
    have "\<bar>u / s\<bar> = \<bar>u\<bar> / \<bar>s\<bar>" by simp
    also have "\<dots> \<le> 2 ^ 61 * 2 ^ 60"
    proof -
      have "\<bar>u\<bar> \<le> 2 ^ 61 * (\<bar>s\<bar> * 2 ^ 60)"
        using u(2) s(2) False mult_left_mono [of 1 "\<bar>s\<bar> * 2 ^ 60" "2 ^ 61 :: rat"] by simp
      then show ?thesis using False by (simp add: divide_le_eq mult.assoc)
    qed
    finally have "\<bar>u / s\<bar> \<le> 2 ^ 121" by simp
    then have "- (2 ^ 121) \<le> u / s" "u / s \<le> 2 ^ 121" unfolding abs_le_iff by linarith+
    from rnd_between [OF rep(4,3) this] False s(1) u(1) show ?thesis by (auto simp: raw_value_def)
  qed
qed

lemma encode_field_total: "moderate v \<Longrightarrow> scale_ok f \<Longrightarrow> \<exists>buf'. encode_field f v buf = Inr buf'"
  using raw_value_finite [of v f] by (auto simp: encode_field_def pack_into_caught)

lemma encode_all_total:
  assumes "list_all (\<lambda>(n, v). moderate v) vals" and "list_all (\<lambda>(n, f). scale_ok f) (output_channels cfg)"
  shows "\<exists>buf'. encode_all cfg vals buf = Inr buf'"
proof -
  have "\<exists>b'. (case x of (n, v) \<Rightarrow> case dict_get (output_channels cfg) n of Some f \<Rightarrow> encode_field f v b | None \<Rightarrow> Inr b) = Inr b' \<and> True"
    if "x \<in> set vals" for x b
    using that assms encode_field_total
    by (fastforce simp: list_all_iff split: option.splits dest: map_of_SomeD)
  from foldE_total [of "\<lambda>_. True" buf vals, OF _ this] show ?thesis
    unfolding encode_all_def by (auto simp: case_prod_beta')
qed

definition engine_moderate :: "engine_state \<Rightarrow> bool" where
  "engine_moderate s \<longleftrightarrow> engine_ok s \<and>
     list_all moderate [coolant s, mat_temp s, barometer s, knock_voltage s, knock_retard s, accel_enrich s,
       baro_correction s, tps_dot s, map_dot s, rpm_dot s]"

lemma moderate_inside: "inside a b v \<Longrightarrow> - (2 ^ 60) \<le> a \<Longrightarrow> b \<le> 2 ^ 60 \<Longrightarrow> moderate v"
  unfolding moderate_def by (rule inside_mono)

lemma moderate_Fin: "- (2 ^ 60) \<le> x \<Longrightarrow> x \<le> 2 ^ 60 \<Longrightarrow> moderate (Fin x)"
  by (simp add: moderate_def)

lemma bits_bounds: "squirt_bits s \<in> {0, 0x28}" "engine_bits s \<in> {0, 1, 2, 3, 0xC, 0xD, 0xE, 0xF}"
  by (auto simp: squirt_bits_def engine_bits_def Let_def)

lemma py_float_bits:
  "py_float (squirt_bits s) = Inr (Fin (of_int (squirt_bits s)))"
  "py_float (engine_bits s) = Inr (Fin (of_int (engine_bits s)))"
  using bits_bounds [of s] by (auto intro!: py_float_small)

lemma moderate_bits: "moderate (Fin (of_int (squirt_bits s)))" "moderate (Fin (of_int (engine_bits s)))"
  using bits_bounds [of s] by (auto simp: moderate_def)

lemma moderate_numeral [simp]:
  "moderate (Fin 0)" "moderate (Fin 1)" "(numeral k :: rat) \<le> 2 ^ 60 \<Longrightarrow> moderate (Fin (numeral k))"
  by (simp_all add: moderate_def order_trans [of "- (2 ^ 60)" 0])

lemma seconds_moderate:
  assumes "inside 0 (2 ^ 40) now" and "inside 0 (2 ^ 40) (start_time s)"
  shows "\<exists>secs. bindE (seconds now s) py_float = Inr secs \<and> moderate secs"
proof -
  have rep: "representable (2 ^ 40)" "representable (- (2 ^ 40))" using representable_power [of 40] by simp_all
  have "inside (- (2 ^ 40)) (2 ^ 40) (py_sub now (start_time s))"
    by (rule inside_sub [OF assms rep(2,1)]) simp_all
  then obtain k where k: "seconds now s = Inr k" "- (2 ^ 40) \<le> k" "k \<le> 2 ^ 40"
    using inside_py_int [of "- (2 ^ 40)" "2 ^ 40" "py_sub now (start_time s)"] by (auto simp: seconds_def)
  then have "py_float k = Inr (Fin (of_int k))" by (intro py_float_small) simp
  moreover have "(of_int (- (2 ^ 40)) :: rat) \<le> of_int k" "(of_int k :: rat) \<le> of_int (2 ^ 40)"
    using k(2,3) by (simp_all only: of_int_le_iff)
  then have "moderate (Fin (of_int k))" by (simp add: moderate_def)
  ultimately show ?thesis using k(1) by simp
qed

lemma derived_moderate:
  assumes "engine_ok s"
  shows "moderate (py_mul (Fin (of_int (iac_step s))) (lit (392/1000)))" "moderate (py_add (afr s) (lit (1/10)))"
    "moderate (py_mul (dwell s) (lit (8/10)))" "moderate (py_mul (tps s) (lit (1023/100)))"
    "moderate (afr_target s)"
proof -
  have "(of_int 0 :: rat) \<le> of_int (iac_step s)" "(of_int (iac_step s) :: rat) \<le> of_int 35"
    using assms unfolding of_int_le_iff by (simp_all add: engine_ok_def)
  then have iac: "inside 0 35 (Fin (of_int (iac_step s)))" by simp
  have lits: "inside (1 / 4) 1 (lit (392/1000))" "inside 0 (1 / 4) (lit (1/10))" "inside (1 / 2) 1 (lit (8/10))"
    "inside 10 11 (lit (1023/100))" "inside 12 13 (lit (125/10))" "inside 14 15 (lit (147/10))"
    by (rule inside_rnd; simp add: float_bounds)+
  have e: "inside 12 16 (afr s)" "inside 2 3 (dwell s)" "inside 0 95 (tps s)" using assms by (simp_all add: engine_ok_def)
  from inside_mul [OF iac lits(1), of 0 35] show "moderate (py_mul (Fin (of_int (iac_step s))) (lit (392/1000)))"
    by (auto simp: float_bounds intro: moderate_inside)
  from inside_add [OF e(1) lits(2), of 12 17] show "moderate (py_add (afr s) (lit (1/10)))"
    by (auto simp: float_bounds intro: moderate_inside)
  from inside_mul [OF e(2) lits(3), of 1 3] show "moderate (py_mul (dwell s) (lit (8/10)))"
    by (auto simp: float_bounds intro: moderate_inside)
  from inside_mul [OF e(3) lits(4), of 0 1045] show "moderate (py_mul (tps s) (lit (1023/100)))"
    by (auto simp: float_bounds intro: moderate_inside)
  show "moderate (afr_target s)"
    using lits(5,6) by (auto simp: afr_target_def intro: moderate_inside)
qed

lemma get_field_values_moderate:
  assumes s: "engine_moderate s" and "inside 0 (2 ^ 40) now" and "inside 0 (2 ^ 40) (start_time s)"
  shows "\<exists>vals. get_field_values now s = Inr vals \<and> list_all (\<lambda>(n, v). moderate v) vals"
proof -
  have ok: "engine_ok s" using s by (simp add: engine_moderate_def)
  obtain secs where secs: "bindE (seconds now s) py_float = Inr secs" "moderate secs"
    using seconds_moderate [OF assms(2,3)] by blast
  have iac: "py_float (iac_step s) = Inr (Fin (of_int (iac_step s)))"
    using ok by (intro py_float_small) (simp add: engine_ok_def)
  have iacm: "moderate (Fin (of_int (iac_step s)))"
  proof -
    have "(of_int 0 :: rat) \<le> of_int (iac_step s)" "(of_int (iac_step s) :: rat) \<le> of_int 35"
      using ok unfolding of_int_le_iff by (simp_all add: engine_ok_def)
    then show ?thesis by (simp add: moderate_def)
  qed
  have "inside 1 6501 (py_max (rpm s) (Fin 1))"
    using inside_max [of 0 6501 "rpm s" 1 1 "Fin 1"] ok by (simp add: engine_ok_def)
  then obtain r where r: "py_max (rpm s) (Fin 1) = Fin r" "1 \<le> r" "r \<le> 6501" by (auto simp: inside_def)
  have "\<exists>z. py_div (Fin 60000000) (Fin r) = Inr z \<and> inside 0 60000000 z"
    by (rule inside_div [of 60000000 60000000 _ 1 _ 6501]) (use r in \<open>simp_all add: float_bounds\<close>)
  then obtain d where dz: "py_div (Fin 60000000) (Fin r) = Inr d" and di: "inside 0 60000000 d" by (elim exE conjE)
  from moderate_inside [OF di] have "moderate d" by simp
  with dz have d: "py_div (Fin 60000000) (py_max (rpm s) (Fin 1)) = Inr d" "moderate d" by (simp_all only: r(1))
  have eng: "moderate (rpm s)" "moderate (advance s)" "moderate (pulse_width s)" "moderate (pulse_width2 s)"
    "moderate (map_kpa s)" "moderate (tps s)" "moderate (battery s)" "moderate (afr s)"
    "moderate (ego_correction1 s)" "moderate (ego_correction2 s)" "moderate (air_correction s)"
    "moderate (warmup_enrich s)" "moderate (gamma_enrich s)" "moderate (ve_curr1 s)" "moderate (ve_curr2 s)"
    "moderate (dwell s)"
    using ok by (auto simp: engine_ok_def intro: moderate_inside)
  have warm: "moderate (if warmup s then Fin 2 else Fin 0)" by simp
  show ?thesis
    unfolding get_field_values_def secs(1) py_float_bits iac d(1) bindE_Inr
    using s secs(2) d(2) eng warm iacm moderate_bits [of s] derived_moderate [OF ok]
    by (simp add: engine_moderate_def)
qed

section \<open>Properties of the block\<close>

definition sample_config :: ini_config where
  "sample_config = INIConfig\<lparr>output_channels := [(''rpm'', FieldDef ''rpm'' ''scalar'' ''U16'' 6)]\<rparr>"

definition sample_world :: ecu_world where
  "sample_world = \<lparr>builder = OUTPCBuilder sample_config False,
     scenario = ScenarioRunner (EngineState (Fin 0)), clock = sconst (Fin 1)\<rparr>"

lemma sample_engine_moderate: "engine_moderate (EngineState (Fin 0))"
proof -
  have "inside 101 102 (lit (1013/10))" by (rule inside_rnd) (simp_all add: float_bounds)
  then have "moderate (lit (1013/10))" by (rule moderate_inside) simp_all
  then show ?thesis using EngineState_ok [of "Fin 0"] by (simp add: engine_moderate_def EngineState_def)
qed

lemma build_total_aux:
  assumes "\<not> debug_values (builder w)" and "0 \<le> ini_block_size (builder_config (builder w))"
    and "list_all (\<lambda>(n, f). scale_ok f) (output_channels (builder_config (builder w)))"
    and "engine_moderate (engine (scenario w))"
    and "inside 0 (2 ^ 40) (shd (clock w))" and "inside 0 (2 ^ 40) (start_time (engine (scenario w)))"
  shows "\<exists>b. build w = (Inr b, w\<lparr>clock := stl (clock w)\<rparr>) \<and>
    length b = nat (ini_block_size (builder_config (builder w)))"
proof -
  let ?cfg = "builder_config (builder w)"
  obtain vals where v: "get_field_values (shd (clock w)) (engine (scenario w)) = Inr vals"
    "list_all (\<lambda>(n, v). moderate v) vals"
    using get_field_values_moderate [OF assms(4-6)] by blast
  obtain b where b: "encode_all ?cfg vals (zeros (nat (ini_block_size ?cfg))) = Inr b"
    using encode_all_total [OF v(2) assms(3)] by blast
  with encode_all_length [OF b] v(1) assms(1,2) show ?thesis by (simp add: build_def Let_def)
qed

text \<open>
  C19: the builder never raises while the engine's quantities are moderate: for an engine in its
  envelope with the other quantities within \<open>2 ^ 60\<close>, a clock within \<open>2 ^ 40\<close> seconds, and
  channels whose scale is zero or at least \<open>2 ^ -60\<close>, the block is built, in exactly the size the
  INI file gives.
\<close>

theorem build_total:
  assumes "\<not> debug_values (builder w)" and "0 \<le> ini_block_size (builder_config (builder w))"
    and "list_all (\<lambda>(n, f). scale_ok f) (output_channels (builder_config (builder w)))"
    and "engine_moderate (engine (scenario w))"
    and "inside 0 (2 ^ 40) (shd (clock w))" and "inside 0 (2 ^ 40) (start_time (engine (scenario w)))"
  shows "\<exists>b. build w = (Inr b, w\<lparr>clock := stl (clock w)\<rparr>) \<and>
    length b = nat (ini_block_size (builder_config (builder w)))"
  using assms by (rule build_total_aux)

lemma sample_world_ok:
  "\<not> debug_values (builder sample_world)" "0 \<le> ini_block_size (builder_config (builder sample_world))"
  "list_all (\<lambda>(n, f). scale_ok f) (output_channels (builder_config (builder sample_world)))"
  "engine_moderate (engine (scenario sample_world))"
  "inside 0 (2 ^ 40) (shd (clock sample_world))" "inside 0 (2 ^ 40) (start_time (engine (scenario sample_world)))"
  using sample_engine_moderate
  by (simp_all add: sample_world_def OUTPCBuilder_def sample_config_def INIConfig_def scale_ok_def FieldDef_def
      moderate_def ScenarioRunner_def EngineState_def)

theorem build_total_witness:
  "\<exists>b. build sample_world = (Inr b, sample_world\<lparr>clock := stl (clock sample_world)\<rparr>) \<and> length b = 209"
  using build_total [OF sample_world_ok]
  by (simp add: sample_world_def OUTPCBuilder_def sample_config_def INIConfig_def)

text \<open>
  C20: each channel of a block reports its quantity. Read back at its offset in its big-endian
  format, a channel that no other valued channel overlaps gives the quantity's raw value,
  truncated to an integer and clamped to the channel's type.
\<close>

theorem build_reports_channel:
  assumes "\<not> debug_values (builder w)" and "build w = (Inr b, w')"
    and "get_field_values (shd (clock w)) (engine (scenario w)) = Inr vals" and "map_of (rev vals) n = Some v"
    and "dict_get (output_channels (builder_config (builder w))) n = Some f"
    and "placed (nat (ini_block_size (builder_config (builder w)))) f"
    and "\<And>m g. m \<noteq> n \<Longrightarrow> m \<in> fst ` set vals \<Longrightarrow>
      dict_get (output_channels (builder_config (builder w))) m = Some g \<Longrightarrow> apart f g"
  shows "\<exists>r k. raw_value f v = Inr r \<and> py_int r = Inr k \<and>
    unpack_from (struct_format f) b (foffset f) = Inr (clamp (dtype f) k)"
proof (rule encode_all_value)
  show "encode_all (builder_config (builder w)) vals (zeros (nat (ini_block_size (builder_config (builder w))))) = Inr b"
    using assms(1-3) by (auto simp: build_def Let_def split: if_splits)
qed (use assms in auto)

lemma sample_rpm: "get_field_values (Fin 1) (EngineState (Fin 0)) = Inr vals \<Longrightarrow> map_of (rev vals) ''rpm'' = Some (Fin 850)"
  by (auto simp: get_field_values_def bindE_eq_Inr EngineState_def)

theorem build_reports_channel_witness:
  "\<exists>b w'. build sample_world = (Inr b, w') \<and> unpack_from (BigEndian, FmtH) b 6 = Inr 850"
proof -
  obtain b where b: "build sample_world = (Inr b, sample_world\<lparr>clock := stl (clock sample_world)\<rparr>)"
    using build_total_aux [OF sample_world_ok] by blast
  obtain vals where v: "get_field_values (Fin 1) (EngineState (Fin 0)) = Inr vals"
    using get_field_values_moderate [OF sample_engine_moderate, of "Fin 1"] by (auto simp: EngineState_def)
  let ?f = "FieldDef ''rpm'' ''scalar'' ''U16'' 6"
  have rep: "rnd 850 = Fin 850" using representable_int [of 850] by (simp add: representable_def)
  have cfg: "builder_config (builder sample_world) = sample_config"
    by (simp add: sample_world_def OUTPCBuilder_def)
  have raw: "raw_value ?f (Fin 850) = Inr (Fin 850)"
    by (simp add: raw_value_def FieldDef_def py_sub_def rep)
  have "\<exists>r k. raw_value ?f (Fin 850) = Inr r \<and> py_int r = Inr k \<and>
      unpack_from (struct_format ?f) b (foffset ?f) = Inr (clamp (dtype ?f) k)"
  proof (rule build_reports_channel [OF sample_world_ok(1) b _ sample_rpm [OF v]])
    show "get_field_values (shd (clock sample_world)) (engine (scenario sample_world)) = Inr vals"
      using v by (simp add: sample_world_def ScenarioRunner_def)
  qed (auto simp: cfg sample_config_def placed_def FieldDef_def fsize_def base_size_def INIConfig_def split: if_splits)
  then have "unpack_from (struct_format ?f) b (foffset ?f) = Inr (clamp (dtype ?f) 850)"
    by (simp add: raw PyFloat.truncate_def)
  with b show ?thesis by (auto simp: struct_format_def FieldDef_def fmt_of_def clamp_def type_range_def)
qed

end
