(* ===== verification/EngineRealtime.thy ===== *)
theory EngineRealtime
  imports OutpcBuilder
begin

text \<open>
  The engine over a session of the simulator's loop: with steps of at least 1/1024 and at most 20
  seconds, the quantities that have no bound of their own (temperatures, derivatives,
  acceleration enrichment) stay moderate too, so that every OUTPC block can be built.
\<close>

section \<open>Two facts about one computation\<close>

lemma safe_both: "safe m P \<Longrightarrow> safe m Q \<Longrightarrow> safe m (\<lambda>x. P x \<and> Q x)"
  unfolding safe_def by (metis sum.inject(2) prod.inject)

lemma safe_post: "safe m P \<Longrightarrow> post m Q \<Longrightarrow> safe m (\<lambda>x. P x \<and> Q x)"
  unfolding safe_def post_def by metis

lemma safe_imp: "safe m P \<Longrightarrow> (\<And>x. P x \<Longrightarrow> Q x) \<Longrightarrow> safe m Q"
  by (rule safe_mono)

section \<open>Temperatures approach a target\<close>

definition dt_real :: "pyfloat \<Rightarrow> bool" where
  "dt_real dt \<longleftrightarrow> inside (1 / 1024) 20 dt"

lemma dt_real_ok: "dt_real dt \<Longrightarrow> dt_ok dt"
  unfolding dt_real_def dt_ok_def by (erule inside_mono) simp_all

lemma scaled_error: "\<bar>a - b :: rat\<bar> \<le> c \<Longrightarrow> 0 \<le> m \<Longrightarrow> m \<le> n \<Longrightarrow> \<bar>a * m - b * m\<bar> \<le> c * n"
proof -
  assume a: "\<bar>a - b\<bar> \<le> c" and m: "0 \<le> m" "m \<le> n"
  have "a * m - b * m = (a - b) * m" by (simp add: left_diff_distrib)
  then have "\<bar>a * m - b * m\<bar> = \<bar>a - b\<bar> * m" using m by (simp only: abs_mult abs_of_nonneg)
  also have "\<dots> \<le> c * n" using a m by (intro mult_mono) auto
  finally show ?thesis .
qed

lemma rnd_near: "\<bar>x\<bar> < 2 ^ 52 \<Longrightarrow> \<exists>z. rnd x = Fin z \<and> \<bar>z - x\<bar> \<le> 1 / 2"
  using rnd_error [of x] unfolding abs_le_iff by force

lemma approach_exact:
  assumes "\<bar>x\<bar> \<le> (2097152 :: rat)" and "0 \<le> t" and "t \<le> 200" and "1 / 131072 \<le> f" and "f \<le> 5 / 4"
  shows "\<bar>x + (t - x) * f\<bar> \<le> 2097144"
proof -
  have e: "x + (t - x) * f = x * (1 - f) + t * f" by (simp add: algebra_simps)
  have tf: "0 \<le> t * f" "t * f \<le> 200 * f" using assms by (auto intro: mult_right_mono)
  have x: "- 2097152 \<le> x" "x \<le> 2097152" using assms(1) by (auto simp: abs_le_iff)
  show ?thesis
  proof (cases "f \<le> 1")
    case True
    have "x * (1 - f) \<le> 2097152 * (1 - f)" "- 2097152 * (1 - f) \<le> x * (1 - f)"
      using mult_right_mono [OF x(2), of "1 - f"] mult_right_mono [OF x(1), of "1 - f"] True by simp_all
    moreover have "X \<le> 2097152 * (1 - f) \<Longrightarrow> - 2097152 * (1 - f) \<le> X \<Longrightarrow> 0 \<le> T \<Longrightarrow> T \<le> 200 * f \<Longrightarrow>
        \<bar>X + T\<bar> \<le> 2097144" for X T
      using assms(4) unfolding abs_le_iff by (simp add: algebra_simps)
    ultimately show ?thesis using tf unfolding e by blast
  next
    case False
    have "x * (1 - f) \<le> 2097152 * (f - 1)" "- 2097152 * (f - 1) \<le> x * (1 - f)"
      using x False mult_right_mono [of "- x" 2097152 "f - 1"] mult_right_mono [of x 2097152 "f - 1"]
      by (auto simp: algebra_simps)
    moreover have "X \<le> 2097152 * (f - 1) \<Longrightarrow> - 2097152 * (f - 1) \<le> X \<Longrightarrow> 0 \<le> T \<Longrightarrow> T \<le> 200 * f \<Longrightarrow>
        \<bar>X + T\<bar> \<le> 2097144" for X T
      using assms(5) False unfolding abs_le_iff by (simp add: algebra_simps)
    ultimately show ?thesis using tf unfolding e by blast
  qed
qed

lemma approach_stays:
  assumes "inside (- 2097152) 2097152 x" and "inside 0 200 t" and "dt_real dt"
    and "inside (1 / 128) (1 / 16) k" and "inside (- (1 / 2)) 1 u"
  shows "inside (- 2097152) 2097152 (py_add (approach t dt k x) u)"
proof -
  obtain x' t' h k' u' where v: "x = Fin x'" "t = Fin t'" "dt = Fin h" "k = Fin k'" "u = Fin u'"
    and b: "\<bar>x'\<bar> \<le> 2097152" "0 \<le> t'" "t' \<le> 200" "1 / 1024 \<le> h" "h \<le> 20" "1 / 128 \<le> k'" "k' \<le> 1 / 16"
      "- (1 / 2) \<le> u'" "u' \<le> 1"
    using assms by (auto simp: inside_def dt_real_def abs_le_iff)
  have h0: "0 \<le> h" "0 \<le> k'" using b by simp_all
  have "1 / 1024 * (1 / 128) \<le> h * k'" "h * k' \<le> 20 * (1 / 16)"
    using b h0 by (intro mult_mono; simp)+
  then have f: "1 / 131072 \<le> h * k'" "h * k' \<le> 5 / 4" by simp_all
  have tx: "\<bar>t' - x'\<bar> \<le> 2097352" using b(1-3) unfolding abs_le_iff by linarith
  then have "\<bar>t' - x'\<bar> < 2 ^ 52" by (rule le_less_trans) simp
  from rnd_near [OF this] obtain d where d: "rnd (t' - x') = Fin d" "\<bar>d - (t' - x')\<bar> \<le> 1 / 2" by blast
  note dh = scaled_error [OF d(2) h0(1) b(5)]
  have txh: "\<bar>(t' - x') * h\<bar> \<le> 2097352 * 20" using scaled_error [of "t' - x'" 0 2097352 h 20] tx h0 b by simp
  have "\<bar>d * h\<bar> < 2 ^ 52" using dh txh unfolding abs_le_iff abs_less_iff by simp
  from rnd_near [OF this] obtain p where p: "rnd (d * h) = Fin p" "\<bar>p - d * h\<bar> \<le> 1 / 2" by blast
  have ph: "\<bar>p - (t' - x') * h\<bar> \<le> 21 / 2" using p(2) dh unfolding abs_le_iff by simp
  note pk = scaled_error [OF ph h0(2) b(7)]
  have txf: "\<bar>(t' - x') * h * k'\<bar> \<le> 2097352 * 20 * (1 / 16)"
    using scaled_error [of "(t' - x') * h" 0 "2097352 * 20" k' "1 / 16"] txh h0 b by simp
  have "\<bar>p * k'\<bar> < 2 ^ 52" using pk txf unfolding abs_le_iff abs_less_iff by simp
  from rnd_near [OF this] obtain q where q: "rnd (p * k') = Fin q" "\<bar>q - p * k'\<bar> \<le> 1 / 2" by blast
  have e: "\<bar>x' + (t' - x') * h * k'\<bar> \<le> 2097144"
    using approach_exact [OF b(1-3) f] by (simp add: mult.assoc)
  have xq: "\<bar>x' + q - (x' + (t' - x') * h * k')\<bar> \<le> 37 / 32" using q(2) pk unfolding abs_le_iff by simp
  have "\<bar>x' + q\<bar> < 2 ^ 52" using xq e unfolding abs_le_iff abs_less_iff by simp
  from rnd_near [OF this] obtain y where y: "rnd (x' + q) = Fin y" "\<bar>y - (x' + q)\<bar> \<le> 1 / 2" by blast
  have "\<bar>y + u'\<bar> \<le> 2097148" using y(2) xq e b(8,9) unfolding abs_le_iff by simp
  moreover from this have "\<bar>y + u'\<bar> < 2 ^ 52" by (rule le_less_trans) simp
  from rnd_near [OF this] obtain z where "rnd (y + u') = Fin z" "\<bar>z - (y + u')\<bar> \<le> 1 / 2" by blast
  ultimately show ?thesis
    using d(1) p(1) q(1) y(1) unfolding approach_def v abs_le_iff by (simp add: py_sub_def)
qed

section \<open>A step of the engine\<close>

text \<open>What \<open>engine_ok\<close> does not bound.\<close>

definition slow :: "engine_state \<Rightarrow> bool" where
  "slow s \<longleftrightarrow>
     list_all (inside (- 2097152) 2097152) [coolant s, mat_temp s] \<and>
     list_all (inside (- 8388608) 8388608) [tps_dot s, map_dot s, rpm_dot s, accel_enrich s] \<and>
     list_all moderate [barometer s, knock_voltage s, knock_retard s, baro_correction s] \<and>
     inside 0 95 (prev_tps s) \<and> inside 20 100 (prev_map s) \<and> inside 0 6501 (prev_rpm s) \<and>
     inside 0 (2 ^ 40) (start_time s)"

definition engine_rt :: "engine_state \<Rightarrow> bool" where
  "engine_rt s \<longleftrightarrow> engine_ok s \<and> slow s"

lemma engine_rt_moderate: "engine_rt s \<Longrightarrow> engine_moderate s"
  by (auto simp: engine_rt_def slow_def engine_moderate_def intro: moderate_inside)

lemma safe_rt: "safe m engine_ok \<Longrightarrow> post m slow \<Longrightarrow> safe m engine_rt"
  unfolding engine_rt_def by (rule safe_post)

lemma inside_shrink:
  assumes "inside (- c) c x" and "inside 0 1 k" and "representable c" and "representable (- c)"
  shows "inside (- c) c (py_mul x k)"
proof -
  obtain x' k' where v: "x = Fin x'" "k = Fin k'" "\<bar>x'\<bar> \<le> c" "0 \<le> k'" "k' \<le> 1"
    using assms(1,2) by (auto simp: inside_def abs_le_iff)
  have "\<bar>x' * k'\<bar> \<le> c" using scaled_error [of x' 0 c k' 1] v by simp
  then show ?thesis using assms(3,4) by (auto simp: v(1,2) abs_le_iff intro!: inside_rnd)
qed

lemma representable_dot: "representable 8388608" "representable (- 8388608)"
  using representable_int [of 8388608] representable_int [of "- 8388608"] by simp_all

lemma change_mode_slow: "slow s \<Longrightarrow> post (change_mode s) slow"
  unfolding change_mode_def Let_def by (intro post_any post_return) (simp add: slow_def)

lemma update_mode_slow: "slow s \<Longrightarrow> post (update_mode dt s) slow"
proof -
  assume s: "slow s"
  have "inside 0 1 (lit (1/10))" by (rule inside_rnd) (simp_all add: float_bounds)
  then have a: "inside (- 8388608) 8388608 (py_mul (tps_dot s) (lit (1/10)))"
    using s by (intro inside_shrink representable_dot) (simp_all add: slow_def)
  have parts: "post (update_idle dt s) slow" "post (update_cruise dt s) slow" "post (update_accel dt s) slow"
    "post (update_decel dt s) slow"
    unfolding update_idle_def update_cruise_def update_accel_def update_decel_def Let_def
    by (intro post_any post_return; use s a in \<open>simp add: slow_def\<close>)+
  show ?thesis unfolding update_mode_def using parts s by (simp add: post_return)
qed

lemma smooth_rpm_slow: "slow s \<Longrightarrow> slow (smooth_rpm dt s)"
  by (simp add: smooth_rpm_def Let_def slow_def)

lemma rate_bounded:
  assumes "inside a b x" and "inside a b y" and "dt_real dt" and "b - a \<le> 8192"
  shows "\<exists>z. py_div (py_sub x y) dt = Inr z \<and> inside (- 8388608) 8388608 z"
proof -
  obtain h where h: "dt = Fin h" "1 / 1024 \<le> h" using assms(3) by (auto simp: dt_real_def inside_def)
  have "inside (- 8192) 8192 (py_sub x y)"
    by (rule inside_sub [OF assms(1,2)]) (use assms(4) in \<open>simp_all add: representable_simps\<close>)
  then obtain d where d: "py_sub x y = Fin d" "\<bar>d\<bar> \<le> 8192" by (auto simp: inside_def abs_le_iff)
  have "\<bar>d\<bar> \<le> 8388608 * h" using d(2) h(2) by linarith
  then have "\<bar>d / h\<bar> \<le> 8388608" using h(2) by (simp add: divide_le_eq)
  then have "- 8388608 \<le> d / h" "d / h \<le> 8388608" by (simp_all only: abs_le_iff) linarith+
  then show ?thesis using h d(1) by (auto intro: inside_rnd [OF representable_dot(2,1)])
qed

lemma update_derivatives_rt: "engine_rt s \<Longrightarrow> dt_real dt \<Longrightarrow> safe (update_derivatives dt s) engine_rt"
proof -
  assume s: "engine_rt s" and dt: "dt_real dt"
  have pos: "py_lt (Fin 0) dt" using dt by (auto simp: dt_real_def inside_def)
  have a: "\<exists>z. py_div (py_sub (tps s) (prev_tps s)) dt = Inr z \<and> inside (- 8388608) 8388608 z"
    by (rule rate_bounded [OF _ _ dt, of 0 95]) (use s in \<open>simp_all add: engine_rt_def engine_ok_def slow_def\<close>)
  have b: "\<exists>z. py_div (py_sub (map_kpa s) (prev_map s)) dt = Inr z \<and> inside (- 8388608) 8388608 z"
    by (rule rate_bounded [OF _ _ dt, of 20 100]) (use s in \<open>simp_all add: engine_rt_def engine_ok_def slow_def\<close>)
  have c: "\<exists>z. py_div (py_sub (rpm s) (prev_rpm s)) dt = Inr z \<and> inside (- 8388608) 8388608 z"
    by (rule rate_bounded [OF _ _ dt, of 0 6501]) (use s in \<open>simp_all add: engine_rt_def engine_ok_def slow_def\<close>)
  show ?thesis
    unfolding update_derivatives_def if_P [OF pos]
    by (rule bind_lift [OF a], rule bind_lift [OF b], rule bind_lift [OF c], rule safe_return)
      (use s in \<open>simp add: engine_rt_def engine_ok_def slow_def\<close>)
qed

lemma update_temperatures_slow: "engine_rt s \<Longrightarrow> dt_real dt \<Longrightarrow> safe (update_temperatures dt s) slow"
  unfolding update_temperatures_def Let_def
proof (intro bind_lift bind_uniform_lit safe_return)
  assume s: "engine_rt s" and dt: "dt_real dt"
  then show "\<exists>x. py_div (rpm s) (Fin 6500) = Inr x \<and> inside 0 (3 / 2) x"
    by (intro inside_div [of 0 6501 _ 6500 6500 6500]) (simp_all add: engine_rt_def engine_ok_def float_bounds)
  fix u1 flow u2
  assume u: "inside (- (1 / 2)) 1 u1" "inside (- (1 / 2)) 1 u2" and flow: "inside 0 (3 / 2) flow"
  have k: "inside (1 / 128) (1 / 16) (lit (1/100))" "inside (1 / 128) (1 / 16) (lit (5/100))"
    using representable_frac [of 1 7] by (auto intro!: inside_rnd simp: float_bounds)
  have "inside 0 45 (py_mul flow (Fin 30))"
    by (rule inside_mul [OF flow, of 30 30]) (simp_all add: float_bounds)
  then have m: "inside 0 200 (py_add (Fin 90) (py_mul flow (Fin 30)))"
    by (rule add_Fin) (simp_all add: float_bounds)
  have c: "inside 0 200 (if py_lt (Fin 500) (rpm s) then Fin 190 else Fin 70)" by simp
  have "inside (- 2097152) 2097152 (coolant s)" "inside (- 2097152) 2097152 (mat_temp s)"
    using s by (simp_all add: engine_rt_def slow_def)
  from approach_stays [OF this(1) c dt k(1) u(1)] approach_stays [OF this(2) m dt k(2) u(2)] s
  show "slow (s\<lparr>coolant := py_add (approach (if py_lt (Fin 500) (rpm s) then Fin 190 else Fin 70) dt (lit (1/100)) (coolant s)) u1,
      mat_temp := py_add (approach (py_add (Fin 90) (py_mul flow (Fin 30))) dt (lit (5/100)) (mat_temp s)) u2\<rparr>)"
    by (simp add: engine_rt_def slow_def)
qed (simp_all add: float_bounds)

lemma later_stages_slow:
  "slow s \<Longrightarrow> post (update_fuel_params s) slow" "slow s \<Longrightarrow> post (update_battery s) slow"
  "slow s \<Longrightarrow> post (update_enrichments s) slow"
  unfolding update_fuel_params_def update_battery_def update_enrichments_def Let_def
  by (intro post_any post_return; simp add: slow_def)+

lemma update_engine_rt: "engine_rt s \<Longrightarrow> dt_real dt \<Longrightarrow> safe (update_engine dt s) engine_rt"
proof -
  assume s: "engine_rt s" and dt: "dt_real dt"
  let ?s1 = "s\<lparr>mode_timer := py_sub (mode_timer s) dt\<rparr>"
  have env: "envelope ?s1" and slow1: "slow ?s1" and timer: "inside 0 999 (mode_timer s)"
    using s by (simp_all add: engine_rt_def engine_ok_envelope slow_def)
  have "inside (- 20) 999 (py_sub (mode_timer s) dt)"
    by (rule inside_sub [OF timer, of 0 20]) (use dt_real_ok [OF dt] in \<open>simp_all add: float_bounds\<close>)
  then have ok1: "engine_ok ?s1" if "\<not> py_le (mode_timer ?s1) (Fin 0)"
    using that env by (auto simp: engine_ok_envelope inside_def py_le_def)
  have 1: "safe (if py_le (mode_timer ?s1) (Fin 0) then change_mode ?s1 else returnG ?s1) engine_rt"
    using safe_rt [OF change_mode_safe [OF env] change_mode_slow [OF slow1]] ok1 slow1
    by (simp add: safe_return engine_rt_def)
  have 2: "engine_rt (x\<lparr>prev_tps := tps x, prev_map := map_kpa x, prev_rpm := rpm x\<rparr>)" if "engine_rt x" for x
    using that by (simp add: engine_rt_def slow_def engine_ok_def)
  have 3: "safe (update_mode dt x) engine_rt" if "engine_rt x" for x
    using that by (intro safe_rt update_mode_safe update_mode_slow dt_real_ok [OF dt]) (simp_all add: engine_rt_def)
  have 4: "engine_rt (smooth_rpm dt x)" if "engine_rt x" for x
    using that smooth_rpm_ok [OF _ dt_real_ok [OF dt]] smooth_rpm_slow by (simp add: engine_rt_def)
  have 5: "safe (update_fuel_params x) engine_rt" "safe (update_battery x) engine_rt"
    "safe (update_enrichments x) engine_rt" if "engine_rt x" for x
    using that by (intro safe_rt update_fuel_params_safe update_battery_safe update_enrichments_safe later_stages_slow;
        simp add: engine_rt_def)+
  have 6: "safe (update_temperatures dt x) engine_rt" if "engine_rt x" for x
    using safe_both [OF update_temperatures_safe update_temperatures_slow [OF that dt]] that
    unfolding engine_rt_def by blast
  show ?thesis
    unfolding update_engine_def Let_def
    by (rule safe_bind [OF 1], rule safe_bind [OF 3 [OF 2]], assumption,
        rule safe_bind [OF update_derivatives_rt [OF 4 dt]], assumption, rule safe_bind [OF 5(1)], assumption,
        rule safe_bind [OF 6], assumption, rule safe_bind [OF 5(2)], assumption,
        rule safe_bind [OF 5(3)], assumption, rule safe_return)
      (simp add: engine_rt_def slow_def engine_ok_def)
qed

text \<open>The simulator starts no scenario.\<close>

definition idle_runner :: "scenario_runner \<Rightarrow> bool" where
  "idle_runner r \<longleftrightarrow> engine_rt (engine r) \<and> scenario_name r = None"

lemma tick_rt: "idle_runner r \<Longrightarrow> dt_real dt \<Longrightarrow> safe (tick dt r) idle_runner"
  unfolding tick_def idle_runner_def
  by (rule safe_bind [OF update_engine_rt]) (auto simp: update_scenario_def intro!: safe_return)

lemma EngineState_rt: "inside 0 (2 ^ 40) now \<Longrightarrow> idle_runner (ScenarioRunner (EngineState now))"
proof -
  assume now: "inside 0 (2 ^ 40) now"
  have "inside 101 102 (lit (1013/10))" by (rule inside_rnd) (simp_all add: float_bounds)
  then have "moderate (lit (1013/10))" by (rule moderate_inside) simp_all
  with now EngineState_ok [of now] show ?thesis
    by (simp add: idle_runner_def ScenarioRunner_def engine_rt_def slow_def EngineState_def)
qed

end
