(* ===== verification/Xml.thy ===== *)
theory Xml
  imports PyText
begin

text \<open>
  The part of \<open>xml.etree.ElementTree\<close> the MSQ readers use: element trees with \<open>find\<close>, \<open>findall\<close>,
  \<open>get\<close>, \<open>text\<close> and the truth value of an element. Parsing the text of a document is left to
  the parser's C library: the readers take it as a function from text to a tree, \<open>None\<close> where
  it raises \<open>ParseError\<close>.
\<close>

datatype xml = Element (tag: string) (attributes: "(string \<times> string) list") (etext: "string option")
  (children: "xml list")

type_synonym xml_parser = "string \<Rightarrow> xml option"

definition xget :: "xml \<Rightarrow> string \<Rightarrow> string option" where
  "xget e k = map_of (attributes e) k"

definition findall :: "string \<Rightarrow> xml \<Rightarrow> xml list" where
  "findall t e = List.filter (\<lambda>c. tag c = t) (children e)"

definition xfind :: "string \<Rightarrow> xml \<Rightarrow> xml option" where
  "xfind t e = (case findall t e of [] \<Rightarrow> None | c # _ \<Rightarrow> Some c)"

text \<open>\<open>bool(element)\<close>: an element without children is false.\<close>

definition truthy :: "xml option \<Rightarrow> bool" where
  "truthy e = (case e of None \<Rightarrow> False | Some x \<Rightarrow> children x \<noteq> [])"

text \<open>The expanded name of \<open>msq:t\<close>.\<close>

definition msq_ns :: "string \<Rightarrow> string" where
  "msq_ns t = ''{http://www.msefi.com/:msq}'' @ t"

text \<open>\<open>root.findall("msq:t", ns) + root.findall("t")\<close>.\<close>

definition findall_ns :: "string \<Rightarrow> xml \<Rightarrow> xml list" where
  "findall_ns t e = findall (msq_ns t) e @ findall t e"

text \<open>\<open>(element.text or "").strip()\<close>.\<close>

definition stripped_text :: "xml \<Rightarrow> string" where
  "stripped_text e = strip (case etext e of Some t \<Rightarrow> t | None \<Rightarrow> [])"

lemma findall_ns_children: "c \<in> set (findall_ns t e) \<Longrightarrow> c \<in> set (children e)"
  by (auto simp: findall_ns_def findall_def)

end
