(* ===== verification/Protocol.thy ===== *)
theory Protocol
  imports Framing
begin

text \<open>
  \<open>ecuSim/src/protocol.py\<close>, class \<open>SerialProtocol\<close>: the newserial frames, the dispatch of a
  request and every command handler. The OUTPC builder is a callable the protocol is given: a
  function on the world \<open>'w\<close> it reads and changes, which may raise. A handler returns its
  response or the exception it raises, with the protocol state and the world afterwards.
\<close>

section \<open>State\<close>

record protocol_config =
  signature :: string
  protocol_version :: string
  can_id :: int
  och_block_size :: nat

record 'w serial_protocol =
  config :: protocol_config
  outpc_builder :: "('w \<Rightarrow> bytes result \<times> 'w) option"
  page_data :: "(nat, bytes) dict"
  pages_modified :: bool

definition ProtocolConfig :: protocol_config where
  "ProtocolConfig = \<lparr>signature = ''MS2Extra comms330NP'', protocol_version = ''002'', can_id = 0,
     och_block_size = 209\<rparr>"

definition TABLE_OUTPC :: nat where "TABLE_OUTPC = 0x07"
definition TABLE_SIGNATURE :: nat where "TABLE_SIGNATURE = 0x0F"
definition TABLE_VERSION :: nat where "TABLE_VERSION = 0x0E"

text \<open>\<open>TABLE_PAGE_0\<close> to \<open>TABLE_PAGE_8\<close>.\<close>

definition TABLE_PAGES :: "nat list" where
  "TABLE_PAGES = [0x04, 0x05, 0x06, 0x08, 0x09, 0x0A, 0x0B, 0x0C, 0x0D]"

definition FLAG_OK :: byte where "FLAG_OK = 0x00"
definition FLAG_REALTIME :: byte where "FLAG_REALTIME = 0x01"
definition FLAG_ERROR_UNRECOGNIZED :: byte where "FLAG_ERROR_UNRECOGNIZED = 0x83"

lemmas table_defs = TABLE_OUTPC_def TABLE_SIGNATURE_def TABLE_VERSION_def TABLE_PAGES_def

definition SerialProtocol :: "protocol_config option \<Rightarrow> 'w serial_protocol" where
  "SerialProtocol cfg =
     \<lparr>config = (case cfg of Some c \<Rightarrow> c | None \<Rightarrow> ProtocolConfig),
      outpc_builder = None, page_data = [], pages_modified = False\<rparr>"

definition set_outpc_builder ::
  "('w \<Rightarrow> bytes result \<times> 'w) \<Rightarrow> 'w serial_protocol \<Rightarrow> 'w serial_protocol" where
  "set_outpc_builder b p = p\<lparr>outpc_builder := Some b\<rparr>"

definition set_page_data :: "nat \<Rightarrow> bytes \<Rightarrow> 'w serial_protocol \<Rightarrow> 'w serial_protocol" where
  "set_page_data table data p = p\<lparr>page_data := dict_set table data (page_data p)\<rparr>"

definition get_page_data :: "nat \<Rightarrow> 'w serial_protocol \<Rightarrow> bytes" where
  "get_page_data table p = (case dict_get (page_data p) table of Some d \<Rightarrow> d | None \<Rightarrow> [])"

definition get_all_page_data :: "'w serial_protocol \<Rightarrow> (nat, bytes) dict" where
  "get_all_page_data p = page_data p"

definition is_pages_modified :: "'w serial_protocol \<Rightarrow> bool" where
  "is_pages_modified p = pages_modified p"

definition clear_pages_modified :: "'w serial_protocol \<Rightarrow> 'w serial_protocol" where
  "clear_pages_modified p = p\<lparr>pages_modified := False\<rparr>"

section \<open>Frames\<close>

definition build_response :: "byte \<Rightarrow> bytes \<Rightarrow> bytes result" where
  "build_response flag payload =
     (let data = [flag] @ payload; crc = crc32 data
      in bindE (struct_pack (BigEndian, FmtH) (int (length data))) (\<lambda>header.
         bindE (struct_pack (BigEndian, FmtI) (uint crc)) (\<lambda>trailer.
         Inr (header @ data @ trailer))))"

definition parse_framed_request :: "bytes \<Rightarrow> bytes option \<times> bytes" where
  "parse_framed_request buffer =
     (if length buffer < 2 then (None, buffer)
      else let size = be_nat (slice buffer 0 2) in
        if size = 0 \<or> size > 1024 then (None, drop 1 buffer)
        else let total_needed = 2 + size + 4 in
          if length buffer < total_needed then (None, buffer)
          else let payload = slice buffer 2 (2 + size);
                   crc_bytes = slice buffer (2 + size) (2 + size + 4);
                   remaining = drop total_needed buffer;
                   crc_rx = be_nat crc_bytes
               in if crc_rx \<noteq> unat (crc32 payload) then (None, remaining)
                  else (Some payload, remaining))"

section \<open>Handlers\<close>

definition handle_signature_query :: "'w serial_protocol \<Rightarrow> bytes result" where
  "handle_signature_query p =
     (let sig_bytes = encode (signature (config p)) @ [0] in build_response FLAG_OK sig_bytes)"

definition handle_version_query :: "'w serial_protocol \<Rightarrow> bytes result" where
  "handle_version_query p =
     (let version = encode (signature (config p)) @ [0] in build_response FLAG_OK version)"

text \<open>The lines \<open>if self._outpc_builder: ... else: bytes(och_block_size)\<close> of two handlers.\<close>

definition fetch_outpc :: "'w serial_protocol \<Rightarrow> 'w \<Rightarrow> bytes result \<times> 'w" where
  "fetch_outpc p w =
     (case outpc_builder p of
        Some builder \<Rightarrow> builder w
      | None \<Rightarrow> (Inr (zeros (och_block_size (config p))), w))"

definition handle_realtime_query :: "'w serial_protocol \<Rightarrow> 'w \<Rightarrow> bytes result \<times> 'w" where
  "handle_realtime_query p w =
     (let (outpc, w') = fetch_outpc p w in (bindE outpc (build_response FLAG_REALTIME), w'))"

definition req_table :: "bytes \<Rightarrow> nat" where "req_table request = unat (request ! 2)"
definition req_offset :: "bytes \<Rightarrow> nat" where "req_offset request = be_nat (slice request 3 5)"
definition req_count :: "bytes \<Rightarrow> nat" where "req_count request = be_nat (slice request 5 7)"

definition handle_can_read :: "'w serial_protocol \<Rightarrow> 'w \<Rightarrow> bytes \<Rightarrow> bytes result \<times> 'w" where
  "handle_can_read p w request =
     (let table = req_table request; offset = req_offset request; count = req_count request
      in if table = TABLE_SIGNATURE then
           (let sig_data = ljust 20 0 (encode (signature (config p)) @ [0])
            in (build_response FLAG_OK (slice sig_data offset (offset + count)), w))
         else if table = TABLE_VERSION then
           (let ver_data = ljust 60 0 (encode (signature (config p)) @ [0])
            in (build_response FLAG_OK (slice ver_data offset (offset + count)), w))
         else if table = TABLE_OUTPC then
           (let (outpc, w') = fetch_outpc p w
            in (bindE outpc (\<lambda>data. build_response FLAG_REALTIME (slice data offset (offset + count))), w'))
         else case dict_get (page_data p) table of
           Some page \<Rightarrow> (build_response FLAG_OK (slice page offset (offset + count)), w)
         | None \<Rightarrow>
             if table \<in> set TABLE_PAGES then (build_response FLAG_OK (zeros count), w)
             else (build_response FLAG_OK (zeros count), w))"

definition handle_can_write ::
  "'w serial_protocol \<Rightarrow> bytes \<Rightarrow> bytes result \<times> 'w serial_protocol" where
  "handle_can_write p request =
     (if length request < 7 then (build_response FLAG_OK [], p)
      else let table = req_table request; offset = req_offset request; count = req_count request;
               data = slice request 7 (7 + count); end_offset = offset + length data
        in (build_response FLAG_OK [],
            case dict_get (page_data p) table of
              Some page \<Rightarrow>
                if end_offset \<le> length page
                then p\<lparr>page_data := dict_set table (splice page offset data) (page_data p),
                       pages_modified := True\<rparr>
                else p
            | None \<Rightarrow>
                let page = zeros 1024;
                    page' = (if end_offset \<le> length page then splice page offset data else page)
                in p\<lparr>page_data := dict_set table page' (page_data p), pages_modified := True\<rparr>))"

definition handle_crc_check :: "'w serial_protocol \<Rightarrow> bytes \<Rightarrow> bytes result" where
  "handle_crc_check p request =
     (let table = req_table request; offset = req_offset request; count = req_count request;
          data_slice = (case dict_get (page_data p) table of
              Some page \<Rightarrow> slice page offset (offset + count)
            | None \<Rightarrow> zeros count);
          crc = crc32 data_slice
      in bindE (struct_pack (BigEndian, FmtI) (uint crc)) (build_response FLAG_OK))"

definition handle_burn :: "'w serial_protocol \<Rightarrow> bytes \<Rightarrow> bytes result" where
  "handle_burn p request = build_response FLAG_OK []"

text \<open>
  The dispatch. An empty request has no response (\<open>None\<close>); otherwise the handler's response or
  the exception it raises.
\<close>

definition handle_request ::
  "'w serial_protocol \<Rightarrow> 'w \<Rightarrow> bytes \<Rightarrow> bytes result option \<times> 'w serial_protocol \<times> 'w" where
  "handle_request p w request =
     (if request = [] then (None, p, w)
      else let cmd = slice request 0 1 in
        if cmd = encode ''Q'' then (Some (handle_signature_query p), p, w)
        else if cmd = encode ''A'' then
          (let (r, w') = handle_realtime_query p w in (Some r, p, w'))
        else if cmd = encode ''S'' then (Some (handle_version_query p), p, w)
        else if cmd = encode ''r'' \<and> length request \<ge> 7 then
          (let (r, w') = handle_can_read p w request in (Some r, p, w'))
        else if cmd = encode ''w'' \<and> length request \<ge> 7 then
          (let (r, p') = handle_can_write p request in (Some r, p', w))
        else if cmd = encode ''k'' \<and> length request \<ge> 7 then
          (Some (handle_crc_check p request), p, w)
        else if cmd = encode ''b'' \<and> length request \<ge> 3 then
          (Some (handle_burn p request), p, w)
        else (Some (build_response FLAG_ERROR_UNRECOGNIZED []), p, w))"

section \<open>The layout of a frame\<close>

text \<open>Size, payload, checksum: what a sender puts on the wire.\<close>

definition frame :: "bytes \<Rightarrow> bytes" where
  "frame payload = be_bytes 2 (length payload) @ payload @ be_bytes 4 (unat (crc32 payload))"

lemma length_frame [simp]: "length (frame p) = length p + 6"
  by (simp add: frame_def)

lemma crc_unat_bound: "unat (w :: 32 word) < 256 ^ 4"
  using unsigned_less [of w, where ?'a = nat] by simp

lemma be_nat_crc [simp]: "be_nat (be_bytes 4 (unat (w :: 32 word))) = unat w"
  using crc_unat_bound [of w] by (simp add: be_nat_be_bytes)

lemma pack_H: "struct_pack (BigEndian, FmtH) (int n) = (if n \<le> 65535 then Inr (be_bytes 2 n) else Inl StructError)"
  by (auto simp: struct_pack_def in_fmt_def fmt_lo_def fmt_hi_def order_bytes_def nat_int zmod_int [symmetric]
      simp del: be_bytes.simps)

lemma pack_I: "struct_pack (BigEndian, FmtI) (uint (w :: 32 word)) = Inr (be_bytes 4 (unat w))"
proof -
  have "uint w < 4294967296" using unsigned_less [of w, where ?'a = int] by simp
  then show ?thesis
    by (simp add: struct_pack_def in_fmt_def fmt_lo_def fmt_hi_def order_bytes_def del: be_bytes.simps)
qed

lemma build_response_eq:
  "build_response flag payload =
     (if length payload < 65535 then Inr (frame (flag # payload)) else Inl StructError)"
  using pack_H [of "Suc (length payload)"]
  by (auto simp: build_response_def frame_def pack_I Let_def simp del: be_bytes.simps)

section \<open>Reading frames\<close>

text \<open>A payload the receiver takes: 1 to 1024 bytes.\<close>

definition payload_ok :: "bytes \<Rightarrow> bool" where
  "payload_ok p \<longleftrightarrow> 1 \<le> length p \<and> length p \<le> 1024"

lemma slice_frame_size: "payload_ok p \<Longrightarrow> be_nat (slice (frame p @ r) 0 2) = length p"
  by (simp add: slice_def frame_def payload_ok_def be_nat_be_bytes del: be_bytes.simps)

lemma slice_frame_payload: "slice (frame p @ r) 2 (2 + length p) = p"
  by (simp add: slice_def frame_def del: be_bytes.simps)

lemma slice_frame_crc:
  "slice (frame p @ r) (2 + length p) (2 + length p + 4) = be_bytes 4 (unat (crc32 p))"
  by (simp add: slice_def frame_def del: be_bytes.simps)

lemma drop_frame: "drop (2 + length p + 4) (frame p @ r) = r"
  by (simp add: frame_def del: be_bytes.simps)

lemma parse_frame: "payload_ok p \<Longrightarrow> parse_framed_request (frame p @ r) = (Some p, r)"
  unfolding parse_framed_request_def Let_def
  by (simp only: slice_frame_size slice_frame_payload slice_frame_crc drop_frame be_nat_crc)
    (auto simp: payload_ok_def)

text \<open>Every outcome of the parser, with what it consumes.\<close>

lemma parse_short_header: "length b < 2 \<Longrightarrow> parse_framed_request b = (None, b)"
  by (simp add: parse_framed_request_def)

lemma parse_bad_size:
  "2 \<le> length b \<Longrightarrow> be_nat (slice b 0 2) = 0 \<or> 1024 < be_nat (slice b 0 2) \<Longrightarrow>
     parse_framed_request b = (None, drop 1 b)"
  by (auto simp: parse_framed_request_def Let_def)

lemma parse_incomplete:
  "2 \<le> length b \<Longrightarrow> length b < be_nat (slice b 0 2) + 6 \<Longrightarrow> 0 < be_nat (slice b 0 2) \<Longrightarrow>
     be_nat (slice b 0 2) \<le> 1024 \<Longrightarrow> parse_framed_request b = (None, b)"
  by (simp add: parse_framed_request_def Let_def)

lemma parse_complete:
  assumes "length p = be_nat (slice b 0 2)" and "payload_ok p" and "b = be_bytes 2 (length p) @ p @ t @ r"
    and "length t = 4"
  shows "parse_framed_request b = ((if t = be_bytes 4 (unat (crc32 p)) then Some p else None), r)"
proof -
  have sl: "slice b 2 (2 + length p) = p" "slice b (2 + length p) (2 + length p + 4) = t"
    "drop (2 + length p + 4) b = r"
    using assms(3,4) by (simp_all add: slice_def del: be_bytes.simps)
  have "be_nat t = unat (crc32 p) \<longleftrightarrow> t = be_bytes 4 (unat (crc32 p))"
    using assms(4) be_nat_inject [of t "be_bytes 4 (unat (crc32 p))"] be_nat_crc [of "crc32 p"] by auto
  moreover have "2 + length p + 4 \<le> length b" using assms(3,4) by simp
  ultimately show ?thesis
    unfolding parse_framed_request_def Let_def assms(1) [symmetric] sl
    using assms(2) by (auto simp: payload_ok_def)
qed

lemma frame_shape:
  assumes "2 \<le> length b" and "be_nat (slice b 0 2) + 6 \<le> length b"
    and "0 < be_nat (slice b 0 2)" and "be_nat (slice b 0 2) \<le> 1024"
  obtains p t r where "length p = be_nat (slice b 0 2)" "payload_ok p"
    "b = be_bytes 2 (length p) @ p @ t @ r" "length t = 4"
proof
  define n where "n = be_nat (slice b 0 2)"
  let ?p = "take n (drop 2 b)" and ?t = "take 4 (drop (2 + n) b)" and ?r = "drop (6 + n) b"
  show len: "length ?p = be_nat (slice b 0 2)" using assms by (simp add: n_def)
  show "payload_ok ?p" using assms by (simp add: payload_ok_def n_def)
  show "length ?t = 4" using assms by (simp add: n_def)
  have "take 2 b = be_bytes 2 n"
    using be_bytes_be_nat [of "take 2 b"] assms(1) by (simp add: n_def slice_def)
  moreover have "drop 2 b = ?p @ ?t @ ?r"
  proof -
    have "drop 4 (drop (2 + n) b) = ?r" by (simp add: add.commute add.left_commute)
    then have "drop (2 + n) b = ?t @ ?r" by (metis append_take_drop_id)
    moreover have "drop 2 b = ?p @ drop (2 + n) b"
      by (metis append_take_drop_id drop_drop add.commute)
    ultimately show ?thesis by simp
  qed
  ultimately show "b = be_bytes 2 (length ?p) @ ?p @ ?t @ ?r"
    using append_take_drop_id [of 2 b] len by (simp add: n_def del: be_bytes.simps)
qed

text \<open>A proper prefix of a frame is left where it is, to be completed by later bytes.\<close>

lemma parse_prefix:
  assumes ok: "payload_ok p" and split: "frame p = b @ c" and "c \<noteq> []"
  shows "parse_framed_request b = (None, b)"
proof (cases "length b < 2")
  case False
  from ok have "slice b 0 2 = be_bytes 2 (length p)"
    using arg_cong [OF split, of "take 2"] False by (simp add: slice_def frame_def del: be_bytes.simps)
  with ok have "be_nat (slice b 0 2) = length p"
    by (simp add: be_nat_be_bytes payload_ok_def del: be_bytes.simps)
  moreover have "length b < length p + 6"
    using arg_cong [OF split, of length] assms(3) by (cases c) auto
  ultimately show ?thesis
    using False ok by (intro parse_incomplete) (auto simp: payload_ok_def)
qed (simp add: parse_short_header)

lemma parse_Some:
  assumes "parse_framed_request b = (Some p, r)"
  shows "b = frame p @ r \<and> payload_ok p"
proof -
  from assms have len: "2 \<le> length b" "be_nat (slice b 0 2) + 6 \<le> length b"
    and sz: "0 < be_nat (slice b 0 2)" "be_nat (slice b 0 2) \<le> 1024"
    by (auto simp: parse_framed_request_def Let_def split: if_splits)
  then obtain q t r' where q: "length q = be_nat (slice b 0 2)" "payload_ok q"
      "b = be_bytes 2 (length q) @ q @ t @ r'" "length t = 4"
    by (rule frame_shape)
  have "(if t = be_bytes 4 (unat (crc32 q)) then Some q else None, r') = (Some p, r)"
    using parse_complete [OF q] assms by simp
  then have "t = be_bytes 4 (unat (crc32 q))" and pr: "q = p" "r' = r"
    by (auto split: if_splits)
  with q(3) have "b = frame p @ r" unfolding frame_def by simp
  with q(2) pr(1) show ?thesis by simp
qed

text \<open>Whatever the outcome, the new buffer is an end of the old one.\<close>

lemma parse_suffix: "\<exists>c. b = c @ snd (parse_framed_request b)"
proof -
  have "\<exists>c. b = c @ drop n b" for n by (metis append_take_drop_id)
  moreover have "\<exists>c. b = c @ b" by simp
  ultimately show ?thesis
    unfolding parse_framed_request_def Let_def by (simp only: snd_conv if_distrib [of snd] split: if_split) blast
qed

section \<open>Interfaces\<close>

definition server_accepts :: "bytes \<Rightarrow> bytes \<Rightarrow> bool" where
  "server_accepts p t \<longleftrightarrow> fst (parse_framed_request (be_bytes 2 (length p) @ p @ t)) = Some p"

lemma server_accepts_iff:
  assumes "payload_ok p" and "length t = 4"
  shows "server_accepts p t \<longleftrightarrow> t = be_bytes 4 (unat (crc32 p))"
proof -
  let ?b = "be_bytes 2 (length p) @ p @ t"
  have "length p = be_nat (slice ?b 0 2)"
    using assms by (simp add: slice_def be_nat_be_bytes payload_ok_def del: be_bytes.simps)
  from parse_complete [OF this assms(1) _ assms(2), of "[]"] show ?thesis
    by (simp add: server_accepts_def del: be_bytes.simps)
qed

interpretation server_frame: checked_frame crc32 server_accepts payload_ok
  by unfold_locales (simp_all add: server_accepts_iff crc32_burst payload_ok_def)

interpretation protocol_pages: page_store "\<lambda>p. dict_get (page_data p)" set_page_data
  by unfold_locales (simp add: set_page_data_def dict_get_set)

section \<open>Properties of the framing\<close>

text \<open>
  The receiver takes exactly the frames a sender builds. It returns a payload and a rest if
  and only if the buffer is the frame of that payload, of 1 to 1024 bytes, followed by that rest.
\<close>

lemma parse_framed_exact:
  "parse_framed_request b = (Some p, r) \<longleftrightarrow> b = frame p @ r \<and> payload_ok p"
  using parse_Some [of b p r] parse_frame [of p r] by blast



text \<open>When the parser leaves the buffer as it is.\<close>

lemma parse_waits_iff:
  "snd (parse_framed_request b) = b \<longleftrightarrow>
     length b < 2 \<or> (1 \<le> be_nat (slice b 0 2) \<and> be_nat (slice b 0 2) \<le> 1024
       \<and> length b < be_nat (slice b 0 2) + 6)"
proof -
  have "drop n b = b \<longleftrightarrow> n = 0 \<or> b = []" for n
  proof
    assume "drop n b = b"
    then have "length b - n = length b" by (metis length_drop)
    then show "n = 0 \<or> b = []" by (cases b) auto
  qed auto
  then show ?thesis
    by (cases "b = []") (auto simp: parse_framed_request_def Let_def)
qed

end
