(* ===== verification/EcuSpec.thy ===== *)
theory EcuSpec
  imports Protocol
begin

text \<open>
  An abstract ECU, and the proof that the handlers of \<open>SerialProtocol\<close> implement it. The abstract
  memory is a partial map from tables to partial maps from addresses to bytes: a read collects
  defined bytes, a write is all or nothing, and no operation knows of buffers or slices.
\<close>

section \<open>The abstract ECU\<close>

datatype command = Query | Realtime | Version
  | Read nat nat nat
  | Write nat nat bytes
  | CrcCheck nat nat nat
  | Burn
  | Unrecognized

type_synonym page = "nat \<rightharpoonup> byte"
type_synonym memory = "nat \<rightharpoonup> page"

text \<open>The command a request stands for.\<close>

definition command_of :: "bytes \<Rightarrow> command" where
  "command_of req =
     (let cmd = hd req; long = (7 \<le> length req); t = req_table req; a = req_offset req; n = req_count req
      in if cmd = 0x51 then Query
         else if cmd = 0x41 then Realtime
         else if cmd = 0x53 then Version
         else if cmd = 0x72 \<and> long then Read t a n
         else if cmd = 0x77 \<and> long then Write t a (take n (drop 7 req))
         else if cmd = 0x6B \<and> long then CrcCheck t a n
         else if cmd = 0x62 \<and> 3 \<le> length req then Burn
         else Unrecognized)"

text \<open>The bytes from address \<open>a\<close> on, at most \<open>n\<close> of them, up to the first undefined one.\<close>

primrec peek :: "page \<Rightarrow> nat \<Rightarrow> nat \<Rightarrow> bytes" where
  "peek pg a 0 = []"
| "peek pg a (Suc n) = (case pg a of None \<Rightarrow> [] | Some b \<Rightarrow> b # peek pg (Suc a) n)"

definition poke :: "page \<Rightarrow> nat \<Rightarrow> bytes \<Rightarrow> page" where
  "poke pg a data =
     (if \<forall>i<length data. pg (a + i) \<noteq> None
      then (\<lambda>j. if a \<le> j \<and> j < a + length data then Some (data ! (j - a)) else pg j)
      else pg)"

definition bytes_page :: "bytes \<Rightarrow> page" where
  "bytes_page d = (\<lambda>i. if i < length d then Some (d ! i) else None)"

text \<open>What a read or a checksum sees of a table that was never stored: zeros.\<close>

definition mem_range :: "memory \<Rightarrow> nat \<Rightarrow> nat \<Rightarrow> nat \<Rightarrow> bytes" where
  "mem_range m t a n = (case m t of Some pg \<Rightarrow> peek pg a n | None \<Rightarrow> zeros n)"

definition spec_reply :: "bytes \<Rightarrow> bytes \<Rightarrow> memory \<Rightarrow> command \<Rightarrow> byte \<times> bytes" where
  "spec_reply sig outpc m c =
     (case c of
        Query \<Rightarrow> (FLAG_OK, sig @ [0])
      | Version \<Rightarrow> (FLAG_OK, sig @ [0])
      | Realtime \<Rightarrow> (FLAG_REALTIME, outpc)
      | Read t a n \<Rightarrow>
          if t = TABLE_SIGNATURE then (FLAG_OK, peek (bytes_page (ljust 20 0 (sig @ [0]))) a n)
          else if t = TABLE_VERSION then (FLAG_OK, peek (bytes_page (ljust 60 0 (sig @ [0]))) a n)
          else if t = TABLE_OUTPC then (FLAG_REALTIME, peek (bytes_page outpc) a n)
          else (FLAG_OK, mem_range m t a n)
      | Write t a d \<Rightarrow> (FLAG_OK, [])
      | CrcCheck t a n \<Rightarrow> (FLAG_OK, be_bytes 4 (unat (crc32 (mem_range m t a n))))
      | Burn \<Rightarrow> (FLAG_OK, [])
      | Unrecognized \<Rightarrow> (FLAG_ERROR_UNRECOGNIZED, []))"

definition spec_memory :: "memory \<Rightarrow> command \<Rightarrow> memory" where
  "spec_memory m c =
     (case c of
        Write t a d \<Rightarrow>
          m(t \<mapsto> poke (case m t of Some pg \<Rightarrow> pg | None \<Rightarrow> bytes_page (zeros 1024)) a d)
      | _ \<Rightarrow> m)"

definition needs_outpc :: "command \<Rightarrow> bool" where
  "needs_outpc c = (case c of Realtime \<Rightarrow> True | Read t a n \<Rightarrow> t = TABLE_OUTPC | _ \<Rightarrow> False)"

section \<open>The memory a protocol state stands for\<close>

definition protocol_memory :: "'w serial_protocol \<Rightarrow> memory" where
  "protocol_memory p = (\<lambda>t. map_option bytes_page (dict_get (page_data p) t))"

lemma peek_bytes_page: "peek (bytes_page d) a n = slice d a (a + n)"
proof (induction n arbitrary: a)
  case 0
  then show ?case by (simp add: slice_def)
next
  case (Suc n)
  show ?case
  proof (cases "a < length d")
    case True
    then have "slice d a (a + Suc n) = d ! a # slice d (Suc a) (Suc a + n)"
      by (simp only: slice_offset) (simp add: Cons_nth_drop_Suc [symmetric])
    with True Suc show ?thesis by (simp add: bytes_page_def)
  next
    case False
    then show ?thesis by (simp add: bytes_page_def slice_def)
  qed
qed

lemma poke_bytes_page:
  "poke (bytes_page d) a x = bytes_page (if a + length x \<le> length d then splice d a x else d)"
proof (cases "x = []")
  case True
  have "splice d a [] = d" by (simp add: splice_def)
  with True show ?thesis by (auto simp: poke_def fun_eq_iff)
next
  case False
  then have pos: "0 < length x" by simp
  have guard: "(\<forall>i<length x. bytes_page d (a + i) \<noteq> None) \<longleftrightarrow> a + length x \<le> length d"
  proof
    assume "\<forall>i<length x. bytes_page d (a + i) \<noteq> None"
    with pos have "bytes_page d (a + (length x - 1)) \<noteq> None" by simp
    with pos show "a + length x \<le> length d" by (simp add: bytes_page_def split: if_splits)
  qed (simp add: bytes_page_def)
  show ?thesis
  proof (cases "a + length x \<le> length d")
    case True
    with guard have g: "\<forall>i<length x. bytes_page d (a + i) \<noteq> None" by simp
    show ?thesis
      unfolding poke_def if_P [OF g] using True
      by (intro ext) (auto simp: bytes_page_def nth_splice)
  next
    case False
    with guard show ?thesis by (auto simp: poke_def)
  qed
qed

lemma mem_range_protocol:
  "mem_range (protocol_memory p) t a n =
     (case dict_get (page_data p) t of Some d \<Rightarrow> slice d a (a + n) | None \<Rightarrow> zeros n)"
  by (simp add: mem_range_def protocol_memory_def peek_bytes_page split: option.splits)

section \<open>Refinement\<close>

lemma encode_cmds [simp]:
  "encode ''Q'' = [0x51]" "encode ''A'' = [0x41]" "encode ''S'' = [0x53]" "encode ''r'' = [0x72]"
  "encode ''w'' = [0x77]" "encode ''k'' = [0x6B]" "encode ''b'' = [0x62]" "encode ''F'' = [0x46]"
  by (simp_all add: encode_def)

lemma slice_cmd: "req \<noteq> [] \<Longrightarrow> slice req 0 (Suc 0) = [hd req]"
  by (cases req) (simp_all add: slice_def)

lemma write_data: "slice req 7 (7 + n) = take n (drop 7 req)"
  by (rule slice_offset)

lemma handle_can_write_eq:
  assumes "7 \<le> length req"
  shows "\<exists>p'. handle_can_write p req = (build_response FLAG_OK [], p')
    \<and> protocol_memory p' = spec_memory (protocol_memory p)
        (Write (req_table req) (req_offset req) (take (req_count req) (drop 7 req)))
    \<and> config p' = config p \<and> outpc_builder p' = outpc_builder p"
  using assms
  by (auto simp: handle_can_write_def Let_def write_data spec_memory_def protocol_memory_def fun_eq_iff
      poke_bytes_page dict_get_set not_less split: option.splits simp del: length_slice length_take length_drop)

lemma handle_can_read_eq:
  assumes "req_table req = TABLE_OUTPC \<Longrightarrow> fetch_outpc p w = (Inr outpc, w')"
  shows "handle_can_read p w req =
    (case spec_reply (encode (signature (config p))) outpc (protocol_memory p)
        (Read (req_table req) (req_offset req) (req_count req)) of
       (flag, payload) \<Rightarrow> build_response flag payload,
     if req_table req = TABLE_OUTPC then w' else w)"
proof (cases "req_table req = TABLE_OUTPC")
  case True
  with assms show ?thesis
    by (simp add: handle_can_read_def Let_def spec_reply_def peek_bytes_page table_defs)
next
  case False
  then show ?thesis
    by (cases "dict_get (page_data p) (req_table req)")
      (simp_all add: handle_can_read_def Let_def spec_reply_def peek_bytes_page mem_range_protocol)
qed

lemma handle_crc_check_eq:
  "handle_crc_check p req =
    (case spec_reply sig outpc (protocol_memory p) (CrcCheck (req_table req) (req_offset req) (req_count req)) of
       (flag, payload) \<Rightarrow> build_response flag payload)"
  by (auto simp: handle_crc_check_def Let_def spec_reply_def mem_range_protocol pack_I split: option.splits)

lemma handle_request_hd:
  "req \<noteq> [] \<Longrightarrow> handle_request p w req =
     (let c = hd req in
      if c = 0x51 then (Some (handle_signature_query p), p, w)
      else if c = 0x41 then (let (r, w') = handle_realtime_query p w in (Some r, p, w'))
      else if c = 0x53 then (Some (handle_version_query p), p, w)
      else if c = 0x72 \<and> 7 \<le> length req then (let (r, w') = handle_can_read p w req in (Some r, p, w'))
      else if c = 0x77 \<and> 7 \<le> length req then (let (r, p') = handle_can_write p req in (Some r, p', w))
      else if c = 0x6B \<and> 7 \<le> length req then (Some (handle_crc_check p req), p, w)
      else if c = 0x62 \<and> 3 \<le> length req then (Some (handle_burn p req), p, w)
      else (Some (build_response FLAG_ERROR_UNRECOGNIZED []), p, w))"
  by (simp add: handle_request_def Let_def slice_cmd)

text \<open>The first byte and the length of a request, from the command it stands for.\<close>

lemma command_of_shape:
  "command_of req = Query \<Longrightarrow> hd req = 0x51"
  "command_of req = Realtime \<Longrightarrow> hd req = 0x41"
  "command_of req = Version \<Longrightarrow> hd req = 0x53"
  "command_of req = Read t a n \<Longrightarrow> hd req = 0x72 \<and> 7 \<le> length req
     \<and> t = req_table req \<and> a = req_offset req \<and> n = req_count req"
  "command_of req = Write t a d \<Longrightarrow> hd req = 0x77 \<and> 7 \<le> length req
     \<and> t = req_table req \<and> a = req_offset req \<and> d = take (req_count req) (drop 7 req)"
  "command_of req = CrcCheck t a n \<Longrightarrow> hd req = 0x6B \<and> 7 \<le> length req
     \<and> t = req_table req \<and> a = req_offset req \<and> n = req_count req"
  "command_of req = Burn \<Longrightarrow> hd req = 0x62 \<and> 3 \<le> length req"
  by (simp_all add: command_of_def Let_def split: if_split_asm)

lemma command_of_Unrecognized:
  "command_of req = Unrecognized \<Longrightarrow> hd req \<noteq> 0x51 \<and> hd req \<noteq> 0x41 \<and> hd req \<noteq> 0x53 \<and>
     \<not> (hd req = 0x72 \<and> 7 \<le> length req) \<and> \<not> (hd req = 0x77 \<and> 7 \<le> length req) \<and>
     \<not> (hd req = 0x6B \<and> 7 \<le> length req) \<and> \<not> (hd req = 0x62 \<and> 3 \<le> length req)"
  by (simp add: command_of_def Let_def split: if_split_asm)

text \<open>
  The handler of each command gives the abstract ECU's reply, framed, and leaves a state that
  stands for the abstract ECU's memory. \<open>outpc\<close> is what the OUTPC builder returns, where the
  command calls it.
\<close>

lemma handle_request_refines_aux:
  assumes "req \<noteq> []"
    and "needs_outpc (command_of req) \<Longrightarrow> fetch_outpc p w = (Inr outpc, w')"
  shows "\<exists>p'. handle_request p w req =
      (Some (case spec_reply (encode (signature (config p))) outpc (protocol_memory p) (command_of req) of
               (flag, payload) \<Rightarrow> build_response flag payload),
       p', if needs_outpc (command_of req) then w' else w)
    \<and> protocol_memory p' = spec_memory (protocol_memory p) (command_of req)
    \<and> config p' = config p \<and> outpc_builder p' = outpc_builder p"
proof (cases "command_of req")
  case Query
  with command_of_shape assms show ?thesis
    by (simp add: handle_request_hd Let_def handle_signature_query_def spec_reply_def spec_memory_def needs_outpc_def)
next
  case Realtime
  with command_of_shape assms show ?thesis
    by (simp add: handle_request_hd Let_def handle_realtime_query_def spec_reply_def spec_memory_def needs_outpc_def)
next
  case Version
  with command_of_shape assms show ?thesis
    by (simp add: handle_request_hd Let_def handle_version_query_def spec_reply_def spec_memory_def needs_outpc_def)
next
  case (Read t a n)
  note cmd = command_of_shape(4) [OF Read]
  from Read assms(2) cmd have "req_table req = TABLE_OUTPC \<Longrightarrow> fetch_outpc p w = (Inr outpc, w')"
    by (simp add: needs_outpc_def)
  from handle_can_read_eq [of req p w outpc w', OF this] Read assms(1) cmd show ?thesis
    by (simp add: handle_request_hd Let_def spec_memory_def needs_outpc_def)
next
  case (Write t a d)
  note cmd = command_of_shape(5) [OF Write]
  from cmd obtain p' where "handle_can_write p req = (build_response FLAG_OK [], p')"
    "protocol_memory p' = spec_memory (protocol_memory p) (Write t a d)"
    "config p' = config p" "outpc_builder p' = outpc_builder p"
    using handle_can_write_eq [of req p] by auto
  with cmd Write assms(1) show ?thesis
    by (simp add: handle_request_hd Let_def spec_reply_def needs_outpc_def)
next
  case (CrcCheck t a n)
  note cmd = command_of_shape(6) [OF CrcCheck]
  with CrcCheck assms(1) show ?thesis
    by (simp add: handle_request_hd Let_def spec_memory_def needs_outpc_def
        handle_crc_check_eq [of p req "encode (signature (config p))" outpc])
next
  case Burn
  with command_of_shape assms show ?thesis
    by (simp add: handle_request_hd Let_def handle_burn_def spec_reply_def spec_memory_def needs_outpc_def)
next
  case Unrecognized
  with command_of_Unrecognized [OF this] assms show ?thesis
    by (auto simp: handle_request_hd Let_def spec_reply_def spec_memory_def needs_outpc_def)
qed

section \<open>Requests as a client builds them\<close>

text \<open>Command byte, CAN id, table, offset and count, as the clients of the simulator send them.\<close>

definition can_request :: "byte \<Rightarrow> byte \<Rightarrow> byte \<Rightarrow> nat \<Rightarrow> nat \<Rightarrow> bytes" where
  "can_request cmd can t off n = [cmd, can, t] @ be_bytes 2 off @ be_bytes 2 n"

lemma be_bytes_2: "be_bytes 2 n = [of_nat (n div 256), of_nat n]"
  by (simp add: numeral_2_eq_2)

lemma be_nat_2: "n < 65536 \<Longrightarrow> be_nat [of_nat (n div 256), of_nat n] = n"
  using be_nat_be_bytes [of 2 n] by (simp add: be_bytes_2 del: be_nat_pair)

lemma can_request_fields:
  "off < 65536 \<Longrightarrow> n < 65536 \<Longrightarrow>
     hd (can_request cmd can t off n @ d) = cmd \<and>
     length (can_request cmd can t off n @ d) = 7 + length d \<and>
     req_table (can_request cmd can t off n @ d) = unat t \<and>
     req_offset (can_request cmd can t off n @ d) = off \<and>
     req_count (can_request cmd can t off n @ d) = n \<and>
     drop 7 (can_request cmd can t off n @ d) = d"
  by (simp add: can_request_def be_bytes_2 req_table_def req_offset_def req_count_def slice_def be_nat_2
      del: be_nat_pair)

lemma command_of_can_request:
  assumes "off < 65536" and "n < 65536"
  shows "command_of (can_request 0x72 can t off n) = Read (unat t) off n"
    and "command_of (can_request 0x6B can t off n) = CrcCheck (unat t) off n"
    and "command_of (can_request 0x77 can t off n @ d) = Write (unat t) off (take n d)"
  using can_request_fields [OF assms, where can = can and t = t and d = "[]"]
    can_request_fields [OF assms, where cmd = "0x77" and can = can and t = t and d = d]
  by (simp_all add: command_of_def Let_def)

lemma can_request_nonempty [simp]: "can_request cmd can t off n \<noteq> []"
  by (simp add: can_request_def)

section \<open>Properties of the handlers\<close>

text \<open>
  C3: every handler of the protocol implements the abstract ECU. For a non-empty request, with
  the OUTPC builder returning \<open>outpc\<close> where the command calls it, \<open>handle_request\<close> answers with
  the frame of the abstract reply (or the exception of building that frame), leaves a state that
  stands for the abstract memory after the command, and keeps the configuration and the builder.
\<close>

theorem handle_request_refines:
  assumes "req \<noteq> []"
    and "needs_outpc (command_of req) \<Longrightarrow> fetch_outpc p w = (Inr outpc, w')"
  shows "\<exists>p'. handle_request p w req =
      (Some (case spec_reply (encode (signature (config p))) outpc (protocol_memory p) (command_of req) of
               (flag, payload) \<Rightarrow> build_response flag payload),
       p', if needs_outpc (command_of req) then w' else w)
    \<and> protocol_memory p' = spec_memory (protocol_memory p) (command_of req)
    \<and> config p' = config p \<and> outpc_builder p' = outpc_builder p"
  using assms by (rule handle_request_refines_aux)

theorem handle_request_refines_witness:
  "\<exists>p'. handle_request (SerialProtocol None :: unit serial_protocol) ()
      (can_request 0x77 0 4 10 2 @ [7, 8]) = (Some (build_response FLAG_OK []), p', ())
    \<and> protocol_memory p' 4 = Some (poke (bytes_page (zeros 1024)) 10 [7, 8])"
  using handle_request_refines [of "can_request 0x77 0 4 10 2 @ [7, 8]" "SerialProtocol None :: unit serial_protocol" "()"]
  by (fastforce simp: command_of_can_request needs_outpc_def spec_reply_def spec_memory_def protocol_memory_def
      SerialProtocol_def)

lemma spec_reply_length:
  assumes "length sig < 65534" and "length outpc < 65535"
    and "\<And>t d. dict_get (page_data p) t = Some d \<Longrightarrow> length d < 65535"
    and "command_of req = c"
  shows "65535 \<le> length (snd (spec_reply sig outpc (protocol_memory p) c)) \<longleftrightarrow>
    (\<exists>t a n. c = Read t a n \<and> 65535 \<le> n \<and> t \<notin> {TABLE_SIGNATURE, TABLE_VERSION, TABLE_OUTPC}
      \<and> dict_get (page_data p) t = None)"
proof (cases c)
  case (Read t a n)
  show ?thesis
  proof (cases "dict_get (page_data p) t")
    case None
    with assms Read show ?thesis
      by (auto simp: spec_reply_def peek_bytes_page mem_range_protocol)
  next
    case (Some d)
    with assms(3) have "length d < 65535" by blast
    then have "min (a + n) (length d) - a < 65535" by simp
    with assms(1,2) Read Some show ?thesis
      by (auto simp: spec_reply_def peek_bytes_page mem_range_protocol)
  qed
qed (use assms(1,2) in \<open>auto simp: spec_reply_def\<close>)

lemma req_count_bound: "req_count req \<le> 65535"
  using be_nat_slice_bound [of req 5 2] by (simp add: req_count_def)

lemma handle_request_raises_aux:
  assumes "req \<noteq> []" and "fetch_outpc p w = (Inr outpc, w')" and "length outpc < 65535"
    and "length (signature (config p)) < 65534"
    and "\<And>t d. dict_get (page_data p) t = Some d \<Longrightarrow> length d < 65535"
  shows "fst (handle_request p w req) = Some (Inl e) \<longleftrightarrow>
    e = StructError \<and> (\<exists>t a. command_of req = Read t a 65535
      \<and> t \<notin> {TABLE_SIGNATURE, TABLE_VERSION, TABLE_OUTPC} \<and> dict_get (page_data p) t = None)"
proof -
  let ?r = "spec_reply (encode (signature (config p))) outpc (protocol_memory p) (command_of req)"
  from handle_request_refines_aux [of req p w outpc w'] assms(1,2)
  have "fst (handle_request p w req) = Some (build_response (fst ?r) (snd ?r))"
    by (auto simp: case_prod_beta)
  then have "fst (handle_request p w req) = Some (Inl e) \<longleftrightarrow> e = StructError \<and> 65535 \<le> length (snd ?r)"
    by (auto simp: build_response_eq)
  also have "65535 \<le> length (snd ?r) \<longleftrightarrow> (\<exists>t a n. command_of req = Read t a n \<and> 65535 \<le> n
      \<and> t \<notin> {TABLE_SIGNATURE, TABLE_VERSION, TABLE_OUTPC} \<and> dict_get (page_data p) t = None)"
    using assms by (intro spec_reply_length) simp_all
  also have "\<dots> \<longleftrightarrow> (\<exists>t a. command_of req = Read t a 65535
      \<and> t \<notin> {TABLE_SIGNATURE, TABLE_VERSION, TABLE_OUTPC} \<and> dict_get (page_data p) t = None)"
    using req_count_bound [of req] command_of_shape(4) [of req] by (metis le_antisym order_refl)
  finally show ?thesis .
qed

text \<open>
  C22: the only way a handler raises, while the OUTPC block, the signature and the stored pages
  leave room for the flag byte in a 16-bit frame size: \<open>struct.error\<close>, from a read of 65535
  bytes of a table that was never stored, whose reply does not fit its size field. Every
  other request is answered.
\<close>

theorem handle_request_raises_iff:
  assumes "req \<noteq> []" and "fetch_outpc p w = (Inr outpc, w')" and "length outpc < 65535"
    and "length (signature (config p)) < 65534"
    and "\<And>t d. dict_get (page_data p) t = Some d \<Longrightarrow> length d < 65535"
  shows "fst (handle_request p w req) = Some (Inl e) \<longleftrightarrow>
    e = StructError \<and> (\<exists>t a. command_of req = Read t a 65535
      \<and> t \<notin> {TABLE_SIGNATURE, TABLE_VERSION, TABLE_OUTPC} \<and> dict_get (page_data p) t = None)"
  using assms by (rule handle_request_raises_aux)

theorem handle_request_raises_iff_witness:
  "fst (handle_request (SerialProtocol None :: unit serial_protocol) () (can_request 0x72 0 0x20 0 65535))
    = Some (Inl StructError)"
proof -
  let ?p = "SerialProtocol None :: unit serial_protocol"
  have "fetch_outpc ?p () = (Inr (zeros 209), ())"
    by (simp add: fetch_outpc_def SerialProtocol_def ProtocolConfig_def)
  then show ?thesis
    by (subst handle_request_raises_iff [of _ ?p "()" "zeros 209" "()"])
      (simp_all add: SerialProtocol_def ProtocolConfig_def command_of_can_request table_defs)
qed

lemma write_request:
  assumes "off < 65536" and "length data < 65536" and "dict_get (page_data p) (unat t) = Some page"
  shows "handle_request p w (can_request 0x77 can t off (length data) @ data) =
    (Some (build_response FLAG_OK []),
     if off + length data \<le> length page
     then p\<lparr>page_data := dict_set (unat t) (splice page off data) (page_data p), pages_modified := True\<rparr>
     else p, w)"
  using can_request_fields [OF assms(1,2), where cmd = "0x77" and can = can and t = t and d = data] assms(3)
  by (simp add: handle_request_hd Let_def handle_can_write_def write_data)

lemma read_request:
  assumes "off < 65536" and "n < 65536" and "unat t \<notin> {TABLE_SIGNATURE, TABLE_VERSION, TABLE_OUTPC}"
  shows "handle_request p w (can_request 0x72 can t off n) =
    (Some (build_response FLAG_OK (mem_range (protocol_memory p) (unat t) off n)), p, w)"
  using can_request_fields [OF assms(1,2), where cmd = "0x72" and can = can and t = t and d = "[]"] assms(3)
  by (simp add: handle_request_hd Let_def handle_can_read_def mem_range_protocol split: option.splits)

lemma crc_request:
  assumes "off < 65536" and "n < 65536"
  shows "handle_request p w (can_request 0x6B can t off n) =
    (Some (build_response FLAG_OK (be_bytes 4 (unat (crc32 (mem_range (protocol_memory p) (unat t) off n))))), p, w)"
  using can_request_fields [OF assms(1,2), where cmd = "0x6B" and can = can and t = t and d = "[]"]
  by (simp add: handle_request_hd Let_def handle_crc_check_def mem_range_protocol pack_I split: option.splits)

text \<open>
  C5: what a client writes to a stored page it reads back, and nothing else changes: the write
  is acknowledged, a read of the same range returns the data, and every range of another table
  or beside the written one reads as before.
\<close>

theorem write_then_read:
  assumes "dict_get (page_data p) (unat t) = Some page" and "off + length data \<le> length page"
    and "off < 65536" and "length data < 65536"
    and "unat t \<notin> {TABLE_SIGNATURE, TABLE_VERSION, TABLE_OUTPC}"
  shows "\<exists>p'. handle_request p w (can_request 0x77 can t off (length data) @ data) =
        (Some (build_response FLAG_OK []), p', w)
    \<and> handle_request p' w (can_request 0x72 can t off (length data)) = (Some (build_response FLAG_OK data), p', w)
    \<and> (\<forall>t' a n. t' \<noteq> unat t \<or> a + n \<le> off \<or> off + length data \<le> a \<longrightarrow>
         mem_range (protocol_memory p') t' a n = mem_range (protocol_memory p) t' a n)"
proof -
  let ?p' = "p\<lparr>page_data := dict_set (unat t) (splice page off data) (page_data p), pages_modified := True\<rparr>"
  have "handle_request p w (can_request 0x77 can t off (length data) @ data) =
      (Some (build_response FLAG_OK []), ?p', w)"
    using write_request [OF assms(3,4,1), of w can] assms(2) by simp
  moreover have "mem_range (protocol_memory ?p') (unat t) off (length data) = data"
    using assms(2) by (simp add: mem_range_protocol dict_get_set slice_splice_same)
  then have "handle_request ?p' w (can_request 0x72 can t off (length data)) =
      (Some (build_response FLAG_OK data), ?p', w)"
    using read_request [OF assms(3-5), of ?p' w can] by simp
  moreover have "mem_range (protocol_memory ?p') t' a n = mem_range (protocol_memory p) t' a n"
    if "t' \<noteq> unat t \<or> a + n \<le> off \<or> off + length data \<le> a" for t' a n
    using that assms(1,2) by (auto simp: mem_range_protocol dict_get_set slice_splice_other)
  ultimately show ?thesis by blast
qed

definition sample_protocol :: "unit serial_protocol" where
  "sample_protocol = set_page_data 4 (zeros 16) (SerialProtocol None)"

lemma sample_protocol_page: "dict_get (page_data sample_protocol) 4 = Some (zeros 16)"
  by (simp add: sample_protocol_def set_page_data_def SerialProtocol_def)

theorem write_then_read_witness:
  "\<exists>p'. handle_request sample_protocol () (can_request 0x77 0 4 3 1 @ [7]) =
      (Some (build_response FLAG_OK []), p', ())
    \<and> handle_request p' () (can_request 0x72 0 4 3 1) = (Some (build_response FLAG_OK [7]), p', ())"
  using write_then_read [of sample_protocol 4 "zeros 16" 3 "[7]" "()" 0]
  by (auto simp: sample_protocol_page table_defs)

text \<open>
  A write that does not fit its page is acknowledged like any other, and stores nothing.
\<close>

lemma oversized_write_acknowledged:
  assumes "dict_get (page_data p) (unat t) = Some page" and "length page < off + length data"
    and "off < 65536" and "length data < 65536"
  shows "handle_request p w (can_request 0x77 can t off (length data) @ data) = (Some (Inr (frame [FLAG_OK])), p, w)"
  using write_request [OF assms(3,4,1), of w can] assms(2) by (simp add: build_response_eq)

text \<open>
  The checksum command vouches for what a read of the same range returns, stored page or not.
\<close>

lemma crc_check_matches_read:
  assumes "off < 65536" and "n < 65536" and "unat t \<notin> {TABLE_SIGNATURE, TABLE_VERSION, TABLE_OUTPC}"
  shows "\<exists>payload. handle_request p w (can_request 0x72 can t off n) = (Some (build_response FLAG_OK payload), p, w)
    \<and> handle_request p w (can_request 0x6B can t off n) =
        (Some (build_response FLAG_OK (be_bytes 4 (unat (crc32 payload)))), p, w)"
  using read_request [OF assms, of p w can] crc_request [OF assms(1,2), of p w can t] by blast

section \<open>The pages keep their sizes\<close>

text \<open>Every table id is one byte, no table is stored twice, and every page fits a 16-bit size.\<close>

definition pages_ok :: "(nat, bytes) dict \<Rightarrow> bool" where
  "pages_ok d \<longleftrightarrow> dict_ok d \<and> (\<forall>(t, page) \<in> set d. t < 256 \<and> length page \<le> 65535)"

lemma pages_ok_set:
  "pages_ok d \<Longrightarrow> t < 256 \<Longrightarrow> length page \<le> 65535 \<Longrightarrow> pages_ok (dict_set t page d)"
  by (auto simp: pages_ok_def dict_ok_set dest: dict_set_values)

lemma pages_ok_length: "pages_ok d \<Longrightarrow> dict_get d t = Some page \<Longrightarrow> length page \<le> 65535"
  by (auto simp: pages_ok_def dest: map_of_SomeD)

lemma req_table_bound: "req_table req < 256"
  by (simp add: req_table_def)

text \<open>What a request can do to the stored pages: replace one by another of its size, or add one.\<close>

lemma handle_request_pages:
  "fst (snd (handle_request p w req)) = p \<or>
   (\<exists>page page'. dict_get (page_data p) (req_table req) = Some page \<and> length page' = length page \<and>
      page_data (fst (snd (handle_request p w req))) = dict_set (req_table req) page' (page_data p)) \<or>
   (\<exists>page'. dict_get (page_data p) (req_table req) = None \<and> length page' = 1024 \<and>
      page_data (fst (snd (handle_request p w req))) = dict_set (req_table req) page' (page_data p))"
proof (cases "req \<noteq> [] \<and> hd req = 0x77 \<and> 7 \<le> length req")
  case True
  then have eq: "fst (snd (handle_request p w req)) = snd (handle_can_write p req)"
    by (simp add: handle_request_hd Let_def case_prod_beta)
  define d where "d = slice req 7 (7 + req_count req)"
  define new where "new page = (if req_offset req + length d \<le> length page
    then splice page (req_offset req) d else page)" for page
  have len: "length (new page) = length page" for page by (simp add: new_def)
  have *: "snd (handle_can_write p req) = p \<or>
    page_data (snd (handle_can_write p req)) = dict_set (req_table req)
      (new (case dict_get (page_data p) (req_table req) of Some page \<Rightarrow> page | None \<Rightarrow> zeros 1024)) (page_data p)"
    using True
    by (auto simp: handle_can_write_def Let_def new_def d_def [symmetric] simp del: length_zeros split: option.splits)
  show ?thesis
  proof (cases "dict_get (page_data p) (req_table req)")
    case None
    moreover have "length (new (zeros 1024)) = 1024" by (simp add: len)
    ultimately show ?thesis using * unfolding eq by (simp only: option.case) blast
  next
    case (Some page)
    with * len [of page] show ?thesis unfolding eq by (simp only: option.case) blast
  qed
next
  case False
  then have "fst (snd (handle_request p w req)) = p"
    by (cases "req = []") (auto simp: handle_request_def Let_def case_prod_beta slice_cmd)
  then show ?thesis by simp
qed

lemma handle_request_pages_ok:
  "pages_ok (page_data p) \<Longrightarrow> pages_ok (page_data (fst (snd (handle_request p w req))))"
  using handle_request_pages [of p w req] pages_ok_set [of "page_data p" "req_table req"] req_table_bound [of req]
    pages_ok_length [of "page_data p" "req_table req"]
  by fastforce

text \<open>One request after another, whatever their responses.\<close>

definition serve :: "bytes \<Rightarrow> 'w serial_protocol \<times> 'w \<Rightarrow> 'w serial_protocol \<times> 'w" where
  "serve req s = snd (handle_request (fst s) (snd s) req)"

definition has_page :: "nat \<Rightarrow> nat \<Rightarrow> 'w serial_protocol \<times> 'w \<Rightarrow> bool" where
  "has_page t n s \<longleftrightarrow> (\<exists>page. dict_get (page_data (fst s)) t = Some page \<and> length page = n)"

interpretation served_pages: invariant_machine serve "\<lambda>s. pages_ok (page_data (fst s))" "\<lambda>req. True"
  by unfold_locales (simp add: serve_def handle_request_pages_ok)

lemma serve_has_page: "has_page t n s \<Longrightarrow> has_page t n (serve req s)"
  using handle_request_pages [of "fst s" "snd s" req]
  by (auto simp: has_page_def serve_def dict_get_set)

interpretation served_page: invariant_machine serve "has_page t n" "\<lambda>req. True"
  by unfold_locales (rule serve_has_page)

text \<open>
  C21: whatever requests arrive, a stored page is never dropped and never changes its size, and
  the page dictionary keeps its shape: one-byte table ids, no table twice, no page of more than
  65535 bytes.
\<close>

theorem pages_keep_sizes:
  assumes "pages_ok (page_data p)" and "dict_get (page_data p) t = Some page"
  shows "(\<exists>page'. dict_get (page_data (fst (fold serve reqs (p, w)))) t = Some page' \<and> length page' = length page)
    \<and> pages_ok (page_data (fst (fold serve reqs (p, w))))"
  using served_page.inv_run [of t "length page" "(p, w)" reqs] served_pages.inv_run [of "(p, w)" reqs] assms
  by (auto simp: has_page_def list_all_iff)

lemma sample_protocol_pages_ok: "pages_ok (page_data sample_protocol)"
  by (simp add: pages_ok_def sample_protocol_def set_page_data_def SerialProtocol_def)

theorem pages_keep_sizes_witness:
  "\<exists>page'. dict_get (page_data (fst (fold serve [can_request 0x77 0 4 3 2 @ [7, 8]] (sample_protocol, ())))) 4 = Some page'
     \<and> length page' = length (zeros 16)"
  using pages_keep_sizes [OF sample_protocol_pages_ok sample_protocol_page] by (rule conjunct1)

end
