(* ===== verification/PageBuilder.thy ===== *)
theory PageBuilder
  imports Xml IniParser OutpcBuilder EcuSpec
begin

text \<open>
  \<open>ecuSim/src/page_builder.py\<close>, class \<open>PageBuilder\<close>: the configuration pages built from the
  values of an MSQ tune file. The XML parser is a parameter, \<open>fromstring\<close>.
\<close>

section \<open>Pages\<close>

record page_config =
  page_num :: int
  table_id :: nat
  psize :: nat

definition MS2_PAGES :: "page_config list" where
  "MS2_PAGES =
     [\<lparr>page_num = 0, table_id = 0x04, psize = 1024\<rparr>, \<lparr>page_num = 1, table_id = 0x05, psize = 1024\<rparr>,
      \<lparr>page_num = 2, table_id = 0x0A, psize = 1024\<rparr>, \<lparr>page_num = 3, table_id = 0x08, psize = 1024\<rparr>,
      \<lparr>page_num = 4, table_id = 0x09, psize = 1024\<rparr>, \<lparr>page_num = 5, table_id = 0x0B, psize = 1024\<rparr>,
      \<lparr>page_num = 6, table_id = 0x0C, psize = 1024\<rparr>]"

record page_builder =
  pb_config :: ini_config
  pages :: "(nat, bytes) dict"

definition PageBuilder :: "ini_config \<Rightarrow> page_builder" where
  "PageBuilder cfg =
     \<lparr>pb_config = cfg, pages = fold (\<lambda>p. dict_set (table_id p) (zeros (psize p))) MS2_PAGES []\<rparr>"

section \<open>Encoding one constant\<close>

text \<open>\<open>buffer[i]\<close> and \<open>buffer[i] = v\<close>: a negative index counts from the end; a byte is 0 to 255.\<close>

definition py_index :: "bytes \<Rightarrow> int \<Rightarrow> nat result" where
  "py_index buf i =
     (if 0 \<le> i \<and> i < int (length buf) then Inr (nat i)
      else if i < 0 \<and> - int (length buf) \<le> i then Inr (nat (i + int (length buf)))
      else Inl IndexError)"

definition byte_at :: "bytes \<Rightarrow> int \<Rightarrow> int result" where
  "byte_at buf i = bindE (py_index buf i) (\<lambda>k. Inr (uint (buf ! k)))"

definition set_byte :: "bytes \<Rightarrow> int \<Rightarrow> int \<Rightarrow> bytes result" where
  "set_byte buf i v =
     bindE (py_index buf i) (\<lambda>k. if 0 \<le> v \<and> v \<le> 255 then Inr (buf[k := of_int v]) else Inl ValueError)"

text \<open>\<open>a << n\<close>: a negative count raises.\<close>

definition shift_left :: "int \<Rightarrow> int \<Rightarrow> int result" where
  "shift_left a n = (if n < 0 then Inl ValueError else Inr (push_bit (nat n) a))"

text \<open>\<open>int(float(text))\<close>, 0 where it raises \<open>ValueError\<close>.\<close>

definition bits_value :: "string \<Rightarrow> int result" where
  "bits_value text = catchE (bindE (parse_float text) py_int) (\<lambda>e. e = ValueError) (Inr 0)"

definition encode_bits :: "field_def \<Rightarrow> string \<Rightarrow> bytes \<Rightarrow> bytes result" where
  "encode_bits f text buf =
     (case bit_range f of
        None \<Rightarrow> Inr buf
      | Some (lo_bit, hi_bit) \<Rightarrow>
          bindE (bits_value (strip_chars [CHR 0x22] text)) (\<lambda>v.
          bindE (byte_at buf (foffset f)) (\<lambda>current.
          bindE (shift_left 1 (hi_bit - lo_bit + 1)) (\<lambda>top.
          bindE (shift_left (top - 1) lo_bit) (\<lambda>mask.
          bindE (shift_left v lo_bit) (\<lambda>shifted.
          set_byte buf (foffset f) (or (and current (not mask)) (and shifted mask))))))))"

text \<open>\<open>user_value / scale - translate\<close>, or the value itself for a scale of zero.\<close>

definition ms_value :: "field_def \<Rightarrow> pyfloat \<Rightarrow> pyfloat result" where
  "ms_value f v =
     (if py_eq (fscale f) (Fin 0) then Inr v
      else bindE (py_div v (fscale f)) (\<lambda>q. Inr (py_sub q (ftranslate f))))"

text \<open>Round, clamp, pack big-endian; \<open>struct.error\<close> is ignored.\<close>

definition put_value :: "field_def \<Rightarrow> int \<Rightarrow> pyfloat \<Rightarrow> bytes \<Rightarrow> bytes result" where
  "put_value f off v buf =
     bindE (ms_value f v) (\<lambda>ms. bindE (py_round ms) (\<lambda>k.
       catchE (pack_into (BigEndian, fmt_of (dtype f)) buf off (clamp (dtype f) k)) (\<lambda>e. e = StructError) (Inr buf)))"

definition encode_scalar :: "field_def \<Rightarrow> string \<Rightarrow> bytes \<Rightarrow> bytes result" where
  "encode_scalar f text buf =
     (case parse_float text of Inl e \<Rightarrow> Inr buf | Inr v \<Rightarrow> put_value f (foffset f) v buf)"

definition array_values :: "string \<Rightarrow> pyfloat list" where
  "array_values text = List.map (\<lambda>p. case parse_float p of Inr v \<Rightarrow> v | Inl e \<Rightarrow> Fin 0) (words text)"

text \<open>The loop over the values, from element \<open>i\<close> on.\<close>

fun encode_elements :: "field_def \<Rightarrow> nat \<Rightarrow> pyfloat list \<Rightarrow> bytes \<Rightarrow> bytes result" where
  "encode_elements f i [] buf = Inr buf"
| "encode_elements f i (v # vs) buf =
     (let elem_size = int (base_size (dtype f)); off = foffset f + int i * elem_size in
      if int (length buf) < off + elem_size then Inr buf
      else bindE (put_value f off v buf) (encode_elements f (Suc i) vs))"

definition encode_array :: "field_def \<Rightarrow> string \<Rightarrow> bytes \<Rightarrow> bytes result" where
  "encode_array f text buf =
     (let vs = array_values text in if vs = [] then Inr buf else encode_elements f 0 vs buf)"

definition encode_constant :: "nat \<Rightarrow> field_def \<Rightarrow> xml \<Rightarrow> page_builder \<Rightarrow> page_builder result" where
  "encode_constant t f const pb =
     (let text = stripped_text const in
      case dict_get (pages pb) t of
        None \<Rightarrow> Inr pb
      | Some buf \<Rightarrow>
          if foffset f + fsize f > int (length buf) then Inr pb
          else bindE
            (if ftype f = ''bits'' then encode_bits f text buf
             else if ftype f = ''scalar'' then encode_scalar f text buf
             else if ftype f = ''array'' then encode_array f text buf
             else Inr buf)
            (\<lambda>buf'. Inr (pb\<lparr>pages := dict_set t buf' (pages pb)\<rparr>)))"

section \<open>Loading a tune\<close>

text \<open>\<open>next((p for p in MS2_PAGES if p.page_num == page_num), None)\<close>.\<close>

definition find_page :: "int \<Rightarrow> page_config option" where
  "find_page n = List.find (\<lambda>p. page_num p = n) MS2_PAGES"

definition load_constant :: "int \<Rightarrow> nat \<Rightarrow> xml \<Rightarrow> page_builder \<Rightarrow> page_builder result" where
  "load_constant n t const pb =
     (case xget const ''name'' of
        None \<Rightarrow> Inr pb
      | Some nm \<Rightarrow>
          if nm = [] then Inr pb
          else case dict_get (constants (pb_config pb)) nm of
            None \<Rightarrow> Inr pb
          | Some f \<Rightarrow> if fpage f \<noteq> n + 1 then Inr pb else encode_constant t f const pb)"

definition load_page :: "xml \<Rightarrow> page_builder \<Rightarrow> page_builder result" where
  "load_page page_elem pb =
     bindE (case xget page_elem ''number'' of Some s \<Rightarrow> parse_int s | None \<Rightarrow> Inr (- 1)) (\<lambda>n.
       case find_page n of
         None \<Rightarrow> Inr pb
       | Some cfg \<Rightarrow> foldE (load_constant n (table_id cfg)) (findall_ns ''constant'' page_elem) pb)"

definition load_from_msq :: "xml_parser \<Rightarrow> bytes \<Rightarrow> page_builder \<Rightarrow> (bool \<times> page_builder) result" where
  "load_from_msq fromstring file pb =
     (case fromstring (remove_line_prefixes (read_text file)) of
        None \<Rightarrow> Inr (False, pb)
      | Some doc \<Rightarrow> bindE (foldE load_page (findall_ns ''page'' doc) pb) (\<lambda>pb'. Inr (True, pb')))"

definition builder_page :: "nat \<Rightarrow> page_builder \<Rightarrow> bytes" where
  "builder_page t pb = (case dict_get (pages pb) t of Some d \<Rightarrow> d | None \<Rightarrow> zeros 1024)"

definition get_page_slice :: "nat \<Rightarrow> nat \<Rightarrow> nat \<Rightarrow> page_builder \<Rightarrow> bytes" where
  "get_page_slice t off n pb = slice (builder_page t pb) off (off + n)"

definition load_tune_pages :: "xml_parser \<Rightarrow> ini_config \<Rightarrow> bytes \<Rightarrow> page_builder option result" where
  "load_tune_pages fromstring cfg file =
     bindE (load_from_msq fromstring file (PageBuilder cfg)) (\<lambda>(ok, pb). Inr (if ok then Some pb else None))"

section \<open>The pages keep their shape\<close>

definition built_pages :: "(nat, bytes) dict \<Rightarrow> bool" where
  "built_pages d \<longleftrightarrow> List.map (\<lambda>(t, b). (t, length b)) d = List.map (\<lambda>p. (table_id p, psize p)) MS2_PAGES"

lemma PageBuilder_built: "built_pages (pages (PageBuilder cfg))"
  by (simp add: built_pages_def PageBuilder_def MS2_PAGES_def)

lemma set_byte_length: "set_byte buf i v = Inr buf' \<Longrightarrow> length buf' = length buf"
  by (auto simp: set_byte_def bindE_eq_Inr split: if_splits)

lemma encode_bits_length: "encode_bits f text buf = Inr buf' \<Longrightarrow> length buf' = length buf"
  by (auto simp: encode_bits_def bindE_eq_Inr set_byte_length split: option.splits)

lemma put_value_Inr:
  assumes "put_value f off v buf = Inr buf'"
  shows "buf' = buf \<or> (\<exists>ms k. ms_value f v = Inr ms \<and> py_round ms = Inr k \<and>
    pack_into (BigEndian, fmt_of (dtype f)) buf off (clamp (dtype f) k) = Inr buf')"
proof -
  have "(case p of Inr b \<Rightarrow> b | Inl e \<Rightarrow> buf) = buf' \<Longrightarrow> buf' = buf \<or> p = Inr buf'" for p :: "bytes result"
    by (cases p) simp_all
  with assms show ?thesis by (auto simp: put_value_def bindE_eq_Inr pack_into_caught)
qed

lemma put_value_length: "put_value f off v buf = Inr buf' \<Longrightarrow> length buf' = length buf"
  using put_value_Inr pack_into_length by blast

lemma encode_elements_length: "encode_elements f i vs buf = Inr buf' \<Longrightarrow> length buf' = length buf"
  by (induction f i vs buf rule: encode_elements.induct)
    (auto simp: Let_def bindE_eq_Inr put_value_length split: if_splits)

lemma built_pages_set:
  "built_pages d \<Longrightarrow> dict_get d t = Some buf \<Longrightarrow> length buf' = length buf \<Longrightarrow> built_pages (dict_set t buf' d)"
proof -
  have "dict_get d t = Some buf \<Longrightarrow> length buf' = length buf \<Longrightarrow>
      List.map (\<lambda>(t, b). (t, length b)) (dict_set t buf' d) = List.map (\<lambda>(t, b). (t, length b)) d"
    by (induction d) (auto split: if_splits)
  then show "built_pages d \<Longrightarrow> dict_get d t = Some buf \<Longrightarrow> length buf' = length buf \<Longrightarrow> built_pages (dict_set t buf' d)"
    by (simp add: built_pages_def)
qed

lemma encode_constant_built:
  "encode_constant t f const pb = Inr pb' \<Longrightarrow> built_pages (pages pb) \<Longrightarrow>
     built_pages (pages pb') \<and> pb_config pb' = pb_config pb"
  by (auto simp: encode_constant_def encode_scalar_def encode_array_def Let_def bindE_eq_Inr
      intro!: built_pages_set dest: encode_bits_length put_value_length encode_elements_length
      split: option.splits if_splits sum.splits)

lemma load_page_built:
  "load_page e pb = Inr pb' \<Longrightarrow> built_pages (pages pb) \<Longrightarrow> built_pages (pages pb') \<and> pb_config pb' = pb_config pb"
proof -
  assume run: "load_page e pb = Inr pb'" and ok: "built_pages (pages pb)"
  have "foldE (load_constant n t) cs pb = Inr pb' \<Longrightarrow> built_pages (pages pb') \<and> pb_config pb' = pb_config pb" for n t cs
    by (erule foldE_invariant [where P = "\<lambda>x. built_pages (pages x) \<and> pb_config x = pb_config pb"])
      (use ok in \<open>auto simp: load_constant_def dest: encode_constant_built split: option.splits if_splits\<close>)
  with run ok show ?thesis by (auto simp: load_page_def bindE_eq_Inr split: option.splits)
qed

lemma load_from_msq_built:
  assumes "load_from_msq fromstring file pb = Inr (ok, pb')" and "built_pages (pages pb)"
  shows "built_pages (pages pb') \<and> pb_config pb' = pb_config pb"
proof -
  have "foldE load_page es pb = Inr pb' \<Longrightarrow> built_pages (pages pb') \<and> pb_config pb' = pb_config pb" for es
    by (erule foldE_invariant [where P = "\<lambda>x. built_pages (pages x) \<and> pb_config x = pb_config pb"])
      (use assms(2) in \<open>auto dest: load_page_built\<close>)
  with assms show ?thesis by (auto simp: load_from_msq_def bindE_eq_Inr split: option.splits)
qed

section \<open>Properties of the page builder\<close>

lemma PageBuilder_pages_ok: "built_pages d \<Longrightarrow> pages_ok d"
proof -
  assume b: "built_pages d"
  from arg_cong [OF b [unfolded built_pages_def], of "List.map fst"]
  have keys: "List.map fst d = [0x04, 0x05, 0x0A, 0x08, 0x09, 0x0B, 0x0C]"
    by (simp add: comp_def case_prod_beta MS2_PAGES_def)
  from arg_cong [OF b [unfolded built_pages_def], of "\<lambda>l. set l"]
  have "(\<lambda>(t, b). (t, length b)) ` set d = (\<lambda>p. (table_id p, psize p)) ` set MS2_PAGES" by simp
  then have "(t, length b) \<in> (\<lambda>p. (table_id p, psize p)) ` set MS2_PAGES" if "(t, b) \<in> set d" for t b
    using that by force
  then have "t < 256 \<and> length b \<le> 65535" if "(t, b) \<in> set d" for t b
    using that by (fastforce simp: MS2_PAGES_def)
  with keys show ?thesis by (auto simp: pages_ok_def)
qed

text \<open>
  Loading a tune changes the contents of the pages only. Whatever the file and its XML, when
  the load returns, the builder has the seven pages of \<open>MS2_PAGES\<close> under their table ids, each of
  its size, ready to be served and saved.
\<close>

lemma load_from_msq_keeps_pages:
  assumes "load_from_msq fromstring file (PageBuilder cfg) = Inr (ok, pb)"
  shows "List.map (\<lambda>(t, b). (t, length b)) (pages pb) = List.map (\<lambda>p. (table_id p, psize p)) MS2_PAGES \<and>
    pages_ok (pages pb) \<and> pb_config pb = cfg"
  using load_from_msq_built [OF assms PageBuilder_built] PageBuilder_pages_ok [of "pages pb"]
  by (simp add: built_pages_def PageBuilder_def)

lemma encode_scalar_value_aux:
  assumes "placed (length buf) f" and "parse_float text = Inr v" and "ms_value f v = Inr (Fin x)"
  shows "\<exists>buf'. encode_scalar f text buf = Inr buf' \<and>
    unpack_from (struct_format f) buf' (foffset f) = Inr (clamp (dtype f) (round_even x)) \<and>
    (\<forall>g. apart f g \<longrightarrow> unpack_from (struct_format g) buf' (foffset g) = unpack_from (struct_format g) buf (foffset g))"
proof -
  let ?k = "clamp (dtype f) (round_even x)"
  have "\<exists>b. pack_into (BigEndian, fmt_of (dtype f)) buf (foffset f) ?k = Inr b"
    using assms(1) by (intro pack_into_nonneg) (simp_all add: placed_def calcsize_fmt_of clamp_in_fmt)
  then obtain b where b: "pack_into (BigEndian, fmt_of (dtype f)) buf (foffset f) ?k = Inr b" ..
  then have "encode_scalar f text buf = Inr b"
    using assms(2,3) by (simp add: encode_scalar_def put_value_def)
  moreover have "unpack_from (struct_format f) b (foffset f) = Inr ?k"
    using unpack_from_pack_into [OF b] by (simp add: struct_format_def)
  moreover have "unpack_from (struct_format g) b (foffset g) = unpack_from (struct_format g) buf (foffset g)"
    if "apart f g" for g
    by (rule unpack_from_pack_into_other [OF b])
      (use that assms(1) in \<open>auto simp: apart_def placed_def struct_format_def calcsize_fmt_of\<close>)
  ultimately show ?thesis by blast
qed

text \<open>
  C24: a scalar constant is stored as the nearest integer to \<open>value / scale - translate\<close>, clamped
  to its type, big-endian at its offset, and no constant apart from it changes.
\<close>

theorem encode_scalar_value:
  assumes "placed (length buf) f" and "parse_float text = Inr v" and "ms_value f v = Inr (Fin x)"
  shows "\<exists>buf'. encode_scalar f text buf = Inr buf' \<and>
    unpack_from (struct_format f) buf' (foffset f) = Inr (clamp (dtype f) (round_even x)) \<and>
    (\<forall>g. apart f g \<longrightarrow> unpack_from (struct_format g) buf' (foffset g) = unpack_from (struct_format g) buf (foffset g))"
  using assms by (rule encode_scalar_value_aux)

definition sample_field :: field_def where
  "sample_field = FieldDef ''cfg'' ''scalar'' ''U08'' 3"

lemma parse_float_12: "parse_float ''12'' = Inr (Fin 12)"
proof -
  have rep: "rnd 12 = Fin 12" using representable_int [of 12] by (simp add: representable_def)
  show ?thesis
    by (simp add: parse_float_def drop_underscores_def strip_def strip_by_def rstrip_by_def lstrip_by_def char_classes
        take_sign_def lower_def to_lower_def parse_decimal_def take_exponent_def digits_value_def digit_def rep)
qed

theorem encode_scalar_value_witness:
  "\<exists>buf'. encode_scalar sample_field ''12'' (zeros 8) = Inr buf' \<and> unpack_from (BigEndian, FmtB) buf' 3 = Inr 12"
proof -
  have rep: "rnd 12 = Fin 12" using representable_int [of 12] by (simp add: representable_def)
  note v = parse_float_12
  have "ms_value sample_field (Fin 12) = Inr (Fin 12)"
    by (simp add: ms_value_def sample_field_def FieldDef_def py_sub_def rep)
  from encode_scalar_value [OF _ v this, of "zeros 8"] show ?thesis
    using round_even_of_int [of 12]
    by (auto simp: sample_field_def FieldDef_def placed_def fsize_def base_size_def struct_format_def fmt_of_def
        clamp_def type_range_def)
qed

text \<open>
  C23: a bit field is stored in its bits alone. For a field of bits \<open>lo\<close> to \<open>hi\<close> of one byte, the
  bits of the byte at its offset become those of the value, shifted, and every other bit of the
  byte and every other byte stays.
\<close>

theorem encode_bits_sets_field:
  assumes "bit_range f = Some (int lo, int hi)" and "lo \<le> hi" and "hi \<le> 7"
    and "0 \<le> foffset f" and "foffset f < int (length buf)"
    and "bits_value (strip_chars [CHR 0x22] text) = Inr v"
  shows "\<exists>b. encode_bits f text buf = Inr (buf[nat (foffset f) := b]) \<and>
    (\<forall>j<8. bit b j = (if lo \<le> j \<and> j \<le> hi then bit v (j - lo) else bit (buf ! nat (foffset f)) j))"
proof -
  let ?k = "nat (foffset f)" and ?n = "hi - lo + 1"
  let ?c = "uint (buf ! ?k)" and ?m = "push_bit lo (2 ^ ?n - 1 :: int)"
  let ?r = "or (and ?c (not ?m)) (and (push_bit lo v) ?m)"
  have n: "nat (int hi - int lo + 1) = ?n" using assms(2) by simp
  have m: "bit ?m j \<longleftrightarrow> lo \<le> j \<and> j \<le> hi" for j
    unfolding mask_eq_exp_minus_1 [symmetric] bit_push_bit_iff bit_mask_iff using assms(2) by auto
  have c: "bit ?c j \<longleftrightarrow> j < 8 \<and> bit (buf ! ?k) j" for j
    by (auto simp: bit_uint_iff)
  have r: "bit ?r j = (if lo \<le> j \<and> j \<le> hi then bit v (j - lo) else j < 8 \<and> bit (buf ! ?k) j)" for j
    unfolding bit_or_iff bit_and_iff bit_not_iff m c by (auto simp: bit_push_bit_iff)
  have "take_bit 8 ?r = ?r"
  proof (rule bit_eqI)
    fix j
    show "bit (take_bit 8 ?r) j \<longleftrightarrow> bit ?r j"
      unfolding bit_take_bit_iff r using assms(3) by auto
  qed
  then have range: "0 \<le> ?r" "?r < 2 ^ 8"
    by (metis take_bit_nonnegative, metis take_bit_int_less_exp)
  have idx: "py_index buf (foffset f) = Inr ?k" using assms(4,5) by (simp add: py_index_def)
  have "encode_bits f text buf = Inr (buf[?k := word_of_int ?r])"
    using range assms(1,2,6) by (simp add: encode_bits_def byte_at_def shift_left_def set_byte_def idx n push_bit_of_1)
  moreover have "bit (word_of_int ?r :: byte) j = (if lo \<le> j \<and> j \<le> hi then bit v (j - lo) else bit (buf ! ?k) j)"
    if "j < 8" for j
    using that r [of j] by (simp add: bit_word_of_int_iff)
  ultimately show ?thesis by blast
qed

theorem encode_bits_sets_field_witness:
  "\<exists>b. encode_bits (sample_field\<lparr>bit_range := Some (2, 5)\<rparr>) ''12'' (zeros 8) = Inr ((zeros 8)[3 := b]) \<and>
    (\<forall>j<8. bit b j = (if 2 \<le> j \<and> j \<le> 5 then bit (12 :: int) (j - 2) else bit (zeros 8 ! 3) j))"
proof -
  have q: "strip_chars [CHR 0x22] ''12'' = ''12''"
    by (simp add: strip_chars_def strip_by_def rstrip_by_def lstrip_by_def)
  have v: "bits_value (strip_chars [CHR 0x22] ''12'') = Inr 12"
    by (simp add: bits_value_def q parse_float_12 PyFloat.truncate_def)
  have "foffset (sample_field\<lparr>bit_range := Some (2, 5)\<rparr>) = 3" by (simp add: sample_field_def FieldDef_def)
  with encode_bits_sets_field [of "sample_field\<lparr>bit_range := Some (2, 5)\<rparr>" 2 5 "zeros 8" "''12''" 12] v
  show ?thesis by (simp cong: if_cong)
qed

end
