(* ===== verification/PagesFile.thy ===== *)
theory PagesFile
  imports EcuSpec
begin

text \<open>
  \<open>ecuSim/src/page_builder.py\<close>, functions \<open>save_pages_to_file\<close> and \<open>load_pages_from_file\<close>: the
  file in which the simulator keeps its pages between runs. A file is its bytes, \<open>None\<close> where
  opening it raises \<open>OSError\<close>; an \<open>OSError\<close> of a later read or write is not modelled.
\<close>

section \<open>Writing\<close>

text \<open>The loop over the pages: what has been written, and the exception that stopped it.\<close>

fun write_pages :: "bytes \<Rightarrow> (nat \<times> bytes) list \<Rightarrow> bytes \<times> py_error option" where
  "write_pages out [] = (out, None)"
| "write_pages out ((table_id, data) # rest) =
     (case struct_pack (BigEndian, FmtB) (int table_id) of
        Inl e \<Rightarrow> (out, Some e)
      | Inr t \<Rightarrow>
          (case struct_pack (BigEndian, FmtH) (int (length data)) of
             Inl e \<Rightarrow> (out @ t, Some e)
           | Inr n \<Rightarrow> write_pages (out @ t @ n @ data) rest))"

text \<open>
  The result, or the exception raised (only \<open>OSError\<close> is caught), and the bytes of the file
  afterwards, \<open>None\<close> where it was not touched. \<open>opens\<close>: \<open>open(filepath, "wb")\<close> succeeds.
\<close>

definition save_pages_to_file :: "(nat, bytes) dict \<Rightarrow> bool \<Rightarrow> bool result \<times> bytes option" where
  "save_pages_to_file pages opens =
     (if \<not> opens then (Inr False, None)
      else let out = encode ''MS2P'' @ be_bytes 4 1 in
        case struct_pack (BigEndian, FmtI) (int (length pages)) of
          Inl e \<Rightarrow> (Inl e, Some out)
        | Inr n \<Rightarrow>
            (case write_pages (out @ n) (sort_key fst pages) of
               (out', None) \<Rightarrow> (Inr True, Some out')
             | (out', Some e) \<Rightarrow> (Inl e, Some out')))"

section \<open>Reading\<close>

text \<open>The loop \<open>for _ in range(num_pages)\<close>: \<open>Inr None\<close> is the return at a truncated page.\<close>

primrec load_entries :: "nat \<Rightarrow> bytes \<Rightarrow> (nat, bytes) dict \<Rightarrow> (nat, bytes) dict option result" where
  "load_entries 0 f pages = Inr (Some pages)"
| "load_entries (Suc k) f pages =
     bindE (struct_unpack (BigEndian, FmtB) (take 1 f)) (\<lambda>table_id.
     bindE (struct_unpack (BigEndian, FmtH) (take 2 (drop 1 f))) (\<lambda>size.
       let data = take (nat size) (drop 2 (drop 1 f))
       in if length data \<noteq> nat size then Inr None
          else load_entries k (drop (nat size) (drop 2 (drop 1 f))) (dict_set (nat table_id) data pages)))"

definition load_pages :: "bytes \<Rightarrow> (nat, bytes) dict option result" where
  "load_pages f =
     (if take 4 f \<noteq> encode ''MS2P'' then Inr None
      else bindE (struct_unpack (BigEndian, FmtI) (take 4 (drop 4 f))) (\<lambda>version.
        if version \<noteq> 1 then Inr None
        else bindE (struct_unpack (BigEndian, FmtI) (take 4 (drop 8 f))) (\<lambda>num_pages.
          load_entries (nat num_pages) (drop 12 f) [])))"

text \<open>The handlers turn \<open>struct.error\<close>, the only exception the body raises, into \<open>None\<close>.\<close>

definition load_pages_from_file :: "bytes option \<Rightarrow> (nat, bytes) dict option" where
  "load_pages_from_file file =
     (case file of
        None \<Rightarrow> None
      | Some f \<Rightarrow> (case load_pages f of Inr r \<Rightarrow> r | Inl e \<Rightarrow> None))"

section \<open>One page on file\<close>

fun page_entry :: "nat \<times> bytes \<Rightarrow> bytes" where
  "page_entry (t, d) = [of_nat t] @ be_bytes 2 (length d) @ d"

fun entry_ok :: "nat \<times> bytes \<Rightarrow> bool" where
  "entry_ok (t, d) \<longleftrightarrow> t < 256 \<and> length d \<le> 65535"

definition read_entry :: "bytes \<Rightarrow> ((nat \<times> bytes) \<times> bytes) option" where
  "read_entry f =
     (if length f < 3 then None
      else let n = be_nat (slice f 1 3) in
        if length f < 3 + n then None
        else Some ((unat (f ! 0), take n (drop 3 f)), drop (3 + n) f))"

lemma length_page_entry: "length (page_entry (t, d)) = 3 + length d"
  by simp

lemma entry_size: "length d \<le> 65535 \<Longrightarrow> be_nat (be_bytes 2 (length d)) = length d"
  by (simp add: be_nat_be_bytes)

lemma page_entry_eq: "page_entry (t, d) = of_nat t # of_nat (length d div 256) # of_nat (length d) # d"
  by (simp add: be_bytes_2)

interpretation entries: prefix_codec page_entry read_entry entry_ok
proof
  fix e :: "nat \<times> bytes" and rest assume ok: "entry_ok e"
  obtain t d where e: "e = (t, d)" by (cases e)
  with ok have "be_nat (slice (page_entry e @ rest) 1 3) = length d"
    using be_nat_2 [of "length d"] by (simp add: page_entry_eq slice_def del: be_nat_pair page_entry.simps)
  moreover have "drop (3 + length d) (x # y # z # d @ rest) = rest" for x y z :: byte
    by (simp add: numeral_3_eq_3)
  ultimately show "read_entry (page_entry e @ rest) = Some (e, rest)"
    using ok e by (simp add: read_entry_def page_entry_eq unat_of_nat Let_def del: page_entry.simps)
next
  fix e :: "nat \<times> bytes" and b c assume ok: "entry_ok e" and split: "page_entry e = b @ c" and c: "c \<noteq> []"
  obtain t d where e: "e = (t, d)" by (cases e)
  show "read_entry b = None"
  proof (cases "length b < 3")
    case False
    then obtain x y z b' where b: "b = x # y # z # b'"
      by (metis length_Cons list.exhaust list.size(3) not_less numeral_3_eq_3 zero_less_Suc Suc_less_eq)
    with split e have "[y, z] = [of_nat (length d div 256), of_nat (length d)]"
      by (auto simp: page_entry_eq simp del: page_entry.simps)
    with ok e b be_nat_2 [of "length d"] have "be_nat (slice b 1 3) = length d"
      by (simp add: slice_def del: be_nat_pair)
    moreover have "length b < 3 + length d"
      using arg_cong [OF split, of length] c e by (cases c) auto
    ultimately show ?thesis by (simp add: read_entry_def)
  qed (simp add: read_entry_def)
qed (simp add: read_entry_def)

section \<open>Both directions\<close>

lemma pack_B: "t < 256 \<Longrightarrow> struct_pack (BigEndian, FmtB) (int t) = Inr [of_nat t]"
  by (simp add: struct_pack_def in_fmt_def fmt_lo_def fmt_hi_def order_bytes_def nat_mod_as_int)

lemma write_pages_eq:
  "list_all entry_ok es \<Longrightarrow> write_pages out es = (out @ concat (List.map page_entry es), None)"
proof (induction es arbitrary: out)
  case (Cons e es)
  obtain t d where e: "e = (t, d)" by (cases e)
  with Cons show ?case by (simp add: pack_B pack_H del: be_bytes.simps)
qed simp

lemma unpack_B: "struct_unpack (BigEndian, FmtB) bs = (case bs of [b] \<Rightarrow> Inr (int (unat b)) | _ \<Rightarrow> Inl StructError)"
  by (auto simp: struct_unpack_def fmt_value_def order_bytes_def be_nat_def length_Suc_conv split: list.splits)

lemma unpack_H: "length bs = 2 \<Longrightarrow> struct_unpack (BigEndian, FmtH) bs = Inr (int (be_nat bs))"
  by (simp add: struct_unpack_def fmt_value_def order_bytes_def)

lemma unpack_I: "length bs = 4 \<Longrightarrow> struct_unpack (BigEndian, FmtI) bs = Inr (int (be_nat bs))"
  by (simp add: struct_unpack_def fmt_value_def order_bytes_def)

lemma unpack_short: "length bs < calcsize (snd f) \<Longrightarrow> struct_unpack f bs = Inl StructError"
  by (simp add: struct_unpack_def)

lemma load_entries_step:
  assumes "read_entry f = Some ((t, d), r)"
  shows "load_entries (Suc k) f pages = load_entries k r (dict_set t d pages)"
proof -
  from assms have len: "3 \<le> length f" and n: "be_nat (slice f 1 3) + 3 \<le> length f"
    and t: "t = unat (f ! 0)" and d: "d = take (be_nat (slice f 1 3)) (drop 3 f)"
    and r: "r = drop (3 + be_nat (slice f 1 3)) f"
    by (auto simp: read_entry_def Let_def split: if_splits)
  have "take 1 f = [f ! 0]" using len by (cases f) simp_all
  moreover have "take 2 (drop 1 f) = slice f 1 3" by (simp add: slice_def drop_take)
  moreover have "length (slice f 1 3) = 2" using len by simp
  ultimately show ?thesis
    using n by (simp add: unpack_B unpack_H t d r Let_def add.commute del: One_nat_def)
qed

lemma load_entries_stop:
  assumes "read_entry f = None"
  shows "load_entries (Suc k) f pages \<in> {Inl StructError, Inr None}"
proof (cases "length f < 3")
  case True
  then have "length (take 2 (drop 1 f)) < 2" by simp
  then have "struct_unpack (BigEndian, FmtH) (take 2 (drop 1 f)) = Inl StructError" by (intro unpack_short) simp
  then show ?thesis by (auto simp: unpack_B split: list.splits)
next
  case False
  with assms have n: "length f < 3 + be_nat (slice f 1 3)"
    by (auto simp: read_entry_def Let_def split: if_splits)
  have "take 1 f = [f ! 0]" using False by (cases f) simp_all
  moreover have "take 2 (drop 1 f) = slice f 1 3" by (simp add: slice_def drop_take)
  moreover have "length (slice f 1 3) = 2" using False by simp
  ultimately show ?thesis
    using n False by (auto simp: unpack_B unpack_H Let_def simp del: One_nat_def)
qed

lemma load_entries_stream:
  "list_all entry_ok es \<Longrightarrow>
     load_entries (length es + k) (concat (List.map page_entry es) @ r) pages =
     load_entries k r (fold (\<lambda>(t, d). dict_set t d) es pages)"
proof (induction es arbitrary: pages)
  case (Cons e es)
  obtain t d where e: "e = (t, d)" by (cases e)
  with Cons.prems have "entry_ok (t, d)" by simp
  then have "read_entry (page_entry (t, d) @ (concat (List.map page_entry es) @ r)) =
      Some ((t, d), concat (List.map page_entry es) @ r)" by (rule entries.dec_enc)
  from load_entries_step [OF this] Cons show ?case
    by (simp add: e del: page_entry.simps load_entries.simps)
qed simp

lemma fold_dict_set_fresh:
  "distinct (List.map fst (d @ es)) \<Longrightarrow> fold (\<lambda>(t, x). dict_set t x) es d = d @ es"
proof (induction es arbitrary: d)
  case (Cons e es)
  obtain t x where e: "e = (t, x)" by (cases e)
  have upd: "t \<notin> fst ` set d \<Longrightarrow> dict_set t x d = d @ [(t, x)]" for t :: 'a and x :: 'b and d
    by (induction d) auto
  from Cons.prems e have "dict_set t x d = d @ [(t, x)]" by (intro upd) auto
  with Cons.IH [of "d @ [(t, x)]"] Cons.prems e show ?case by simp
qed simp

lemma sorted_entries_ok:
  "pages_ok d \<Longrightarrow> list_all entry_ok (sort_key fst d)"
  by (auto simp: pages_ok_def list_all_iff)

lemma pages_ok_count: "pages_ok d \<Longrightarrow> length d \<le> 256"
proof -
  assume ok: "pages_ok d"
  then have "length d = card (fst ` set d)"
    using distinct_card [of "List.map fst d"] by (simp add: pages_ok_def)
  also have "\<dots> \<le> card {..<256 :: nat}"
    using ok by (intro card_mono) (auto simp: pages_ok_def)
  finally show ?thesis by simp
qed

definition pages_file :: "(nat, bytes) dict \<Rightarrow> bytes" where
  "pages_file d = encode ''MS2P'' @ be_bytes 4 1 @ be_bytes 4 (length d) @
     concat (List.map page_entry (sort_key fst d))"

lemma pack_I_nat: "n < 4294967296 \<Longrightarrow> struct_pack (BigEndian, FmtI) (int n) = Inr (be_bytes 4 n)"
  by (simp add: struct_pack_def in_fmt_def fmt_lo_def fmt_hi_def order_bytes_def nat_mod_as_int del: be_bytes.simps)

lemma save_eq: "pages_ok d \<Longrightarrow> save_pages_to_file d True = (Inr True, Some (pages_file d))"
proof -
  assume ok: "pages_ok d"
  have "struct_pack (BigEndian, FmtI) (int (length d)) = Inr (be_bytes 4 (length d))"
    using pages_ok_count [OF ok] by (intro pack_I_nat) simp
  then show ?thesis
    using sorted_entries_ok [OF ok]
    by (simp add: save_pages_to_file_def pages_file_def write_pages_eq Let_def del: be_bytes.simps)
qed

text \<open>The header of the file, cut at any length.\<close>

lemma load_pages_header:
  "load_pages (encode ''MS2P'' @ be_bytes 4 1 @ be_bytes 4 n @ r) = load_entries (n mod 4294967296) r []"
proof -
  let ?f = "encode ''MS2P'' @ be_bytes 4 1 @ be_bytes 4 n @ r"
  have "take 4 ?f = encode ''MS2P''" "take 4 (drop 4 ?f) = be_bytes 4 1"
    "take 4 (drop 8 ?f) = be_bytes 4 n" "drop 12 ?f = r"
    by (simp_all del: be_bytes.simps)
  then show ?thesis
    by (simp add: load_pages_def unpack_I be_nat_be_bytes del: be_bytes.simps)
qed

lemma load_pages_short: "length f < 12 \<Longrightarrow> load_pages f \<in> {Inl StructError, Inr None}"
proof -
  assume len: "length f < 12"
  then have "length (take 4 (drop 8 f)) < 4" by simp
  then have n: "struct_unpack (BigEndian, FmtI) (take 4 (drop 8 f)) = Inl StructError" by (intro unpack_short) simp
  show ?thesis
  proof (cases "length (take 4 (drop 4 f)) < 4")
    case True
    then have "struct_unpack (BigEndian, FmtI) (take 4 (drop 4 f)) = Inl StructError" by (intro unpack_short) simp
    then show ?thesis by (simp add: load_pages_def)
  next
    case False
    then have "length (take 4 (drop 4 f)) = 4" by simp
    with n show ?thesis by (auto simp: load_pages_def unpack_I)
  qed
qed

lemma sorted_distinct: "pages_ok d \<Longrightarrow> dict_ok (sort_key fst d)"
  by (metis pages_ok_def distinct_map distinct_sort set_sort)

lemma load_pages_file: "pages_ok d \<Longrightarrow> load_pages (pages_file d @ junk) = Inr (Some (sort_key fst d))"
proof -
  assume ok: "pages_ok d"
  let ?es = "sort_key fst d"
  have "dict_ok ?es" by (rule sorted_distinct [OF ok])
  then have "fold (\<lambda>(t, x). dict_set t x) ?es [] = ?es" using fold_dict_set_fresh [of "[]" ?es] by simp
  moreover have "load_pages (pages_file d @ junk) =
      load_entries (length ?es + 0) (concat (List.map page_entry ?es) @ junk) []"
    using load_pages_header [of "length d" "concat (List.map page_entry ?es) @ junk"] pages_ok_count [OF ok]
    by (simp add: pages_file_def del: be_bytes.simps)
  ultimately show ?thesis
    using load_entries_stream [OF sorted_entries_ok [OF ok], of 0 junk "[]"] by simp
qed

section \<open>Properties of the pages file\<close>

lemma save_load_pages:
  "pages_ok d \<Longrightarrow> save_pages_to_file d True = (Inr True, Some (pages_file d)) \<and>
     load_pages_from_file (Some (pages_file d)) = Some (sort_key fst d)"
  using save_eq [of d] load_pages_file [of d "[]"] by (simp add: load_pages_from_file_def)

text \<open>
  C12: the pages survive a save and a load. A dictionary of well-formed pages is saved without
  an exception, and loading the file gives the same pages by table, in ascending order of the
  table ids, whatever follows them in the file.
\<close>

theorem pages_file_roundtrip:
  assumes "pages_ok d"
  shows "\<exists>f. save_pages_to_file d True = (Inr True, Some f) \<and>
    (\<forall>junk. load_pages_from_file (Some (f @ junk)) = Some (sort_key fst d)) \<and>
    map_of (sort_key fst d) = map_of d"
proof -
  have "map_of (sort_key fst d) = map_of d"
    using assms sorted_distinct [OF assms]
    by (subst map_of_inject_set) (simp_all add: pages_ok_def)
  then show ?thesis
    using save_eq [OF assms] load_pages_file [OF assms] by (simp add: load_pages_from_file_def)
qed

theorem pages_file_roundtrip_witness:
  "\<exists>f. save_pages_to_file [(5, [1, 2]), (4, [3])] True = (Inr True, Some f) \<and>
     load_pages_from_file (Some f) = Some [(4, [3]), (5, [1, 2])]"
proof -
  have ok: "pages_ok [(5, [1, 2]), (4, [3])]" by (simp add: pages_ok_def)
  have "sort_key fst [(5 :: nat, [1, 2 :: byte]), (4, [3])] = [(4, [3]), (5, [1, 2])]"
    by (simp add: sort_key_def)
  with pages_file_roundtrip [OF ok] show ?thesis by (metis append_Nil2)
qed

lemma pages_file_cut:
  assumes ok: "pages_ok d" and n: "n < length (pages_file d)"
  shows "load_pages (take n (pages_file d)) \<in> {Inl StructError, Inr None}"
proof (cases "n < 12")
  case True
  then show ?thesis by (intro load_pages_short) simp
next
  case False
  let ?es = "sort_key fst d" and ?h = "encode ''MS2P'' @ be_bytes 4 1 @ be_bytes 4 (length d)"
  let ?b = "take (n - 12) (concat (List.map page_entry ?es))" and ?c = "drop (n - 12) (concat (List.map page_entry ?es))"
  have h: "length ?h = 12" by simp
  have f: "pages_file d = ?h @ concat (List.map page_entry ?es)" by (simp add: pages_file_def)
  have cut: "take n (pages_file d) = ?h @ ?b"
    using take_beyond [of ?h n "concat (List.map page_entry ?es)"] False unfolding f h by simp
  from n have c: "?c \<noteq> []" using False unfolding f by (simp add: h not_less del: be_bytes.simps)
  obtain ys zs t where es: "?es = ys @ zs" and b: "?b = concat (List.map page_entry ys) @ t"
    and none: "read_entry t = None" and rest: "t @ ?c = concat (List.map page_entry zs)"
    using entries.prefix_split [OF sorted_entries_ok [OF ok], of ?b ?c] by auto
  have "zs \<noteq> []" using rest c by auto
  moreover have "length d = length ys + length zs" using arg_cong [OF es, of length] by simp
  ultimately obtain k where k: "length d = length ys + Suc k" by (cases zs) auto
  have "list_all entry_ok ys" using sorted_entries_ok [OF ok] es by simp
  from load_entries_stream [OF this, of "Suc k" t "[]"]
  have "load_entries (length d) (concat (List.map page_entry ys) @ t) [] =
      load_entries (Suc k) t (fold (\<lambda>(t, d). dict_set t d) ys [])"
    by (simp only: k)
  moreover have "load_pages (take n (pages_file d)) = load_entries (length d) (concat (List.map page_entry ys) @ t) []"
    unfolding cut b using load_pages_header [of "length d"] pages_ok_count [OF ok]
    by (simp del: load_entries.simps be_bytes.simps encode_cmds)
  ultimately have "load_pages (take n (pages_file d)) =
      load_entries (Suc k) t (fold (\<lambda>(t, d). dict_set t d) ys [])" by (rule trans [rotated])
  with load_entries_stop [OF none] show ?thesis by simp
qed

text \<open>
  C13: a pages file cut short anywhere, by an interrupted save or a full disk, is refused:
  loading any proper prefix of a saved file gives \<open>None\<close>, never a subset of the pages.
\<close>

theorem truncated_pages_file_rejected:
  assumes "pages_ok d" and "n < length (pages_file d)"
  shows "load_pages_from_file (Some (take n (pages_file d))) = None"
  using pages_file_cut [OF assms] by (auto simp: load_pages_from_file_def)

theorem truncated_pages_file_rejected_witness:
  "load_pages_from_file (Some (take 15 (pages_file [(4, [3])]))) = None"
  by (rule truncated_pages_file_rejected) (simp_all add: pages_ok_def pages_file_def)

text \<open>What a file can load, whatever its bytes.\<close>

lemma load_entries_ok:
  "load_entries k f pages = Inr (Some d) \<Longrightarrow> pages_ok pages \<Longrightarrow> pages_ok d"
proof (induction k arbitrary: f pages)
  case (Suc k)
  show ?case
  proof (cases "read_entry f")
    case None
    from load_entries_stop [OF None, of k pages] Suc.prems(1) show ?thesis by (simp del: load_entries.simps)
  next
    case (Some e)
    then obtain t x r where e: "read_entry f = Some ((t, x), r)" by (metis prod.exhaust)
    then have "t < 256" and "length x \<le> be_nat (slice f 1 3)" by (auto simp: read_entry_def Let_def split: if_splits)
    moreover have "be_nat (slice f 1 3) < 65536" using be_nat_slice_bound [of f 1 2] by (simp add: numeral_3_eq_3)
    ultimately have "pages_ok (dict_set t x pages)" using Suc.prems(2) by (intro pages_ok_set) simp_all
    with Suc.IH load_entries_step [OF e] Suc.prems(1) show ?thesis by (simp del: load_entries.simps)
  qed
qed simp

lemma loaded_pages_ok_aux: "load_pages_from_file file = Some d \<Longrightarrow> pages_ok d"
proof -
  assume "load_pages_from_file file = Some d"
  then obtain f where "load_pages f = Inr (Some d)"
    by (auto simp: load_pages_from_file_def split: option.splits sum.splits)
  then obtain k r where "load_entries k r [] = Inr (Some d)"
    by (auto simp: load_pages_def bindE_eq_Inr split: if_splits)
  then show ?thesis by (rule load_entries_ok) (simp add: pages_ok_def)
qed



end
