(* ===== verification/RequestBuffer.thy ===== *)
theory RequestBuffer
  imports EcuSpec
begin

text \<open>
  \<open>ecuSim/src/protocol.py\<close>, class \<open>RequestBuffer\<close>, and the loop of
  \<open>ECUSimulator._run_loop\<close> (\<open>ecuSim/simulator.py\<close>) that answers buffered requests: the
  accumulation of received bytes, the unframed \<open>F\<close> query, and the order of the responses.
\<close>

section \<open>State and operations\<close>

text \<open>The buffer's object, with the protocol it refers to and the world of the OUTPC builder.\<close>

record 'w request_buffer =
  protocol :: "'w serial_protocol"
  world :: 'w
  buffer :: bytes

definition RequestBuffer :: "'w serial_protocol \<Rightarrow> 'w \<Rightarrow> 'w request_buffer" where
  "RequestBuffer p w = \<lparr>protocol = p, world = w, buffer = []\<rparr>"

definition add_data :: "bytes \<Rightarrow> 'w request_buffer \<Rightarrow> 'w request_buffer" where
  "add_data data c = c\<lparr>buffer := buffer c @ data\<rparr>"

definition clear :: "'w request_buffer \<Rightarrow> 'w request_buffer" where
  "clear c = c\<lparr>buffer := []\<rparr>"

definition get_next_response ::
  "'w request_buffer \<Rightarrow> bytes result option \<times> 'w request_buffer" where
  "get_next_response c =
     (if buffer c = [] then (None, c)
      else if slice (buffer c) 0 1 = encode ''F'' then
        (Some (Inr (encode (protocol_version (config (protocol c))))), c\<lparr>buffer := drop 1 (buffer c)\<rparr>)
      else let (request, rest) = parse_framed_request (buffer c); c' = c\<lparr>buffer := rest\<rparr>
        in case request of
             Some req \<Rightarrow>
               (let (r, p', w') = handle_request (protocol c) (world c) req
                in (r, c'\<lparr>protocol := p', world := w'\<rparr>))
           | None \<Rightarrow> (None, c'))"

lemma get_next_response_shorter:
  assumes "get_next_response c = (Some x, c')"
  shows "length (buffer c') < length (buffer c)"
proof (cases "buffer c = [] \<or> slice (buffer c) 0 1 = encode ''F''")
  case True
  with assms show ?thesis by (auto simp: get_next_response_def split: if_splits)
next
  case False
  with assms obtain req rest where "parse_framed_request (buffer c) = (Some req, rest)" "buffer c' = rest"
    by (auto simp: get_next_response_def Let_def split: prod.splits option.splits)
  with parse_Some show ?thesis by fastforce
qed

text \<open>
  The loop \<open>while True: response = get_next_response(); if response is None: break; write\<close>:
  the responses written, the exception that ends the program if one is raised, and the state
  afterwards.
\<close>

function process_requests ::
  "'w request_buffer \<Rightarrow> bytes list \<times> py_error option \<times> 'w request_buffer" where
  "process_requests c =
     (case get_next_response c of
        (None, c') \<Rightarrow> ([], None, c')
      | (Some (Inl e), c') \<Rightarrow> ([], Some e, c')
      | (Some (Inr r), c') \<Rightarrow>
          (let (rs, e, c'') = process_requests c' in (r # rs, e, c'')))"
  by pat_completeness auto
termination
  by (relation "measure (\<lambda>c. length (buffer c))") (auto dest: get_next_response_shorter [OF sym])

declare process_requests.simps [simp del]

text \<open>
  A session: the chunks a sequence of reads delivers, each followed by the loop; an exception
  ends it.
\<close>

fun session ::
  "bytes list \<Rightarrow> 'w request_buffer \<Rightarrow> bytes list \<times> py_error option \<times> 'w request_buffer" where
  "session [] c = ([], None, c)"
| "session (chunk # chunks) c =
     (case process_requests (add_data chunk c) of
        (rs, Some e, c') \<Rightarrow> (rs, Some e, c')
      | (rs, None, c') \<Rightarrow>
          (let (rs', e, c'') = session chunks c' in (rs @ rs', e, c'')))"

section \<open>What a client sends\<close>

text \<open>The unframed \<open>F\<close> query, or a frame.\<close>

datatype message = VersionQuery | Framed bytes

fun message_bytes :: "message \<Rightarrow> bytes" where
  "message_bytes VersionQuery = [0x46]"
| "message_bytes (Framed p) = frame p"

fun message_ok :: "message \<Rightarrow> bool" where
  "message_ok VersionQuery = True"
| "message_ok (Framed p) = payload_ok p"

text \<open>The response a message deserves, however it arrives.\<close>

fun answer :: "'w request_buffer \<Rightarrow> message \<Rightarrow> bytes result option \<times> 'w request_buffer" where
  "answer c VersionQuery = (Some (Inr (encode (protocol_version (config (protocol c))))), c)"
| "answer c (Framed p) =
     (let (r, p', w') = handle_request (protocol c) (world c) p
      in (r, c\<lparr>protocol := p', world := w'\<rparr>))"

text \<open>The messages answered one after the other, up to the first exception.\<close>

fun answers :: "'w request_buffer \<Rightarrow> message list \<Rightarrow> bytes list \<times> py_error option \<times> 'w request_buffer" where
  "answers c [] = ([], None, c)"
| "answers c (m # ms) =
     (case answer c m of
        (Some (Inr r), c') \<Rightarrow> (let (rs, e, c'') = answers c' ms in (r # rs, e, c''))
      | (Some (Inl e), c') \<Rightarrow> ([], Some e, c')
      | (None, c') \<Rightarrow> answers c' ms)"

text \<open>The message at the front of a buffer, if one is complete there.\<close>

definition next_message :: "bytes \<Rightarrow> (message \<times> bytes) option" where
  "next_message b =
     (if b = [] then None
      else if hd b = 0x46 then Some (VersionQuery, tl b)
      else case parse_framed_request b of (Some p, r) \<Rightarrow> Some (Framed p, r) | (None, r) \<Rightarrow> None)"

lemma frame_hd: "payload_ok p \<Longrightarrow> hd (frame p) \<noteq> 0x46"
proof -
  assume ok: "payload_ok p"
  then have "length p div 256 \<le> 4"
    using div_le_mono [of "length p" 1024 256] by (simp add: payload_ok_def)
  then have "length p div 256 = 0 \<or> length p div 256 = 1 \<or> length p div 256 = 2
      \<or> length p div 256 = 3 \<or> length p div 256 = 4" by arith
  then have "(of_nat (length p div 256) :: byte) \<noteq> 0x46" by auto
  then show ?thesis by (simp add: frame_def numeral_2_eq_2)
qed

lemma frame_nonempty [simp]: "frame p \<noteq> []"
  using length_frame [of p] by (metis add_is_0 length_0_conv zero_neq_numeral)

interpretation wire: prefix_codec message_bytes next_message message_ok
proof
  fix x rest assume "message_ok x"
  then show "next_message (message_bytes x @ rest) = Some (x, rest)"
    by (cases x) (simp_all add: next_message_def parse_frame frame_hd)
next
  fix x b c assume ok: "message_ok x" and split: "message_bytes x = b @ c" and c: "c \<noteq> []"
  show "next_message b = None"
  proof (cases "b = []")
    case False
    with split c ok obtain p where x: "x = Framed p" by (cases x) (auto simp: append_eq_Cons_conv Cons_eq_append_conv)
    with ok split c have "parse_framed_request b = (None, b)" by (auto intro: parse_prefix)
    moreover have "hd b \<noteq> 0x46"
      using frame_hd [of p] ok split False x by (cases b) auto
    ultimately show ?thesis by (simp add: next_message_def)
  qed (simp add: next_message_def)
qed (simp add: next_message_def)

section \<open>Serving a stream of messages\<close>

lemma answer_buffer:
  "answer (c\<lparr>buffer := b\<rparr>) m = (fst (answer c m), (snd (answer c m))\<lparr>buffer := b\<rparr>)"
  by (cases m) (simp_all split: prod.splits)

lemma answer_keeps_buffer: "answer c m = (x, c') \<Longrightarrow> buffer c' = buffer c"
  by (cases m) (auto split: prod.splits)

lemma handle_request_Some: "req \<noteq> [] \<Longrightarrow> \<exists>r. fst (handle_request p w req) = Some r"
  by (simp add: handle_request_hd Let_def case_prod_beta)

lemma answer_Some: "message_ok m \<Longrightarrow> \<exists>r c'. answer c m = (Some r, c')"
proof (cases m)
  case (Framed p)
  assume "message_ok m"
  with Framed have "p \<noteq> []" by (auto simp: payload_ok_def)
  then have "\<exists>r. fst (handle_request (protocol c) (world c) p) = Some r"
    by (rule handle_request_Some)
  then obtain r where "fst (handle_request (protocol c) (world c) p) = Some r" by (elim exE)
  with Framed show ?thesis
    by (cases "handle_request (protocol c) (world c) p") simp
qed simp

lemma get_next_message:
  assumes "next_message (buffer c) = Some (m, r)"
  shows "get_next_response c = (fst (answer c m), (snd (answer c m))\<lparr>buffer := r\<rparr>)"
proof -
  from assms have ne: "buffer c \<noteq> []" by (auto simp: next_message_def)
  show ?thesis
  proof (cases "hd (buffer c) = 0x46")
    case True
    with assms ne have "m = VersionQuery" "r = drop 1 (buffer c)"
      by (auto simp: next_message_def drop_Suc)
    with True ne show ?thesis by (simp add: get_next_response_def slice_cmd)
  next
    case False
    with assms ne obtain p where "m = Framed p" "parse_framed_request (buffer c) = (Some p, r)"
      by (auto simp: next_message_def split: prod.splits option.splits)
    with False ne show ?thesis
      by (simp add: get_next_response_def slice_cmd Let_def split: prod.splits)
  qed
qed

text \<open>A buffer whose bytes wait for more.\<close>

definition waiting :: "bytes \<Rightarrow> bool" where
  "waiting b \<longleftrightarrow> b = [] \<or> (hd b \<noteq> 0x46 \<and> parse_framed_request b = (None, b))"

lemma process_waiting: "waiting (buffer c) \<Longrightarrow> process_requests c = ([], None, c)"
  by (subst process_requests.simps)
    (auto simp: waiting_def get_next_response_def slice_cmd Let_def)

lemma answers_buffer:
  "answers (c\<lparr>buffer := b\<rparr>) ms =
     (case answers c ms of (rs, e, c') \<Rightarrow> (rs, e, c'\<lparr>buffer := b\<rparr>))"
proof (induction ms arbitrary: c)
  case (Cons m ms)
  then show ?case by (auto simp: answer_buffer split: prod.splits option.splits sum.splits)
qed simp

lemma answers_append:
  "answers c (ms @ ms') =
     (case answers c ms of
        (rs, Some e, c') \<Rightarrow> (rs, Some e, c')
      | (rs, None, c') \<Rightarrow> (let (rs', e, c'') = answers c' ms' in (rs @ rs', e, c'')))"
proof (induction ms arbitrary: c)
  case (Cons m ms)
  then show ?case by (auto split: prod.splits option.splits sum.splits)
qed (auto split: prod.splits)

lemma process_stream:
  assumes "list_all message_ok ms" and "buffer c = concat (List.map message_bytes ms) @ t" and "waiting t"
    and "answers c ms = (rs, e, c')"
  shows "\<exists>b. process_requests c = (rs, e, c'\<lparr>buffer := b\<rparr>) \<and> (e = None \<longrightarrow> b = t)"
  using assms
proof (induction ms arbitrary: c rs c')
  case Nil
  then show ?case by (intro exI [of _ t]) (auto simp: process_waiting)
next
  case (Cons m ms)
  let ?rest = "concat (List.map message_bytes ms) @ t"
  from Cons.prems(1) obtain x d where x: "answer c m = (Some x, d)" using answer_Some by fastforce
  have "next_message (buffer c) = Some (m, ?rest)"
    using Cons.prems(1,2) wire.dec_enc [of m ?rest] by simp
  from get_next_message [OF this] x
  have step: "get_next_response c = (Some x, d\<lparr>buffer := ?rest\<rparr>)" by simp
  show ?case
  proof (cases x)
    case (Inl err)
    with Cons.prems(4) x have "rs = []" "e = Some err" "c' = d" by auto
    with step Inl show ?thesis by (subst process_requests.simps) (auto intro: exI [of _ ?rest])
  next
    case (Inr r)
    with Cons.prems(4) x obtain rs' where rs: "rs = r # rs'" and ans: "answers d ms = (rs', e, c')"
      by (auto split: prod.splits)
    from ans have "answers (d\<lparr>buffer := ?rest\<rparr>) ms = (rs', e, c'\<lparr>buffer := ?rest\<rparr>)"
      by (simp add: answers_buffer)
    with Cons.IH [of "d\<lparr>buffer := ?rest\<rparr>" rs' "c'\<lparr>buffer := ?rest\<rparr>"] Cons.prems(1,3)
    obtain b where "process_requests (d\<lparr>buffer := ?rest\<rparr>) = (rs', e, c'\<lparr>buffer := b\<rparr>)" "e = None \<longrightarrow> b = t"
      by auto
    with step Inr rs show ?thesis by (subst process_requests.simps) auto
  qed
qed

text \<open>The tail of a cut stream waits: its message is not complete.\<close>

lemma tail_waiting:
  assumes ok: "list_all message_ok zs" and eq: "t @ c = concat (List.map message_bytes zs)"
    and none: "next_message t = None"
  shows "waiting t"
proof (cases "t = []")
  case False
  with eq obtain z zs' where zs: "zs = z # zs'" by (cases zs) auto
  have short: "length t < length (message_bytes z)"
  proof (rule ccontr)
    assume "\<not> length t < length (message_bytes z)"
    with eq zs have "take (length (message_bytes z)) t = message_bytes z"
      by (auto simp: append_eq_append_conv_if split: if_splits)
    then have "t = message_bytes z @ drop (length (message_bytes z)) t"
      by (metis append_take_drop_id)
    moreover have "message_ok z" using ok zs by simp
    ultimately have "next_message t = Some (z, drop (length (message_bytes z)) t)"
      by (metis wire.dec_enc)
    with none show False by simp
  qed
  with eq zs have "take (length t) (message_bytes z) = t"
    by (simp add: append_eq_append_conv_if)
  then have split: "message_bytes z = t @ drop (length t) (message_bytes z)"
    by (metis append_take_drop_id)
  show ?thesis
  proof (cases z)
    case VersionQuery
    with short False show ?thesis by simp
  next
    case (Framed p)
    with ok zs have p: "payload_ok p" by simp
    moreover have "parse_framed_request t = (None, t)"
      using split short Framed by (intro parse_prefix [OF p]) auto
    moreover have "hd t \<noteq> 0x46"
      using frame_hd [OF p] split False Framed by (metis hd_append2 message_bytes.simps(2))
    ultimately show ?thesis by (simp add: waiting_def)
  qed
qed (simp add: waiting_def)

text \<open>However the stream is cut into chunks, the responses are those of the messages in order.\<close>

lemma session_stream:
  assumes "list_all message_ok ms" and "buffer c @ concat chunks = concat (List.map message_bytes ms)"
    and "next_message (buffer c) = None" and "answers c ms = (rs, e, c')"
  shows "\<exists>b. session chunks c = (rs, e, c'\<lparr>buffer := b\<rparr>) \<and> (e = None \<longrightarrow> b = [])"
  using assms
proof (induction chunks arbitrary: c ms rs c')
  case Nil
  have "ms = []"
  proof (cases ms)
    case (Cons m ms')
    with Nil.prems(1,2) have "next_message (buffer c) = Some (m, concat (List.map message_bytes ms'))"
      using wire.dec_enc by simp
    with Nil.prems(3) show ?thesis by simp
  qed simp
  with Nil.prems show ?case by (auto intro: exI [of _ "[]"])
next
  case (Cons chunk chunks)
  let ?c = "add_data chunk c"
  from Cons.prems(2) have "concat (List.map message_bytes ms) = (buffer c @ chunk) @ concat chunks" by simp
  from wire.prefix_split [OF Cons.prems(1) this] obtain ys zs t where
    ms: "ms = ys @ zs" and buf: "buffer c @ chunk = concat (List.map message_bytes ys) @ t"
    and none: "next_message t = None" and rest: "t @ concat chunks = concat (List.map message_bytes zs)"
    by blast
  have ok: "list_all message_ok ys" "list_all message_ok zs" using Cons.prems(1) ms by simp_all
  have wait: "waiting t" by (rule tail_waiting [OF ok(2) rest none])
  obtain rs1 e1 c1 where a1: "answers c ys = (rs1, e1, c1)" by (cases "answers c ys")
  then have "answers ?c ys = (rs1, e1, c1\<lparr>buffer := buffer c @ chunk\<rparr>)"
    by (simp add: add_data_def answers_buffer)
  with process_stream [OF ok(1) _ wait, of ?c] buf obtain b where
    b: "process_requests ?c = (rs1, e1, c1\<lparr>buffer := b\<rparr>)" "e1 = None \<longrightarrow> b = t"
    by (fastforce simp: add_data_def)
  show ?case
  proof (cases e1)
    case None
    with b have pr: "process_requests ?c = (rs1, None, c1\<lparr>buffer := t\<rparr>)" by simp
    obtain rs2 e2 c2 where a2: "answers c1 zs = (rs2, e2, c2)" by (cases "answers c1 zs")
    with a1 None ms Cons.prems(4) have res: "rs = rs1 @ rs2" "e = e2" "c' = c2"
      by (simp_all add: answers_append)
    have "answers (c1\<lparr>buffer := t\<rparr>) zs = (rs2, e2, c2\<lparr>buffer := t\<rparr>)"
      using a2 by (simp add: answers_buffer)
    with Cons.IH [of zs "c1\<lparr>buffer := t\<rparr>" rs2 "c2\<lparr>buffer := t\<rparr>"] ok(2) rest none res(2)
    obtain b2 where "session chunks (c1\<lparr>buffer := t\<rparr>) = (rs2, e2, c2\<lparr>buffer := b2\<rparr>)" "e2 = None \<longrightarrow> b2 = []"
      by auto
    with pr res show ?thesis by auto
  next
    case (Some err)
    with a1 ms Cons.prems(4) have "rs = rs1" "e = Some err" "c' = c1"
      by (simp_all add: answers_append)
    with Some b show ?thesis by auto
  qed
qed

section \<open>Properties of the request loop\<close>

text \<open>
  C1: the simulator answers a stream of requests in order, however the stream arrives. For any
  cut of the bytes of the messages into reads, starting from an empty buffer, the session writes
  exactly the responses of the messages one after the other, up to the first exception, and
  reaches the state they reach; without an exception the buffer ends empty.
\<close>

theorem session_answers_stream:
  assumes "list_all message_ok ms" and "concat chunks = concat (List.map message_bytes ms)" and "buffer c = []"
  shows "\<exists>b. session chunks c =
      (fst (answers c ms), fst (snd (answers c ms)), (snd (snd (answers c ms)))\<lparr>buffer := b\<rparr>)
    \<and> (fst (snd (answers c ms)) = None \<longrightarrow> b = [])"
  using session_stream [OF assms(1), of c chunks] assms(2,3) by (simp add: wire.dec_Nil)

theorem session_answers_stream_witness:
  "\<exists>b. fst (session [[0x46, 0x00], [0x01, 0x51] @ be_bytes 4 (unat (crc32 [0x51]))]
        (RequestBuffer (SerialProtocol None) ())) =
      fst (answers (RequestBuffer (SerialProtocol None) ()) [VersionQuery, Framed [0x51]])"
  using session_answers_stream [of "[VersionQuery, Framed [0x51]]"
      "[[0x46, 0x00], [0x01, 0x51] @ be_bytes 4 (unat (crc32 [0x51]))]" "RequestBuffer (SerialProtocol None) ()"]
  by (auto simp: RequestBuffer_def payload_ok_def frame_def be_bytes_2 simp del: be_bytes.simps answers.simps session.simps)

lemma get_next_response_buffer:
  "buffer (snd (get_next_response c)) =
     (if buffer c = [] then []
      else if hd (buffer c) = 0x46 then tl (buffer c)
      else snd (parse_framed_request (buffer c)))"
  by (auto simp: get_next_response_def slice_cmd Let_def drop_Suc split: prod.splits option.splits)

lemma waits_bound: "snd (parse_framed_request b) = b \<Longrightarrow> length b < 1030"
  by (auto simp: parse_waits_iff)

text \<open>
  Buffered bytes are consumed from the front and never piled up for good. Each call of
  \<open>get_next_response\<close> leaves an end of the buffer, strictly shorter whenever a response was
  produced or the buffer holds 1030 bytes or more, the largest frame the receiver accepts.
\<close>

lemma buffer_progress:
  assumes "get_next_response c = (x, c')"
  shows "(\<exists>taken. buffer c = taken @ buffer c') \<and>
    (x \<noteq> None \<or> 1030 \<le> length (buffer c) \<longrightarrow> length (buffer c') < length (buffer c))"
proof
  from assms have buf: "buffer c' = buffer (snd (get_next_response c))" by simp
  show suf: "\<exists>taken. buffer c = taken @ buffer c'"
    using parse_suffix [of "buffer c"] unfolding buf get_next_response_buffer
    by (cases "buffer c") (auto intro: exI [of _ "[hd (buffer c)]"])
  show "x \<noteq> None \<or> 1030 \<le> length (buffer c) \<longrightarrow> length (buffer c') < length (buffer c)"
  proof
    assume "x \<noteq> None \<or> 1030 \<le> length (buffer c)"
    then consider y where "x = Some y" | "1030 \<le> length (buffer c)" by auto
    then show "length (buffer c') < length (buffer c)"
    proof cases
      case 1
      with assms get_next_response_shorter show ?thesis by simp
    next
      case 2
      then have "buffer c \<noteq> []" by auto
      with 2 waits_bound [of "buffer c"] have "buffer c' \<noteq> buffer c"
        unfolding buf get_next_response_buffer by (auto simp: tl_Nil dest: arg_cong [of _ _ length])
      with suf show ?thesis by (auto simp: less_le)
    qed
  qed
qed

text \<open>
  One stray byte that is neither \<open>F\<close> nor the start of a legal size is skipped, but the
  complete request behind it is not answered in the same pass: the loop stops at the byte and
  leaves the whole frame buffered until more data arrive.
\<close>

lemma stray_byte_delays_response:
  assumes "payload_ok p" and "5 \<le> unat j" and "j \<noteq> 0x46" and "buffer c = j # frame p"
  shows "process_requests c = ([], None, c\<lparr>buffer := frame p\<rparr>)"
proof -
  obtain f fs where f: "frame p = f # fs" by (cases "frame p") simp_all
  have "be_nat (slice (j # frame p) 0 2) = unat j * 256 + unat f"
    by (simp add: f slice_def)
  then have "parse_framed_request (j # frame p) = (None, frame p)"
    using assms(1,2) by (subst parse_bad_size) (auto simp: payload_ok_def)
  with assms(3,4) show ?thesis
    by (subst process_requests.simps) (simp add: get_next_response_def slice_cmd Let_def)
qed

end
