(* ===== verification/Simulator.thy ===== *)
theory Simulator
  imports EngineRealtime PageBuilder PagesFile RequestBuffer
begin

text \<open>
  \<open>ecuSim/simulator.py\<close>, class \<open>ECUSimulator\<close>: how the pages are initialised, the iterations of
  the main loop, and what is saved at the end. \<open>Programs\<close> adds the terminal, the files and the printed lines.
\<close>

section \<open>State and start\<close>

text \<open>
  The request buffer holds the protocol and the world of its OUTPC builder, which holds the
  engine. \<open>has_pages_file\<close>: a pages file was given.
\<close>

record simulator =
  conn :: "ecu_world request_buffer"
  draws :: rng
  update_hz :: pyfloat
  has_pages_file :: bool
  pages_source :: string
  request_count :: nat
  last_update :: pyfloat
  last_stats :: pyfloat

text \<open>\<open>_init_pages\<close>: \<open>file\<close> is what the pages file holds, \<open>None\<close> if there is none.\<close>

definition set_pages :: "(nat, bytes) dict \<Rightarrow> 'w serial_protocol \<Rightarrow> 'w serial_protocol" where
  "set_pages ps p = fold (\<lambda>(t, d). set_page_data t d) ps p"

definition init_pages ::
  "bytes option \<Rightarrow> page_builder option \<Rightarrow> 'w serial_protocol \<Rightarrow> string \<times> 'w serial_protocol" where
  "init_pages file pb p =
     (case (if file = None then None else load_pages_from_file file) of
        Some (e # es) \<Rightarrow> (''saved file'', set_pages (e # es) p)
      | _ \<Rightarrow>
          (case pb of
             Some b \<Rightarrow> (''MSQ tune file'', set_pages (List.map (\<lambda>c. (table_id c, builder_page (table_id c) b)) MS2_PAGES) p)
           | None \<Rightarrow> (''empty (will capture from TunerStudio)'',
               set_pages (List.map (\<lambda>c. (table_id c, zeros (psize c))) MS2_PAGES) p)))"

text \<open>\<open>ECUSimulator(...)\<close>: the engine takes its start time from the clock, then the simulator its own.\<close>

definition ECUSimulator ::
  "ini_config \<Rightarrow> page_builder option \<Rightarrow> pyfloat \<Rightarrow> bytes option option \<Rightarrow> bool \<Rightarrow> pyfloat stream \<Rightarrow> rng \<Rightarrow> simulator" where
  "ECUSimulator cfg pb hz pfile dbg clk g =
     (let state = EngineState (shd clk);
          w = \<lparr>builder = OUTPCBuilder cfg dbg, scenario = ScenarioRunner state, clock = stl (stl clk)\<rparr>;
          proto_config = ProtocolConfig\<lparr>signature := ini_signature cfg, och_block_size := nat (ini_block_size cfg)\<rparr>;
          p0 = set_outpc_builder build (SerialProtocol (Some proto_config));
          (source, p) = init_pages (case pfile of Some f \<Rightarrow> f | None \<Rightarrow> None) pb p0
      in \<lparr>conn = RequestBuffer p w, draws = g, update_hz = hz, has_pages_file = (pfile \<noteq> None),
          pages_source = source, request_count = 0, last_update = shd (stl clk), last_stats = shd (stl clk)\<rparr>)"

section \<open>The main loop\<close>

text \<open>The two readings of the clock at the head of \<open>_run_loop\<close>.\<close>

definition start_loop :: "pyfloat \<Rightarrow> pyfloat \<Rightarrow> simulator \<Rightarrow> simulator" where
  "start_loop t1 t2 s = s\<lparr>last_update := t1, last_stats := t2\<rparr>"

text \<open>
  What one iteration meets: the time it reads first, the times the OUTPC builder will read, and
  the bytes that \<open>select\<close> and \<open>os.read\<close> deliver, none where there are none or the read fails.
\<close>

record loop_input =
  time_now :: pyfloat
  times_later :: "pyfloat stream"
  received :: bytes

text \<open>\<open>time.sleep(1.0 / self.update_hz)\<close>.\<close>

definition loop_sleep :: "pyfloat \<Rightarrow> unit result" where
  "loop_sleep hz = bindE (py_div (Fin 1) hz) py_sleep"

text \<open>
  One iteration: the responses written, the exception that ends the loop if one is raised, and
  the state afterwards.
\<close>

definition loop_step :: "loop_input \<Rightarrow> simulator \<Rightarrow> bytes list \<times> py_error option \<times> simulator" where
  "loop_step i s =
     (let dt = py_sub (time_now i) (last_update s);
          s1 = s\<lparr>last_update := time_now i\<rparr>;
          w = (world (conn s))\<lparr>clock := times_later i\<rparr>
      in case tick dt (scenario w) (draws s) of
           (Inl e, g) \<Rightarrow> ([], Some e, s1\<lparr>draws := g\<rparr>)
         | (Inr r, g) \<Rightarrow>
             (let c = add_data (received i) ((conn s)\<lparr>world := w\<lparr>scenario := r\<rparr>\<rparr>);
                  (rs, e, c') = process_requests c;
                  s2 = s1\<lparr>draws := g, conn := c', request_count := request_count s + length rs\<rparr>
              in case e of
                   Some x \<Rightarrow> (rs, Some x, s2)
                 | None \<Rightarrow>
                     (let s3 = (if py_lt (Fin 2) (py_sub (time_now i) (last_stats s)) then s2\<lparr>last_stats := time_now i\<rparr> else s2)
                      in case loop_sleep (update_hz s) of
                           Inl x \<Rightarrow> (rs, Some x, s3)
                         | Inr u \<Rightarrow> (rs, None, s3))))"

fun run_loop :: "loop_input list \<Rightarrow> simulator \<Rightarrow> bytes list \<times> py_error option \<times> simulator" where
  "run_loop [] s = ([], None, s)"
| "run_loop (i # is) s =
     (case loop_step i s of
        (rs, Some e, s') \<Rightarrow> (rs, Some e, s')
      | (rs, None, s') \<Rightarrow> (let (rs', e, s'') = run_loop is s' in (rs @ rs', e, s'')))"

text \<open>
  \<open>_cleanup\<close>, which runs however the loop ended: the result of the save where one is tried, and
  the new contents of the pages file, \<open>None\<close> where it is not touched.
\<close>

definition cleanup :: "bool \<Rightarrow> simulator \<Rightarrow> bool result option \<times> bytes option" where
  "cleanup opens s =
     (if has_pages_file s \<and> is_pages_modified (protocol (conn s)) then
        (case save_pages_to_file (get_all_page_data (protocol (conn s))) opens of (r, f) \<Rightarrow> (Some r, f))
      else (None, None))"

section \<open>The pages of a simulator\<close>

text \<open>Every stored page fits its frame with the flag byte, and there is one.\<close>

definition pages_fit :: "(nat, bytes) dict \<Rightarrow> bool" where
  "pages_fit d \<longleftrightarrow> pages_ok d \<and> d \<noteq> [] \<and> list_all (\<lambda>(t, page). length page < 65535) d"

lemma set_pages_fields [simp]:
  "config (set_pages ps p) = config p" "outpc_builder (set_pages ps p) = outpc_builder p"
  "pages_modified (set_pages ps p) = pages_modified p"
  by (induction ps arbitrary: p) (auto simp: set_pages_def set_page_data_def)

lemma set_pages_get:
  "dict_ok ps \<Longrightarrow> dict_get (page_data (set_pages ps p)) t =
     (case dict_get ps t of Some d \<Rightarrow> Some d | None \<Rightarrow> dict_get (page_data p) t)"
  using protocol_pages.get_put_all [of ps p t] by (simp add: set_pages_def)

lemma set_pages_fresh: "page_data p = [] \<Longrightarrow> dict_ok ps \<Longrightarrow> page_data (set_pages ps p) = ps"
proof -
  have "page_data (set_pages ps p) = fold (\<lambda>(t, x). dict_set t x) ps (page_data p)"
    by (induction ps arbitrary: p) (auto simp: set_pages_def set_page_data_def)
  then show "page_data p = [] \<Longrightarrow> dict_ok ps \<Longrightarrow> page_data (set_pages ps p) = ps"
    using fold_dict_set_fresh [of "[]" ps] by simp
qed

lemma pages_fit_get: "pages_fit d \<Longrightarrow> dict_get d t = Some page \<Longrightarrow> length page < 65535"
  by (auto simp: pages_fit_def list_all_iff dest: map_of_SomeD)

lemma pages_fit_set: "pages_fit d \<Longrightarrow> t < 256 \<Longrightarrow> length page < 65535 \<Longrightarrow> pages_fit (dict_set t page d)"
proof -
  assume d: "pages_fit d" and t: "t < 256" and page: "length page < 65535"
  then have "pages_ok (dict_set t page d)" by (intro pages_ok_set) (simp_all add: pages_fit_def)
  moreover have "dict_set t page d \<noteq> []" using d by (cases d) (auto simp: pages_fit_def)
  moreover have "length b < 65535" if "(u, b) \<in> set (dict_set t page d)" for u b
    using dict_set_values [OF that] d page by (auto simp: pages_fit_def pages_ok_def list_all_iff)
  ultimately show ?thesis by (auto simp: pages_fit_def list_all_iff)
qed

lemma handle_request_pages_fit:
  assumes d: "pages_fit (page_data p)"
  shows "pages_fit (page_data (fst (snd (handle_request p w req))))"
proof -
  have new: "pages_fit (dict_set (req_table req) page (page_data p))" if "length page < 65535" for page
    using d req_table_bound that by (rule pages_fit_set)
  from handle_request_pages [of p w req] show ?thesis
  proof (elim disjE exE conjE)
    fix page page' :: bytes
    assume "dict_get (page_data p) (req_table req) = Some page" and len: "length page' = length page"
      and eq: "page_data (fst (snd (handle_request p w req))) = dict_set (req_table req) page' (page_data p)"
    then have "length page < 65535" using pages_fit_get [OF d] by blast
    with new [of page'] show ?thesis unfolding eq len by simp
  next
    fix page' :: bytes
    assume len: "length page' = 1024"
      and eq: "page_data (fst (snd (handle_request p w req))) = dict_set (req_table req) page' (page_data p)"
    show ?thesis unfolding eq by (rule new) (simp add: len)
  qed (use d in simp)
qed

lemma MS2_PAGES_fit:
  assumes "\<And>c. c \<in> set MS2_PAGES \<Longrightarrow> length (f c) < 65535"
  shows "pages_fit (List.map (\<lambda>c. (table_id c, f c)) MS2_PAGES)"
proof -
  have ids: "distinct (List.map table_id MS2_PAGES)" "list_all (\<lambda>c. table_id c < 256) MS2_PAGES" "MS2_PAGES \<noteq> []"
    by (simp_all add: MS2_PAGES_def)
  have "length (f c) \<le> 65535" if "c \<in> set MS2_PAGES" for c using assms [OF that] by simp
  with ids assms show ?thesis
    by (simp add: pages_fit_def pages_ok_def list_all_iff comp_def)
qed

section \<open>Serving requests\<close>

text \<open>A world whose builder builds, at every time the clock may show.\<close>

definition clock_ok :: "pyfloat stream \<Rightarrow> bool" where
  "clock_ok c \<longleftrightarrow> (\<forall>t\<in>sset c. inside 0 (2 ^ 40) t)"

definition world_ok :: "ecu_world \<Rightarrow> bool" where
  "world_ok w \<longleftrightarrow> \<not> debug_values (builder w) \<and> 0 \<le> ini_block_size (builder_config (builder w)) \<and>
     ini_block_size (builder_config (builder w)) < 65535 \<and>
     list_all (\<lambda>(n, f). scale_ok f) (output_channels (builder_config (builder w))) \<and>
     idle_runner (scenario w) \<and> clock_ok (clock w)"

definition conn_ok :: "ecu_world request_buffer \<Rightarrow> bool" where
  "conn_ok c \<longleftrightarrow> world_ok (world c) \<and> outpc_builder (protocol c) = Some build \<and>
     length (signature (config (protocol c))) < 65534 \<and> pages_fit (page_data (protocol c))"

lemma build_world_ok:
  assumes "world_ok w"
  shows "\<exists>b. build w = (Inr b, w\<lparr>clock := stl (clock w)\<rparr>) \<and> length b < 65535 \<and> world_ok (w\<lparr>clock := stl (clock w)\<rparr>)"
proof -
  have "shd (clock w) \<in> sset (clock w)" "sset (stl (clock w)) \<subseteq> sset (clock w)"
    by (cases "clock w"; auto)+
  with assms have c: "inside 0 (2 ^ 40) (shd (clock w))" "clock_ok (stl (clock w))"
    by (auto simp: world_ok_def clock_ok_def)
  have e: "engine_moderate (engine (scenario w))" "inside 0 (2 ^ 40) (start_time (engine (scenario w)))"
    using assms by (simp_all add: world_ok_def idle_runner_def engine_rt_moderate engine_rt_def slow_def)
  show ?thesis
    using build_total_aux [OF _ _ _ e(1) c(1) e(2)] assms c(2) by (auto simp: world_ok_def)
qed

text \<open>A request that raises: a read of 65535 bytes of a table that is not stored.\<close>

definition oversized_read :: "ecu_world serial_protocol \<Rightarrow> bytes \<Rightarrow> bool" where
  "oversized_read p req \<longleftrightarrow> (\<exists>t a. command_of req = Read t a 65535 \<and>
     t \<notin> {TABLE_SIGNATURE, TABLE_VERSION, TABLE_OUTPC} \<and> dict_get (page_data p) t = None)"

lemma handle_request_conn:
  assumes c: "conn_ok c" and req: "req \<noteq> []" and run: "handle_request (protocol c) (world c) req = (r, p', w')"
  shows "conn_ok (c\<lparr>protocol := p', world := w', buffer := b\<rparr>)"
    and "r = Some (Inl e) \<Longrightarrow> e = StructError \<and> oversized_read p' req"
proof -
  let ?p = "protocol c" and ?w = "world c"
  obtain out where b: "build ?w = (Inr out, ?w\<lparr>clock := stl (clock ?w)\<rparr>)" "length out < 65535"
    "world_ok (?w\<lparr>clock := stl (clock ?w)\<rparr>)"
    using build_world_ok [of ?w] c by (auto simp: conn_ok_def)
  have f: "fetch_outpc ?p ?w = (Inr out, ?w\<lparr>clock := stl (clock ?w)\<rparr>)"
    using b(1) c by (simp add: fetch_outpc_def conn_ok_def)
  from handle_request_refines_aux [OF req f] run
  have keep: "config p' = config ?p" "outpc_builder p' = outpc_builder ?p"
    "w' = ?w \<or> w' = ?w\<lparr>clock := stl (clock ?w)\<rparr>" by (auto split: if_splits)
  have pages: "pages_fit (page_data p')"
    using handle_request_pages_fit [of ?p ?w req] run c by (simp add: conn_ok_def)
  from keep b(3) c pages show "conn_ok (c\<lparr>protocol := p', world := w', buffer := b\<rparr>)"
    by (auto simp: conn_ok_def)
  assume r: "r = Some (Inl e)"
  have "fst (handle_request ?p ?w req) = Some (Inl e) \<longleftrightarrow> e = StructError \<and> oversized_read ?p req"
    unfolding oversized_read_def
    by (rule handle_request_raises_aux [OF req f b(2)]) (use c pages_fit_get in \<open>auto simp: conn_ok_def\<close>)
  with r run have "e = StructError \<and> oversized_read ?p req" by simp
  moreover have "p' = ?p"
  proof -
    have "hd req = 0x72 \<and> 7 \<le> length req"
      using calculation command_of_shape(4) by (auto simp: oversized_read_def)
    with run req show ?thesis by (auto simp: handle_request_hd Let_def split: prod.splits)
  qed
  ultimately show "e = StructError \<and> oversized_read p' req" by simp
qed

lemma get_next_response_conn:
  assumes c: "conn_ok c" and run: "get_next_response c = (x, c')"
  shows "conn_ok c'" and "\<exists>used. buffer c = used @ buffer c'"
    and "x = Some (Inl e) \<Longrightarrow> e = StructError \<and> (\<exists>req. buffer c = frame req @ buffer c' \<and> oversized_read (protocol c') req)"
proof -
  have "conn_ok c' \<and> (\<exists>used. buffer c = used @ buffer c') \<and> (x = Some (Inl e) \<longrightarrow>
      e = StructError \<and> (\<exists>req. buffer c = frame req @ buffer c' \<and> oversized_read (protocol c') req))" for e
  proof (cases "buffer c = [] \<or> slice (buffer c) 0 1 = encode ''F''")
    case True
    with run c show ?thesis
      by (auto simp: get_next_response_def conn_ok_def intro: exI [of _ "take 1 (buffer c)"] split: if_splits)
  next
    case False
    obtain m rest where m: "parse_framed_request (buffer c) = (m, rest)" by (cases "parse_framed_request (buffer c)")
    show ?thesis
    proof (cases m)
      case None
      then have "\<exists>k. rest = drop k (buffer c)"
        using m by (auto simp: parse_framed_request_def Let_def intro: exI [of _ 0] split: if_splits)
      then obtain k where "buffer c = take k (buffer c) @ rest" by (metis append_take_drop_id)
      then show ?thesis using False None m run c by (auto simp: get_next_response_def Let_def conn_ok_def)
    next
      case (Some req)
      have b: "buffer c = frame req @ rest" "payload_ok req" using parse_Some m Some by blast+
      then have ne: "req \<noteq> []" by (auto simp: payload_ok_def)
      obtain r p' w' where h: "handle_request (protocol c) (world c) req = (r, p', w')"
        by (metis prod_cases3)
      with False Some m run have "x = r" "c' = c\<lparr>protocol := p', world := w', buffer := rest\<rparr>"
        by (auto simp: get_next_response_def Let_def)
      with handle_request_conn [OF c ne h] b show ?thesis by auto
    qed
  qed
  then show "conn_ok c'" "\<exists>used. buffer c = used @ buffer c'"
    "x = Some (Inl e) \<Longrightarrow> e = StructError \<and> (\<exists>req. buffer c = frame req @ buffer c' \<and> oversized_read (protocol c') req)"
    by blast+
qed

lemma process_requests_conn:
  "conn_ok c \<Longrightarrow> process_requests c = (rs, e, c') \<Longrightarrow>
     conn_ok c' \<and> (\<exists>used. buffer c = used @ buffer c') \<and>
     (\<forall>x. e = Some x \<longrightarrow> x = StructError \<and>
        (\<exists>pre req. buffer c = pre @ frame req @ buffer c' \<and> oversized_read (protocol c') req))"
proof (induction c arbitrary: rs rule: process_requests.induct)
  case (1 c)
  obtain x c1 where n: "get_next_response c = (x, c1)" by (cases "get_next_response c")
  note step = get_next_response_conn [OF "1.prems"(1) n]
  note unf = process_requests.simps [of c]
  consider "x = None" | y where "x = Some (Inl y)" | r where "x = Some (Inr r)"
    by (metis option.exhaust sum.exhaust)
  then show ?case
  proof cases
    case 1
    with "1.prems"(2) n step(1,2) show ?thesis unfolding unf by auto
  next
    case (2 y)
    with "1.prems"(2) n have "e = Some y" "c' = c1" unfolding unf by auto
    moreover from step(3) [OF 2] obtain req where "buffer c = [] @ frame req @ buffer c1" "oversized_read (protocol c1) req"
      "y = StructError" by auto
    ultimately show ?thesis using step(1,2) by blast
  next
    case (3 r)
    obtain rs' where rec: "process_requests c1 = (rs', e, c')"
      using "1.prems"(2) n 3 unfolding unf by (auto split: prod.splits)
    obtain used where u: "buffer c = used @ buffer c1" using step(2) by blast
    from "1.IH" [OF n [symmetric] 3 refl step(1) rec]
    show ?thesis unfolding u by (metis append.assoc)
  qed
qed

section \<open>The loop\<close>

definition sim_ok :: "simulator \<Rightarrow> bool" where
  "sim_ok s \<longleftrightarrow> conn_ok (conn s) \<and> draws_ok (draws s) \<and> loop_sleep (update_hz s) = Inr ()"

definition input_ok :: "pyfloat \<Rightarrow> loop_input \<Rightarrow> bool" where
  "input_ok t i \<longleftrightarrow> dt_real (py_sub (time_now i) t) \<and> clock_ok (times_later i)"

fun inputs_ok :: "pyfloat \<Rightarrow> loop_input list \<Rightarrow> bool" where
  "inputs_ok t [] \<longleftrightarrow> True"
| "inputs_ok t (i # is) \<longleftrightarrow> input_ok t i \<and> inputs_ok (time_now i) is"

lemma loop_step_ok:
  assumes s: "sim_ok s" and i: "input_ok (last_update s) i" and run: "loop_step i s = (rs, e, s')"
  shows "sim_ok s' \<and> last_update s' = time_now i \<and> has_pages_file s' = has_pages_file s \<and>
    (\<exists>used. buffer (conn s) @ received i = used @ buffer (conn s')) \<and>
    (\<forall>x. e = Some x \<longrightarrow> x = StructError \<and> (\<exists>pre req.
       buffer (conn s) @ received i = pre @ frame req @ buffer (conn s') \<and> oversized_read (protocol (conn s')) req))"
proof -
  let ?w = "(world (conn s))\<lparr>clock := times_later i\<rparr>"
  have r: "idle_runner (scenario ?w)" using s by (simp add: sim_ok_def conn_ok_def world_ok_def)
  have dt: "dt_real (py_sub (time_now i) (last_update s))" and g: "draws_ok (draws s)"
    using i s by (simp_all add: input_ok_def sim_ok_def)
  obtain r g where t: "tick (py_sub (time_now i) (last_update s)) (scenario ?w) (draws s) = (Inr r, g)"
    "draws_ok g" "idle_runner r"
    using safe_run [OF tick_rt [OF r dt] g] by blast
  let ?c = "add_data (received i) ((conn s)\<lparr>world := ?w\<lparr>scenario := r\<rparr>\<rparr>)"
  have c: "conn_ok ?c" "buffer ?c = buffer (conn s) @ received i"
    using s i t(3) by (simp_all add: sim_ok_def conn_ok_def add_data_def world_ok_def input_ok_def)
  obtain rs1 e1 c1 where p: "process_requests ?c = (rs1, e1, c1)" by (metis prod_cases3)
  note pc = process_requests_conn [OF c(1) p, unfolded c(2)]
  have sl: "loop_sleep (update_hz s) = Inr ()" using s by (simp add: sim_ok_def)
  have fields: "conn s' = c1" "draws s' = g" "update_hz s' = update_hz s" "last_update s' = time_now i"
    "has_pages_file s' = has_pages_file s" "e = e1"
    using run t(1) p sl by (auto simp: loop_step_def Let_def split: option.splits if_splits)
  show ?thesis using pc sl t(2) by (simp add: sim_ok_def fields)
qed

lemma run_loop_ok:
  "sim_ok s \<Longrightarrow> inputs_ok (last_update s) is \<Longrightarrow> run_loop is s = (rs, e, s') \<Longrightarrow>
     sim_ok s' \<and> has_pages_file s' = has_pages_file s \<and>
     (\<forall>x. e = Some x \<longrightarrow> x = StructError \<and> (\<exists>pre req rest.
        buffer (conn s) @ concat (List.map received is) = pre @ frame req @ rest \<and>
        oversized_read (protocol (conn s')) req))"
proof (induction "is" arbitrary: s rs)
  case (Cons i "is")
  obtain rs1 e1 s1 where st: "loop_step i s = (rs1, e1, s1)" by (metis prod_cases3)
  from Cons.prems have "input_ok (last_update s) i" by simp
  note step = loop_step_ok [OF Cons.prems(1) this st]
  show ?case
  proof (cases e1)
    case None
    then obtain rs2 where rec: "run_loop is s1 = (rs2, e, s')" using Cons.prems(3) st by (auto split: prod.splits)
    from step obtain used where u: "buffer (conn s) @ received i = used @ buffer (conn s1)" by blast
    have "inputs_ok (last_update s1) is" using Cons.prems(2) step by simp
    note ih = Cons.IH [OF _ this rec]
    have "buffer (conn s) @ concat (List.map received (i # is)) = used @ buffer (conn s1) @ concat (List.map received is)"
      using u by simp
    with ih step show ?thesis by (metis append.assoc)
  next
    case (Some x)
    then have "e = Some x" "s' = s1" using Cons.prems(3) st by auto
    moreover from step Some obtain pre req where "x = StructError"
      "buffer (conn s) @ received i = pre @ frame req @ buffer (conn s1)" "oversized_read (protocol (conn s1)) req"
      by blast
    moreover from this have "buffer (conn s) @ concat (List.map received (i # is)) =
        pre @ frame req @ buffer (conn s1) @ concat (List.map received is)"
      by (metis append.assoc concat.simps(2) list.simps(9))
    ultimately show ?thesis using step by blast
  qed
qed simp

section \<open>A fresh simulator\<close>

definition config_ok :: "ini_config \<Rightarrow> bool" where
  "config_ok cfg \<longleftrightarrow> 0 \<le> ini_block_size cfg \<and> ini_block_size cfg < 65535 \<and> length (ini_signature cfg) < 65534 \<and>
     list_all (\<lambda>(n, f). scale_ok f) (output_channels cfg)"

text \<open>The sources of the pages: a builder after a load, a file whose pages fit where it loads.\<close>

definition sources_ok :: "bytes option \<Rightarrow> page_builder option \<Rightarrow> bool" where
  "sources_ok file pb \<longleftrightarrow> (case pb of Some b \<Rightarrow> built_pages (pages b) | None \<Rightarrow> True) \<and>
     (case load_pages_from_file file of Some d \<Rightarrow> list_all (\<lambda>(t, page). length page < 65535) d | None \<Rightarrow> True)"

lemma built_pages_length: "built_pages d \<Longrightarrow> dict_get d t = Some page \<Longrightarrow> length page = 1024"
proof -
  assume d: "built_pages d" and t: "dict_get d t = Some page"
  from map_of_SomeD [OF t] have "(t, length page) \<in> set (List.map (\<lambda>(t, b). (t, length b)) d)" by force
  then have "(t, length page) \<in> set (List.map (\<lambda>p. (table_id p, psize p)) MS2_PAGES)"
    using d by (simp only: built_pages_def)
  then show ?thesis by (auto simp: MS2_PAGES_def)
qed

lemma builder_page_length: "built_pages (pages b) \<Longrightarrow> length (builder_page t b) = 1024"
  by (auto simp: builder_page_def dest: built_pages_length split: option.splits)

lemma init_pages_fields:
  "config (snd (init_pages file pb p)) = config p" "outpc_builder (snd (init_pages file pb p)) = outpc_builder p"
  "pages_modified (snd (init_pages file pb p)) = pages_modified p"
  by (auto simp: init_pages_def split: option.splits list.splits)

lemma init_pages_fit:
  assumes p: "page_data p = []" and src: "sources_ok file pb"
  shows "pages_fit (page_data (snd (init_pages file pb p)))"
proof -
  have fresh: "pages_fit d \<Longrightarrow> pages_fit (page_data (set_pages d p))" for d
    using set_pages_fresh [OF p, of d] by (simp add: pages_fit_def pages_ok_def)
  have saved: "pages_fit (e # es)" if "load_pages_from_file file = Some (e # es)" for e es
    using loaded_pages_ok_aux [OF that] src that by (simp add: pages_fit_def sources_ok_def)
  have "pages_fit (List.map (\<lambda>c. (table_id c, builder_page (table_id c) b)) MS2_PAGES)" if "pb = Some b" for b
    by (rule MS2_PAGES_fit) (use src that builder_page_length in \<open>simp add: sources_ok_def\<close>)
  moreover have "pages_fit (List.map (\<lambda>c. (table_id c, zeros (psize c))) MS2_PAGES)"
    by (rule MS2_PAGES_fit) (auto simp: MS2_PAGES_def)
  ultimately show ?thesis
    using fresh saved by (auto simp: init_pages_def split: option.splits list.splits)
qed

lemma ECUSimulator_fields:
  "protocol (conn (ECUSimulator cfg pb hz pfile dbg clk g)) =
     snd (init_pages (case pfile of Some f \<Rightarrow> f | None \<Rightarrow> None) pb
       (set_outpc_builder build (SerialProtocol (Some
         (ProtocolConfig\<lparr>signature := ini_signature cfg, och_block_size := nat (ini_block_size cfg)\<rparr>)))))"
  "world (conn (ECUSimulator cfg pb hz pfile dbg clk g)) =
     \<lparr>builder = OUTPCBuilder cfg dbg, scenario = ScenarioRunner (EngineState (shd clk)), clock = stl (stl clk)\<rparr>"
  "buffer (conn (ECUSimulator cfg pb hz pfile dbg clk g)) = []"
  "draws (ECUSimulator cfg pb hz pfile dbg clk g) = g" "update_hz (ECUSimulator cfg pb hz pfile dbg clk g) = hz"
  "has_pages_file (ECUSimulator cfg pb hz pfile dbg clk g) \<longleftrightarrow> pfile \<noteq> None"
  by (simp_all add: ECUSimulator_def Let_def RequestBuffer_def split: prod.splits)

lemma start_loop_fields [simp]:
  "conn (start_loop t1 t2 s) = conn s" "draws (start_loop t1 t2 s) = draws s"
  "update_hz (start_loop t1 t2 s) = update_hz s" "last_update (start_loop t1 t2 s) = t1"
  "has_pages_file (start_loop t1 t2 s) = has_pages_file s"
  by (simp_all add: start_loop_def)

lemma ECUSimulator_ok:
  assumes "config_ok cfg" and "sources_ok (case pfile of Some f \<Rightarrow> f | None \<Rightarrow> None) pb"
    and "clock_ok clk" and "draws_ok g" and "loop_sleep hz = Inr ()"
  shows "sim_ok (start_loop t1 t2 (ECUSimulator cfg pb hz pfile False clk g))"
proof -
  have "inside 0 (2 ^ 40) (shd clk)" "clock_ok (stl (stl clk))"
    using assms(3) by (cases clk; cases "stl clk"; simp add: clock_ok_def)+
  then show ?thesis
    using assms EngineState_rt init_pages_fit [OF _ assms(2), where ?'a = ecu_world]
    by (simp add: init_pages_fit sim_ok_def conn_ok_def world_ok_def ECUSimulator_fields init_pages_fields OUTPCBuilder_def
        config_ok_def set_outpc_builder_def SerialProtocol_def)
qed

section \<open>Properties of the simulator\<close>


definition sample_simulator :: simulator where
  "sample_simulator = start_loop (Fin 0) (Fin 0)
     (ECUSimulator sample_config None (Fin 64) (Some None) False (sconst (Fin 1)) (sconst (1 / 2)))"

lemma sleep_64: "loop_sleep (Fin 64) = Inr ()"
proof -
  have "rnd (1 / 64) = Fin (1 / 64)" "rnd 15625000 = Fin 15625000"
    using representable_frac [of 1 6] representable_int [of 15625000] by (simp_all add: representable_def)
  then show ?thesis by (simp add: loop_sleep_def py_sleep_def py_le_def)
qed

lemma sample_simulator_parts:
  "config_ok sample_config" "sources_ok (case Some None of Some f \<Rightarrow> f | None \<Rightarrow> None) None"
  "clock_ok (sconst (Fin 1))" "draws_ok (sconst (1 / 2))"
  by (simp_all add: config_ok_def sample_config_def INIConfig_def scale_ok_def FieldDef_def sources_ok_def
      load_pages_from_file_def clock_ok_def draws_ok_def sset_sconst)

definition sample_input :: loop_input where
  "sample_input = \<lparr>time_now = Fin 1, times_later = sconst (Fin 1), received = [0x46]\<rparr>"


text \<open>
  The pages survive a restart. However the loop ended, if a pages file was given and a client
  modified the pages, the clean-up saves them without an exception, and a simulator started with
  that file, whatever its configuration and tune, holds the same page under every table. If no
  client modified them, the file is not touched.
\<close>

lemma pages_survive_restart:
  assumes "sim_ok s" and "has_pages_file s" and "inputs_ok (last_update s) is" and "run_loop is s = (rs, e, s')"
  shows "(if is_pages_modified (protocol (conn s')) then
      \<exists>f. cleanup True s' = (Some (Inr True), Some f) \<and>
        (\<forall>cfg pb hz dbg clk g t.
          dict_get (page_data (protocol (conn (ECUSimulator cfg pb hz (Some (Some f)) dbg clk g)))) t =
          dict_get (page_data (protocol (conn s'))) t)
    else cleanup True s' = (None, None))"
proof -
  let ?d = "page_data (protocol (conn s'))"
  have s': "sim_ok s'" "has_pages_file s'" using run_loop_ok [OF assms(1,3,4)] assms(2) by simp_all
  then have d: "pages_ok ?d" "?d \<noteq> []" by (simp_all add: sim_ok_def conn_ok_def pages_fit_def)
  let ?es = "sort_key fst ?d"
  have es: "?es \<noteq> []" "dict_ok ?es" "map_of ?es = map_of ?d"
    using d sorted_distinct [OF d(1)] by (auto simp: pages_ok_def map_of_inject_set simp flip: set_empty2)
  note save = save_load_pages [OF d(1)]
  have "dict_get (page_data (protocol (conn (ECUSimulator cfg pb hz (Some (Some (pages_file ?d))) dbg clk g)))) t =
      dict_get ?d t" for cfg pb hz dbg clk g t
  proof -
    obtain x xs where x: "?es = x # xs" using es(1) by (cases ?es) auto
    have "init_pages (Some (pages_file ?d)) pb p = (''saved file'', set_pages ?es p)" for p :: "ecu_world serial_protocol"
      using save x by (simp add: init_pages_def)
    then show ?thesis
      using es(3)
      by (simp add: set_pages_get [OF es(2)] ECUSimulator_fields set_outpc_builder_def SerialProtocol_def split: option.splits)
  qed
  with save s'(2) show ?thesis by (auto simp: cleanup_def get_all_page_data_def)
qed

lemma sample_simulator_ok: "sim_ok sample_simulator"
  unfolding sample_simulator_def by (rule ECUSimulator_ok [OF sample_simulator_parts sleep_64])

text \<open>
  A damaged pages file counts as none. Started with any proper prefix of a file it saved, the
  simulator is the one it would be without the file: the tune's pages if there is a tune,
  otherwise empty pages.
\<close>

lemma damaged_pages_file_ignored:
  assumes "pages_ok d" and "n < length (pages_file d)"
  shows "ECUSimulator cfg pb hz (Some (Some (take n (pages_file d)))) dbg clk g = ECUSimulator cfg pb hz (Some None) dbg clk g"
  using pages_file_cut [OF assms] by (auto simp: ECUSimulator_def init_pages_def load_pages_from_file_def Let_def)

end
