(* ===== verification/Session.thy ===== *)
theory Session
  imports Systems Simulator
begin

text \<open>
  The conversation of a client with the simulator of \<open>ecuSim\<close> as a transition system: the client
  sends whole messages, the line delivers bytes in pieces of any size, the simulator's loop
  advances the engine and answers what is buffered, the client reads the responses in pieces of
  any size; all in any order. Every such execution is a sequential one: the responses the client
  reads are those of the messages taken one at a time, in the order sent.
\<close>

section \<open>The sequential ECU\<close>

text \<open>What happens to the ECU: a message is answered, or its world moves on.\<close>

datatype 'w event = Ask message | Advance 'w

fun history :: "'w request_buffer \<Rightarrow> 'w event list \<Rightarrow> bytes list \<times> py_error option \<times> 'w request_buffer" where
  "history c [] = ([], None, c)"
| "history c (Advance w # es) = history (c\<lparr>world := w\<rparr>) es"
| "history c (Ask m # es) =
     (case answer c m of
        (Some (Inr r), c') \<Rightarrow> (let (rs, e, c'') = history c' es in (r # rs, e, c''))
      | (Some (Inl e), c') \<Rightarrow> ([], Some e, c')
      | (None, c') \<Rightarrow> history c' es)"

fun asked :: "'w event list \<Rightarrow> message list" where
  "asked [] = []"
| "asked (Ask m # es) = m # asked es"
| "asked (Advance w # es) = asked es"

fun advances :: "'w event list \<Rightarrow> 'w list" where
  "advances [] = []"
| "advances (Ask m # es) = advances es"
| "advances (Advance w # es) = w # advances es"

lemma advances_append [simp]: "advances (es @ es') = advances es @ advances es'"
  by (induction es rule: advances.induct) simp_all

lemma advances_Ask [simp]: "advances (List.map Ask ms) = []"
  by (induction ms) simp_all

lemma asked_append [simp]: "asked (es @ es') = asked es @ asked es'"
  by (induction es rule: asked.induct) simp_all

lemma asked_Ask [simp]: "asked (List.map Ask ms) = ms"
  by (induction ms) simp_all

lemma history_Ask: "history c (List.map Ask ms) = answers c ms"
  by (induction ms arbitrary: c) (auto split: prod.splits option.splits sum.splits)

lemma history_append:
  "history c (es @ es') =
     (case history c es of
        (rs, Some e, c') \<Rightarrow> (rs, Some e, c')
      | (rs, None, c') \<Rightarrow> (let (rs', e, c'') = history c' es' in (rs @ rs', e, c'')))"
proof (induction es arbitrary: c rule: asked.induct)
  case (2 m es)
  then show ?case by (auto split: prod.splits option.splits sum.splits)
qed (auto split: prod.splits)

section \<open>The system\<close>

text \<open>
  The simulator's end and the bytes under way in both directions; for the statement of what the
  client gets, the messages it sent, the bytes it has read, and the worlds the engine went through.
\<close>

record 'w conversation =
  server :: "'w request_buffer"
  to_server :: bytes
  to_client :: bytes
  crashed :: "py_error option"
  sent :: "message list"
  delivered :: bytes
  advanced :: "'w list"

datatype 'w action = Send message | Tick 'w | Serve nat | Receive nat

inductive exchange :: "'w conversation \<Rightarrow> 'w action \<Rightarrow> 'w conversation \<Rightarrow> bool" where
  send: "message_ok m \<Longrightarrow>
    exchange s (Send m) (s\<lparr>to_server := to_server s @ message_bytes m, sent := sent s @ [m]\<rparr>)"
| tick: "crashed s = None \<Longrightarrow> exchange s (Tick w) (s\<lparr>server := (server s)\<lparr>world := w\<rparr>, advanced := advanced s @ [w]\<rparr>)"
| serve: "crashed s = None \<Longrightarrow> process_requests (add_data (take n (to_server s)) (server s)) = (rs, e, c) \<Longrightarrow>
    exchange s (Serve n) (s\<lparr>server := c, to_server := drop n (to_server s),
      to_client := to_client s @ concat rs, crashed := e\<rparr>)"
| receive: "exchange s (Receive n)
    (s\<lparr>to_client := drop n (to_client s), delivered := delivered s @ take n (to_client s)\<rparr>)"

inductive_cases exchange_SendE: "exchange s (Send m) s'"
inductive_cases exchange_TickE: "exchange s (Tick w) s'"
inductive_cases exchange_ServeE: "exchange s (Serve n) s'"
inductive_cases exchange_ReceiveE: "exchange s (Receive n) s'"

inductive_simps exchange_simps:
  "exchange s (Send m) s'" "exchange s (Tick w) s'" "exchange s (Serve n) s'" "exchange s (Receive n) s'"

definition connected :: "'w request_buffer \<Rightarrow> 'w conversation" where
  "connected c = \<lparr>server = c, to_server = [], to_client = [], crashed = None, sent = [], delivered = [], advanced = []\<rparr>"

section \<open>The invariant\<close>

text \<open>
  The sequential history behind a state: its messages are the first of those sent, its responses
  are the bytes read and under way, and the rest of the messages is buffered or under way.
\<close>

definition explained :: "'w request_buffer \<Rightarrow> 'w event list \<Rightarrow> 'w conversation \<Rightarrow> bool" where
  "explained c0 es s \<longleftrightarrow> (\<exists>ms rs c.
     sent s = asked es @ ms \<and> list_all message_ok ms \<and> advanced s = advances es \<and>
     history c0 es = (rs, crashed s, c) \<and> server s = c\<lparr>buffer := buffer (server s)\<rparr> \<and>
     concat rs = delivered s @ to_client s \<and>
     (crashed s = None \<longrightarrow> next_message (buffer (server s)) = None \<and>
        buffer (server s) @ to_server s = concat (List.map message_bytes ms)))"

lemma explained_serve:
  assumes inv: "explained c0 es s" and up: "crashed s = None"
    and pr: "process_requests (add_data (take n (to_server s)) (server s)) = (rs, e, c)"
  shows "\<exists>es'. explained c0 es' (s\<lparr>server := c, to_server := drop n (to_server s),
      to_client := to_client s @ concat rs, crashed := e\<rparr>)"
proof -
  let ?b = "buffer (server s)" and ?chunk = "take n (to_server s)"
  from inv up obtain ms rs0 c1 where
    sent: "sent s = asked es @ ms" "advanced s = advances es" and ok: "list_all message_ok ms" and
    h: "history c0 es = (rs0, None, c1)" and srv: "server s = c1\<lparr>buffer := ?b\<rparr>" and
    out: "concat rs0 = delivered s @ to_client s" and
    pending: "concat (List.map message_bytes ms) = (?b @ ?chunk) @ drop n (to_server s)"
    by (auto simp: explained_def)
  from wire.prefix_split [OF ok pending] obtain ys zs t where
    ms: "ms = ys @ zs" and buf: "?b @ ?chunk = concat (List.map message_bytes ys) @ t"
    and none: "next_message t = None" and rest: "t @ drop n (to_server s) = concat (List.map message_bytes zs)"
    by blast
  have ok': "list_all message_ok ys" "list_all message_ok zs" using ok ms by simp_all
  have wait: "waiting t" by (rule tail_waiting [OF ok'(2) rest none])
  obtain rs1 e1 c2 where a: "answers c1 ys = (rs1, e1, c2)" by (metis prod_cases3)
  let ?c = "add_data ?chunk (server s)"
  have c: "?c = c1\<lparr>buffer := ?b @ ?chunk\<rparr>"
    using arg_cong [OF srv, of "\<lambda>c. c\<lparr>buffer := ?b @ ?chunk\<rparr>"] by (simp add: add_data_def)
  then have "answers ?c ys = (rs1, e1, c2\<lparr>buffer := ?b @ ?chunk\<rparr>)" using a by (simp add: answers_buffer)
  from process_stream [OF ok'(1) _ wait this] buf c obtain b where
    b: "process_requests ?c = (rs1, e1, c2\<lparr>buffer := b\<rparr>)" "e1 = None \<longrightarrow> b = t" by auto
  with pr have eqs: "rs = rs1" "e = e1" "c = c2\<lparr>buffer := b\<rparr>" by simp_all
  have "history c0 (es @ List.map Ask ys) = (rs0 @ rs1, e1, c2)"
    using h a by (simp add: history_append history_Ask)
  with sent ms ok' out b(2) none rest eqs show ?thesis
    by (intro exI [of _ "es @ List.map Ask ys"]) (auto simp: explained_def)
qed

interpretation conversations: invariant_system exchange "\<lambda>s. \<exists>es. explained c0 es s"
proof
  fix s s' a
  assume inv: "\<exists>es. explained c0 es s" and st: "exchange s a s'"
  from inv obtain es where es: "explained c0 es s" ..
  from st show "\<exists>es. explained c0 es s'"
  proof cases
    case (send m)
    from es obtain ms where "sent s = asked es @ ms" by (auto simp: explained_def)
    with es send show ?thesis by (auto simp: explained_def intro!: exI [of _ es])
  next
    case (tick w)
    with es have "explained c0 (es @ [Advance w]) s'"
      by (auto simp: explained_def history_append) (metis request_buffer.surjective request_buffer.update_convs(2,3))
    then show ?thesis ..
  next
    case (serve n rs e c)
    from explained_serve [OF es serve(3,4)] serve(2) show ?thesis by simp
  next
    case (receive n)
    with es show ?thesis by (auto simp: explained_def intro!: exI [of _ es])
  qed
qed

lemma explained_connected: "buffer c = [] \<Longrightarrow> explained c [] (connected c)"
  by (auto simp: explained_def connected_def wire.dec_Nil)

lemma conversation_explained:
  assumes "run exchange (connected c) as s" and "buffer c = []"
  shows "\<exists>es. explained c es s"
  using conversations.inv_run [OF assms(1)] explained_connected [OF assms(2)] by blast

lemma pending_none:
  assumes "list_all message_ok ms" and "next_message (concat (List.map message_bytes ms)) = None"
  shows "ms = []"
proof (cases ms)
  case (Cons m ms')
  with assms wire.dec_enc [of m "concat (List.map message_bytes ms')"] show ?thesis by simp
qed simp

section \<open>Delivery\<close>

text \<open>The steps that bring bytes further, and nothing else.\<close>

definition transfer :: "'w conversation \<Rightarrow> 'w action \<Rightarrow> 'w conversation \<Rightarrow> bool" where
  "transfer s a s' \<longleftrightarrow> exchange s a s' \<and>
     (case a of Serve n \<Rightarrow> 0 < n \<and> to_server s \<noteq> [] | Receive n \<Rightarrow> 0 < n \<and> to_client s \<noteq> [] | _ \<Rightarrow> False)"

lemma transfer_cases:
  assumes "transfer s a s'"
  obtains n where "a = Serve n" "0 < n" "to_server s \<noteq> []" "exchange s (Serve n) s'"
  | n where "a = Receive n" "0 < n" "to_client s \<noteq> []" "exchange s (Receive n) s'"
  using assms by (auto simp: transfer_def split: action.splits)

lemma transfer_stuck:
  assumes "\<forall>a t. \<not> transfer s a t" and "crashed s = None"
  shows "to_server s = [] \<and> to_client s = []"
proof (rule ccontr)
  assume "\<not> ?thesis"
  then consider "to_server s \<noteq> []" | "to_client s \<noteq> []" by blast
  then show False
  proof cases
    case 1
    obtain rs e c where "process_requests (add_data (take 1 (to_server s)) (server s)) = (rs, e, c)" by (metis prod_cases3)
    with 1 assms(2) have "\<exists>t. transfer s (Serve 1) t"
      unfolding transfer_def by (auto simp: exchange_simps)
    with assms(1) show False by blast
  next
    case 2
    then have "\<exists>t. transfer s (Receive 1) t" unfolding transfer_def by (auto simp: exchange_simps)
    with assms(1) show False by blast
  qed
qed

interpretation transfers: ending_system transfer
  "inv_image (less_than <*lex*> less_than) (\<lambda>s. (length (to_server s), length (to_client s)))"
proof
  fix s s' :: "'w conversation" and a
  assume "transfer s a s'"
  then show "(s', s) \<in> inv_image (less_than <*lex*> less_than) (\<lambda>s. (length (to_server s), length (to_client s)))"
    by (cases rule: transfer_cases) (auto simp: exchange_simps)
qed auto

lemma run_transfer_sent: "run transfer s as t \<Longrightarrow> sent t = sent s \<and> advanced t = advanced s"
  by (induction rule: run.induct) (auto elim!: transfer_cases simp: exchange_simps)

lemma run_transfer_exchange: "run transfer s as t \<Longrightarrow> run exchange s as t"
  by (induction rule: run.induct) (auto simp: transfer_def)

section \<open>Properties of the conversation\<close>

definition sample_server :: "unit request_buffer" where
  "sample_server = RequestBuffer (SerialProtocol None) ()"

definition sample_talk :: "unit conversation" where
  "sample_talk = (connected sample_server)\<lparr>sent := [VersionQuery], delivered := encode ''002''\<rparr>"

lemma sample_run: "run exchange (connected sample_server) [Send VersionQuery, Serve 1, Receive 3] sample_talk"
proof -
  have "process_requests (sample_server\<lparr>buffer := [0x46]\<rparr>) = ([encode ''002''], None, sample_server)"
    by (subst process_requests.simps)
      (simp add: get_next_response_def sample_server_def RequestBuffer_def slice_cmd encode_def process_waiting waiting_def
        SerialProtocol_def ProtocolConfig_def)
  then show ?thesis
    by (simp add: exchange_simps connected_def sample_talk_def add_data_def sample_server_def RequestBuffer_def encode_def)
qed

lemma sample_buffer: "buffer sample_server = []"
  by (simp add: sample_server_def RequestBuffer_def)

text \<open>
  C4: conversations are linearizable. In every state a conversation can reach, however the sending,
  the delivery in pieces, the engine's steps and the reading interleave, there is one sequential
  history of the ECU, from its initial state, whose messages are the first of those sent, in their
  order, whose engine steps are all those made, whose responses are exactly the bytes the client
  has read and those under way to it, whose exception, if any, is the one that ended the simulator,
  and whose final state is the simulator's.
\<close>

theorem conversation_linearizable:
  assumes "run exchange (connected c) as s" and "buffer c = []"
  shows "\<exists>es ms rs c'. history c es = (rs, crashed s, c') \<and> sent s = asked es @ ms \<and> advanced s = advances es \<and>
    concat rs = delivered s @ to_client s \<and> server s = c'\<lparr>buffer := buffer (server s)\<rparr>"
proof -
  from conversation_explained [OF assms] obtain es where "explained c es s" ..
  then show ?thesis unfolding explained_def by blast
qed

theorem conversation_linearizable_witness:
  "\<exists>es ms rs c'. history sample_server es = (rs, None, c') \<and> [VersionQuery] = asked es @ ms \<and> concat rs = encode ''002''"
  using conversation_linearizable [OF sample_run sample_buffer]
  by (simp add: sample_talk_def connected_def) blast

text \<open>
  C17: conversations complete. From every state a conversation can reach, once the client sends
  nothing more, delivery cannot go on for ever, and wherever it ends with the simulator still
  running the client has read all the responses to all the messages it sent, in order.
\<close>

theorem conversation_completes:
  assumes "run exchange (connected c) as s" and "buffer c = []"
  shows "(\<nexists>f l. f 0 = s \<and> (\<forall>i. transfer (f i) (l i) (f (Suc i)))) \<and>
    (\<forall>bs t. run transfer s bs t \<and> (\<forall>a u. \<not> transfer t a u) \<and> crashed t = None \<longrightarrow>
      (\<exists>es rs c'. history c es = (rs, None, c') \<and> asked es = sent s \<and> advances es = advanced s \<and> delivered t = concat rs))"
proof (intro conjI allI impI)
  show "\<nexists>f l. f 0 = s \<and> (\<forall>i. transfer (f i) (l i) (f (Suc i)))"
    using transfers.no_endless_run by blast
next
  fix bs t
  assume "run transfer s bs t \<and> (\<forall>a u. \<not> transfer t a u) \<and> crashed t = None"
  then have t: "run transfer s bs t" "\<forall>a u. \<not> transfer t a u" "crashed t = None" by blast+
  note quiet = transfer_stuck [OF t(2,3)] run_transfer_sent [OF t(1)]
  have "run exchange (connected c) (as @ bs) t" using assms(1) run_transfer_exchange [OF t(1)] by auto
  from conversation_explained [OF this assms(2)] obtain es where "explained c es t" by blast
  then obtain ms rs c' where x: "sent t = asked es @ ms" "list_all message_ok ms" "advanced t = advances es"
    "history c es = (rs, None, c')" "concat rs = delivered t"
    "next_message (buffer (server t)) = None" "buffer (server t) = concat (List.map message_bytes ms)"
    using quiet t(3) by (auto simp: explained_def)
  have "ms = []" by (rule pending_none [OF x(2)]) (use x(6,7) in simp)
  with x quiet show "\<exists>es rs c'. history c es = (rs, None, c') \<and> asked es = sent s \<and> advances es = advanced s \<and> delivered t = concat rs"
    by (intro exI [of _ es] exI [of _ rs] exI [of _ c']) simp
qed

theorem conversation_completes_witness:
  "\<exists>es rs c'. history sample_server es = (rs, None, c') \<and> asked es = [VersionQuery] \<and> concat rs = encode ''002''"
proof -
  have "\<not> transfer sample_talk a u" for a u
    by (auto simp: transfer_def sample_talk_def connected_def split: action.splits)
  then have "\<exists>es rs c'. history sample_server es = (rs, None, c') \<and> asked es = sent sample_talk \<and>
      advances es = advanced sample_talk \<and> delivered sample_talk = concat rs"
    by (intro conversation_completes [OF sample_run sample_buffer, THEN conjunct2, rule_format, of "[]"])
      (simp add: sample_talk_def connected_def)
  then show ?thesis by (simp add: sample_talk_def connected_def) metis
qed

section \<open>The main loop as a conversation\<close>

text \<open>
  The iterations of \<open>_run_loop\<close> as a system over the simulator, the bytes still to be read, the
  bytes written and the exception that ended the loop.
\<close>

record loop_state =
  looping :: simulator
  unread :: bytes
  written :: bytes
  raised :: "py_error option"

inductive iterates :: "loop_state \<Rightarrow> loop_input \<Rightarrow> loop_state \<Rightarrow> bool" where
  iterate: "raised l = None \<Longrightarrow> unread l = received i @ rest \<Longrightarrow> loop_step i (looping l) = (rs, e, s) \<Longrightarrow>
    iterates l i \<lparr>looping = s, unread = rest, written = written l @ concat rs, raised = e\<rparr>"

inductive_cases iteratesE: "iterates l i l'"

lemma run_loop_iterates:
  "run_loop is s = (rs, e, s') \<Longrightarrow>
     \<exists>is' rest. run iterates \<lparr>looping = s, unread = concat (List.map received is), written = out, raised = None\<rparr> is'
        \<lparr>looping = s', unread = rest, written = out @ concat rs, raised = e\<rparr> \<and> (e = None \<longrightarrow> rest = [])"
proof (induction "is" arbitrary: s rs out)
  case Nil
  then show ?case by (intro exI [of _ "[]"]) auto
next
  case (Cons i "is")
  obtain rs1 e1 s1 where st: "loop_step i s = (rs1, e1, s1)" by (metis prod_cases3)
  let ?rest = "concat (List.map received is)"
  let ?l = "\<lparr>looping = s1, unread = ?rest, written = out @ concat rs1, raised = e1\<rparr>"
  have it: "iterates \<lparr>looping = s, unread = concat (List.map received (i # is)), written = out, raised = None\<rparr> i ?l"
    using iterate [of "\<lparr>looping = s, unread = concat (List.map received (i # is)), written = out, raised = None\<rparr>", OF _ _ ] st
    by simp
  show ?case
  proof (cases e1)
    case None
    then obtain rs2 where rec: "run_loop is s1 = (rs2, e, s')" and rs: "rs = rs1 @ rs2"
      using Cons.prems st by (auto split: prod.splits)
    from Cons.IH [OF rec, of "out @ concat rs1"] it rs None show ?thesis by (force intro: run_Cons)
  next
    case (Some x)
    then have "e = e1" "s' = s1" "rs = rs1" using Cons.prems st by auto
    with it Some show ?thesis by (intro exI [of _ "[i]"] exI [of _ ?rest]) simp
  qed
qed

text \<open>An iteration is an engine step and one delivery, or nothing if the engine raises.\<close>

definition loop_rel :: "message list \<Rightarrow> loop_state \<Rightarrow> ecu_world conversation \<Rightarrow> bool" where
  "loop_rel ms l s \<longleftrightarrow> sent s = ms \<and> server s = conn (looping l) \<and> delivered s @ to_client s = written l \<and>
     (raised l = None \<longrightarrow> crashed s = None \<and> to_server s = unread l)"

lemma loop_step_conversation:
  assumes "loop_step i s = (rs, e, s')"
  obtains x where "tick (py_sub (time_now i) (last_update s)) (scenario ((world (conn s))\<lparr>clock := times_later i\<rparr>)) (draws s) = (Inl x, draws s')"
      "rs = []" "e = Some x" "conn s' = conn s"
  | w e1 where "process_requests (add_data (received i) ((conn s)\<lparr>world := w\<rparr>)) = (rs, e1, conn s')"
      "e = None \<longrightarrow> e1 = None"
proof -
  let ?w = "(world (conn s))\<lparr>clock := times_later i\<rparr>"
  obtain t g where t: "tick (py_sub (time_now i) (last_update s)) (scenario ?w) (draws s) = (t, g)" by (metis surj_pair)
  show thesis
  proof (cases t)
    case (Inl x)
    with t assms show thesis by (intro that(1)) (auto simp: loop_step_def Let_def)
  next
    case (Inr r)
    let ?c = "add_data (received i) ((conn s)\<lparr>world := ?w\<lparr>scenario := r\<rparr>\<rparr>)"
    obtain rs1 e1 c1 where p: "process_requests ?c = (rs1, e1, c1)" by (metis prod_cases3)
    have "rs = rs1" "conn s' = c1" "e = None \<longrightarrow> e1 = None"
      using assms t Inr p by (auto simp: loop_step_def Let_def split: option.splits sum.splits if_splits)
    with p show thesis by (intro that(2)) auto
  qed
qed

interpretation loop_conversation: refined_system iterates exchange "loop_rel ms"
proof
  fix l s i l'
  assume rel: "loop_rel ms l s" and it: "iterates l i l'"
  from it obtain rest rs e sim where l: "raised l = None" "unread l = received i @ rest"
    "loop_step i (looping l) = (rs, e, sim)" "l' = \<lparr>looping = sim, unread = rest, written = written l @ concat rs, raised = e\<rparr>"
    by (auto elim: iteratesE)
  have up: "crashed s = None" using rel l(1) by (simp add: loop_rel_def)
  from l(3) show "\<exists>as s'. run exchange s as s' \<and> loop_rel ms l' s'"
  proof (cases rule: loop_step_conversation)
    case (1 x)
    then have "loop_rel ms l' s" using rel l(4) by (simp add: loop_rel_def)
    then show ?thesis by (intro exI [of _ "[]"] exI [of _ s]) simp
  next
    case (2 w e1)
    let ?s1 = "s\<lparr>server := (server s)\<lparr>world := w\<rparr>, advanced := advanced s @ [w]\<rparr>"
    let ?s2 = "?s1\<lparr>server := conn sim, to_server := rest, to_client := to_client s @ concat rs, crashed := e1\<rparr>"
    have "take (length (received i)) (to_server s) = received i" "drop (length (received i)) (to_server s) = rest"
      using rel l(1,2) by (simp_all add: loop_rel_def)
    then have "run exchange s [Tick w, Serve (length (received i))] ?s2"
      using up 2(1) rel by (auto simp: exchange_simps loop_rel_def)
    moreover have "loop_rel ms l' ?s2" using rel 2(2) l(4) by (auto simp: loop_rel_def simp flip: append_assoc)
    ultimately show ?thesis by (intro exI conjI)
  qed
qed



end
