(* ===== verification/Capture.thy ===== *)
theory Capture
  imports RequestBuffer
begin

text \<open>
  The capture tools: \<open>testingTools/capture_ecu_outpc.py\<close> polls an ECU and writes the OUTPC blocks
  it receives to a file, and \<open>load_capture\<close> of \<open>replay_ecu_protocol.py\<close> and \<open>inspect_capture.py\<close>
  reads such files. The serial port is a parameter: a state \<open>'s\<close> with \<open>rd n\<close> for \<open>ser.read(n)\<close> and
  \<open>wr\<close> for \<open>ser.write\<close>.
\<close>

section \<open>The client's side of the protocol\<close>

definition crc32_ms :: "bytes \<Rightarrow> 32 word" where
  "crc32_ms data = crc32 data"

definition build_request :: "bytes \<Rightarrow> bytes result" where
  "build_request payload =
     bindE (struct_pack (BigEndian, FmtH) (int (length payload))) (\<lambda>header.
     bindE (struct_pack (BigEndian, FmtI) (uint (crc32_ms payload))) (\<lambda>trailer.
     Inr (header @ payload @ trailer)))"

definition read_response ::
  "(nat \<Rightarrow> 's \<Rightarrow> bytes \<times> 's) \<Rightarrow> 's \<Rightarrow> (byte \<times> bytes) option result \<times> 's" where
  "read_response rd s =
     (let (size_bytes, s1) = rd 2 s in
      if length size_bytes < 2 then (Inr None, s1)
      else let size = be_nat size_bytes; (payload, s2) = rd size s1 in
        if length payload < size then (Inr None, s2)
        else let (crc_bytes, s3) = rd 4 s2 in
          if length crc_bytes < 4 then (Inr None, s3)
          else if be_nat crc_bytes \<noteq> unat (crc32_ms payload) then (Inr None, s3)
          else case payload of
            [] \<Rightarrow> (Inl IndexError, s3)
          | flag # data \<Rightarrow> (Inr (Some (flag, data)), s3))"

definition query_signature ::
  "(nat \<Rightarrow> 's \<Rightarrow> bytes \<times> 's) \<Rightarrow> (bytes \<Rightarrow> 's \<Rightarrow> 's) \<Rightarrow> 's \<Rightarrow> string option result \<times> 's" where
  "query_signature rd wr s =
     (case build_request (encode ''Q'') of
        Inl e \<Rightarrow> (Inl e, s)
      | Inr req \<Rightarrow>
          (let (resp, s') = read_response rd (wr req s)
           in (bindE resp (\<lambda>r. Inr (map_option (\<lambda>(flag, data). decode_replace (rstrip_nul data)) r)), s')))"

lemma build_request_eq:
  "build_request payload = (if length payload \<le> 65535 then Inr (frame payload) else Inl StructError)"
  using pack_H [of "length payload"]
  by (auto simp: build_request_def crc32_ms_def frame_def pack_I simp del: be_bytes.simps)

context byte_source
begin

text \<open>A client takes the frame of a flag and a payload off its port, and leaves what follows.\<close>

lemma read_response_frame:
  assumes "avail s = frame (flag # payload) @ rest" and "length payload < 65535"
  shows "\<exists>s'. read_response read s = (Inr (Some (flag, payload)), s') \<and> avail s' = rest"
proof -
  let ?d = "flag # payload"
  have av: "avail s = be_bytes 2 (length ?d) @ ?d @ be_bytes 4 (unat (crc32 ?d)) @ rest"
    using assms(1) by (simp add: frame_def del: be_bytes.simps)
  from read_exact [OF av length_be_bytes] obtain s1 where
    s1: "read 2 s = (be_bytes 2 (length ?d), s1)" "avail s1 = ?d @ be_bytes 4 (unat (crc32 ?d)) @ rest" by blast
  from read_exact [OF s1(2) refl] obtain s2 where
    s2: "read (length ?d) s1 = (?d, s2)" "avail s2 = be_bytes 4 (unat (crc32 ?d)) @ rest" by blast
  from read_exact [OF s2(2) length_be_bytes] obtain s3 where
    s3: "read 4 s2 = (be_bytes 4 (unat (crc32 ?d)), s3)" "avail s3 = rest" by blast
  have size: "be_nat (be_bytes 2 (length ?d)) = length ?d"
    using assms(2) by (simp add: be_nat_be_bytes del: be_bytes.simps)
  show ?thesis
    using s2(1) s3 unfolding read_response_def s1(1) Let_def prod.case size
    by (simp add: crc32_ms_def del: be_bytes.simps)
qed

text \<open>While the frame is not complete the client reports nothing.\<close>

lemma read_response_cut:
  assumes "avail s @ c = frame (flag # payload)" and "c \<noteq> []" and "length payload < 65535"
  shows "fst (read_response read s) = Inr None"
proof (cases "length (avail s) < 2")
  case True
  then show ?thesis using read_short [of s 2] by (simp add: read_response_def case_prod_beta)
next
  case False
  let ?n = "length (flag # payload)"
  obtain x s1 where r1: "read 2 s = (x, s1)" by (cases "read 2 s")
  with read_bytes [of 2 s] read_avail [of 2 s] have x: "x = take 2 (avail s)" and a1: "avail s1 = drop 2 (avail s)" by simp_all
  have "take 2 (avail s @ c) = be_bytes 2 ?n" unfolding assms(1) by (simp add: frame_def del: be_bytes.simps)
  with False x have "x = be_bytes 2 ?n" by simp
  with assms(3) have size: "be_nat x = ?n" by (simp add: be_nat_be_bytes del: be_bytes.simps)
  obtain p s2 where r2: "read ?n s1 = (p, s2)" by (cases "read ?n s1")
  with read_bytes [of ?n s1] read_avail [of ?n s1] a1
  have p: "length p = min ?n (length (avail s) - 2)" and a2: "avail s2 = drop (?n + 2) (avail s)" by simp_all
  have lx: "\<not> length x < 2" using x False by simp
  have "length (avail s) < ?n + 6"
    using arg_cong [OF assms(1), of length] assms(2) by (cases c) auto
  then have "length (avail s2) < 4" using a2 by simp
  then have crc: "length (fst (read 4 s2)) < 4" by (rule read_short)
  show ?thesis
    using crc unfolding read_response_def r1 Let_def prod.case size r2 if_not_P [OF lx]
    by (simp add: case_prod_beta del: length_Cons)
qed

end

section \<open>Capture files\<close>

record capture_frame =
  timestamp_us :: nat
  outpc_data :: bytes

definition capture_header :: "string \<Rightarrow> bytes result" where
  "capture_header sig =
     (let sig_bytes = encode sig
      in bindE (struct_pack (LittleEndian, FmtI) (int (length sig_bytes))) (\<lambda>n.
         Inr (encode ''MS2CAP02'' @ n @ sig_bytes)))"

record capture_state =
  written :: bytes
  frame_count :: nat
  error_count :: nat

text \<open>
  What the polling loop does with one response: a realtime block is written with its time, any
  other outcome is an error. \<open>struct.pack("<QH", \<dots>)\<close> packs both numbers before anything is
  written.
\<close>

definition capture_poll :: "int \<Rightarrow> (byte \<times> bytes) option \<Rightarrow> capture_state \<Rightarrow> capture_state result" where
  "capture_poll ts resp st =
     (case resp of
        Some (flag, data) \<Rightarrow>
          if flag = 0x01 then
            bindE (struct_pack (LittleEndian, FmtQ) ts) (\<lambda>t.
            bindE (struct_pack (LittleEndian, FmtH) (int (length data))) (\<lambda>n.
            Inr (st\<lparr>written := written st @ t @ n @ data, frame_count := frame_count st + 1\<rparr>)))
          else Inr (st\<lparr>error_count := error_count st + 1\<rparr>)
      | None \<Rightarrow> Inr (st\<lparr>error_count := error_count st + 1\<rparr>))"

fun capture_polls :: "(int \<times> (byte \<times> bytes) option) list \<Rightarrow> capture_state \<Rightarrow> capture_state result" where
  "capture_polls [] st = Inr st"
| "capture_polls ((ts, resp) # polls) st = bindE (capture_poll ts resp st) (capture_polls polls)"

definition le_nat :: "bytes \<Rightarrow> nat" where
  "le_nat bs = be_nat (rev bs)"

text \<open>One turn of the reading loop; \<open>None\<close> is the \<open>break\<close>.\<close>

definition read_frame :: "bytes \<Rightarrow> (capture_frame \<times> bytes) option" where
  "read_frame f =
     (let (header, f1) = take_read 10 f in
      if length header < 10 then None
      else let ts = le_nat (slice header 0 8); n = le_nat (slice header 8 10);
               (data, f2) = take_read n f1
        in if length data < n then None
           else Some (\<lparr>timestamp_us = ts, outpc_data = data\<rparr>, f2))"

lemma read_frame_shorter: "read_frame f = Some (fr, r) \<Longrightarrow> length r < length f"
  by (auto simp: read_frame_def take_read_def Let_def split: if_splits)

function capture_frames :: "bytes \<Rightarrow> capture_frame list" where
  "capture_frames f =
     (case read_frame f of None \<Rightarrow> [] | Some (fr, r) \<Rightarrow> fr # capture_frames r)"
  by pat_completeness auto
termination by (relation "measure length") (auto dest: read_frame_shorter)

declare capture_frames.simps [simp del]

text \<open>\<open>load_capture\<close> of \<open>inspect_capture.py\<close>, which takes a capture without frames.\<close>

definition inspect_load_capture :: "bytes \<Rightarrow> (string \<times> capture_frame list) result" where
  "inspect_load_capture f =
     (let (magic, f1) = take_read 8 f in
      if magic = encode ''MS2CAP02'' then
        (let (n, f2) = take_read 4 f1 in
         bindE (struct_unpack (LittleEndian, FmtI) n) (\<lambda>sig_len.
           let (sig, f3) = take_read (nat sig_len) f2 in Inr (decode_replace sig, capture_frames f3)))
      else if magic = encode ''MS2CAP01'' then
        (let (n, f2) = take_read 4 f1 in
         bindE (struct_unpack (LittleEndian, FmtI) n) (\<lambda>baud. Inr (''MS2Extra comms330NP'', capture_frames f2)))
      else Inl ValueError)"

text \<open>\<open>load_capture\<close> of \<open>replay_ecu_protocol.py\<close>.\<close>

definition load_capture :: "bytes \<Rightarrow> (string \<times> nat \<times> capture_frame list) result" where
  "load_capture f =
     bindE (inspect_load_capture f) (\<lambda>(sig, frames).
       case frames of [] \<Rightarrow> Inl ValueError | fr # _ \<Rightarrow> Inr (sig, length (outpc_data fr), frames))"

section \<open>One frame on file\<close>

definition frame_bytes :: "capture_frame \<Rightarrow> bytes" where
  "frame_bytes fr = rev (be_bytes 8 (timestamp_us fr)) @ rev (be_bytes 2 (length (outpc_data fr))) @ outpc_data fr"

definition frame_ok :: "capture_frame \<Rightarrow> bool" where
  "frame_ok fr \<longleftrightarrow> timestamp_us fr < 256 ^ 8 \<and> length (outpc_data fr) \<le> 65535"

lemma le_nat_rev: "v < 256 ^ n \<Longrightarrow> le_nat (rev (be_bytes n v)) = v"
  by (simp add: le_nat_def be_nat_be_bytes)

interpretation frames: prefix_codec frame_bytes read_frame frame_ok
proof
  fix fr rest assume ok: "frame_ok fr"
  let ?t = "rev (be_bytes 8 (timestamp_us fr))" and ?n = "rev (be_bytes 2 (length (outpc_data fr)))"
  have hd: "take 10 (frame_bytes fr @ rest) = ?t @ ?n" and tl: "drop 10 (frame_bytes fr @ rest) = outpc_data fr @ rest"
    by (simp_all add: frame_bytes_def del: be_bytes.simps)
  have parts: "slice (?t @ ?n) 0 8 = ?t" "slice (?t @ ?n) 8 10 = ?n"
    by (simp_all add: slice_def del: be_bytes.simps)
  have "le_nat ?t = timestamp_us fr" "le_nat ?n = length (outpc_data fr)"
    using ok by (simp_all only: frame_ok_def le_nat_rev) (auto intro: le_nat_rev)
  then show "read_frame (frame_bytes fr @ rest) = Some (fr, rest)"
    unfolding read_frame_def take_read_def Let_def prod.case hd tl parts by (simp del: be_bytes.simps)
next
  fix fr b c assume ok: "frame_ok fr" and split: "frame_bytes fr = b @ c" and c: "c \<noteq> []"
  show "read_frame b = None"
  proof (cases "length b < 10")
    case False
    let ?t = "rev (be_bytes 8 (timestamp_us fr))" and ?n = "rev (be_bytes 2 (length (outpc_data fr)))"
    have "take 10 b = take 10 (frame_bytes fr)" using False unfolding split by simp
    then have hd: "take 10 b = ?t @ ?n" by (simp add: frame_bytes_def del: be_bytes.simps)
    have part: "slice (?t @ ?n) 8 10 = ?n" by (simp add: slice_def del: be_bytes.simps)
    have "le_nat ?n = length (outpc_data fr)" using ok by (intro le_nat_rev) (simp add: frame_ok_def)
    moreover have "length b < 10 + length (outpc_data fr)"
      using arg_cong [OF split, of length] c by (cases c) (auto simp: frame_bytes_def simp del: be_bytes.simps)
    ultimately show ?thesis
      using False unfolding read_frame_def take_read_def Let_def prod.case hd part
      by (simp add: less_diff_conv2 add.commute del: be_bytes.simps)
  qed (simp add: read_frame_def take_read_def)
qed (simp add: read_frame_def take_read_def)

lemma capture_frames_Cons: "read_frame f = Some (fr, r) \<Longrightarrow> capture_frames f = fr # capture_frames r"
  by (subst capture_frames.simps) simp

lemma capture_frames_stop: "read_frame f = None \<Longrightarrow> capture_frames f = []"
  by (subst capture_frames.simps) simp

lemma capture_frames_stream:
  "list_all frame_ok frs \<Longrightarrow>
     capture_frames (concat (List.map frame_bytes frs) @ r) = frs @ capture_frames r"
proof (induction frs)
  case (Cons fr frs)
  then have "read_frame (frame_bytes fr @ (concat (List.map frame_bytes frs) @ r)) =
      Some (fr, concat (List.map frame_bytes frs) @ r)"
    by (intro frames.dec_enc) simp
  from capture_frames_Cons [OF this] Cons show ?case by simp
qed simp

lemma capture_frames_cut:
  assumes "list_all frame_ok frs" and "concat (List.map frame_bytes frs) = b @ c"
  shows "\<exists>k. capture_frames b = take k frs \<and> (c = [] \<longrightarrow> k = length frs)"
proof -
  from frames.prefix_split [OF assms] obtain ys zs t where
    s: "frs = ys @ zs" "b = concat (List.map frame_bytes ys) @ t" "read_frame t = None"
    "t @ c = concat (List.map frame_bytes zs)" by blast
  with assms(1) have "capture_frames b = ys"
    by (simp add: capture_frames_stream capture_frames_stop)
  moreover have "zs = []" if "c = []"
  proof (cases zs)
    case (Cons z zs')
    with s(4) that have "t = frame_bytes z @ concat (List.map frame_bytes zs')" by simp
    moreover have "frame_ok z" using assms(1) s(1) Cons by simp
    ultimately have "read_frame t \<noteq> None" using frames.dec_enc by simp
    with s(3) show ?thesis by simp
  qed
  ultimately show ?thesis using s(1) by (intro exI [of _ "length ys"]) auto
qed

section \<open>A client on the simulator's port\<close>

text \<open>
  The two programs joined: what the client writes is received by the simulator and answered,
  and the answers wait for the client to read.
\<close>

record 'w ecu_port =
  ecu :: "'w request_buffer"
  inbound :: bytes

definition port_read :: "nat \<Rightarrow> 'w ecu_port \<Rightarrow> bytes \<times> 'w ecu_port" where
  "port_read n p = (take n (inbound p), p\<lparr>inbound := drop n (inbound p)\<rparr>)"

definition port_write :: "bytes \<Rightarrow> 'w ecu_port \<Rightarrow> 'w ecu_port" where
  "port_write data p =
     (let (rs, e, c) = process_requests (add_data data (ecu p))
      in p\<lparr>ecu := c, inbound := inbound p @ concat rs\<rparr>)"

interpretation port_source: byte_source port_read inbound
  by unfold_locales (simp_all add: port_read_def)

text \<open>A framed request on an idle port is answered at once, and the port is idle again.\<close>

lemma process_one:
  assumes "payload_ok req" and "buffer c = frame req"
    and "handle_request (protocol c) (world c) req = (Some (Inr r), p', w')"
  shows "process_requests c = ([r], None, c\<lparr>protocol := p', world := w', buffer := []\<rparr>)"
proof -
  have "answers c [Framed req] = ([r], None, c\<lparr>protocol := p', world := w'\<rparr>)"
    using assms(3) by simp
  with process_stream [of "[Framed req]" c "[]"] assms(1,2) show ?thesis
    by (auto simp: waiting_def)
qed

lemma signature_request:
  "length (signature (config p)) < 65534 \<Longrightarrow>
     handle_request p w [0x51] = (Some (Inr (frame (FLAG_OK # (encode (signature (config p)) @ [0])))), p, w)"
  by (simp add: handle_request_hd Let_def handle_signature_query_def build_response_eq)

lemma port_exchange:
  assumes "buffer (ecu p) = []" and "inbound p = []" and "payload_ok req" and "length payload < 65535"
    and "handle_request (protocol (ecu p)) (world (ecu p)) req = (Some (Inr (frame (flag # payload))), p', w')"
  shows "read_response port_read (port_write (frame req) p) =
    (Inr (Some (flag, payload)), p\<lparr>ecu := (ecu p)\<lparr>protocol := p', world := w'\<rparr>\<rparr>)"
proof -
  let ?c = "add_data (frame req) (ecu p)" and ?q = "p\<lparr>ecu := (ecu p)\<lparr>protocol := p', world := w'\<rparr>\<rparr>"
  have "process_requests ?c = ([frame (flag # payload)], None, ?c\<lparr>protocol := p', world := w', buffer := []\<rparr>)"
    using assms by (intro process_one) (simp_all add: add_data_def)
  then have w: "port_write (frame req) p = ?q\<lparr>inbound := frame (flag # payload)\<rparr>"
    using assms(1,2) by (simp add: port_write_def add_data_def)
  let ?d = "flag # payload"
  have f: "frame ?d = be_bytes 2 (length ?d) @ ?d @ be_bytes 4 (unat (crc32 ?d))" by (simp only: frame_def)
  have size: "be_nat (be_bytes 2 (length ?d)) = length ?d"
    using assms(4) by (simp add: be_nat_be_bytes del: be_bytes.simps)
  have r1: "port_read 2 (?q\<lparr>inbound := frame ?d\<rparr>) =
      (be_bytes 2 (length ?d), ?q\<lparr>inbound := ?d @ be_bytes 4 (unat (crc32 ?d))\<rparr>)"
    by (simp add: port_read_def f del: be_bytes.simps)
  have r2: "port_read (length ?d) (?q\<lparr>inbound := ?d @ be_bytes 4 (unat (crc32 ?d))\<rparr>) =
      (?d, ?q\<lparr>inbound := be_bytes 4 (unat (crc32 ?d))\<rparr>)"
    by (simp add: port_read_def del: be_bytes.simps)
  have r3: "port_read 4 (?q\<lparr>inbound := be_bytes 4 (unat (crc32 ?d))\<rparr>) =
      (be_bytes 4 (unat (crc32 ?d)), ?q\<lparr>inbound := []\<rparr>)"
    by (simp add: port_read_def del: be_bytes.simps)
  have "?q\<lparr>inbound := []\<rparr> = ?q" using assms(2) by simp
  then show ?thesis
    unfolding w read_response_def r1 Let_def prod.case size r2 r3
    by (simp add: crc32_ms_def del: be_bytes.simps)
qed

text \<open>
  A client that asks a simulator for its signature gets it: the frame it builds is parsed,
  dispatched and answered, and the answer it decodes is the configured signature, for an ASCII
  signature that does not end in a NUL character.
\<close>

lemma query_signature_end_to_end:
  assumes "buffer (ecu p) = []" and "inbound p = []"
    and "s = signature (config (protocol (ecu p)))" and "length s < 65534"
    and "list_all (\<lambda>c. of_char c < (128 :: nat)) s" and "s = [] \<or> last (encode s) \<noteq> 0"
  shows "query_signature port_read port_write p = (Inr (Some s), p)"
proof -
  have "read_response port_read (port_write (frame [0x51]) p) = (Inr (Some (FLAG_OK, encode s @ [0])), p)"
    using port_exchange [OF assms(1,2) _ _ signature_request] assms(3,4)
    by (simp add: payload_ok_def)
  moreover have "rstrip_nul (encode s) = encode s"
    using assms(6) by (intro rstrip_nul_id) (auto simp: encode_def)
  ultimately show ?thesis
    using assms(5) by (simp add: query_signature_def build_request_eq decode_encode_ascii)
qed

definition idle_port :: "unit ecu_port" where
  "idle_port = \<lparr>ecu = RequestBuffer (SerialProtocol None) (), inbound = []\<rparr>"

text \<open>The request of the polling loop, and what it reads back.\<close>

definition query_outpc ::
  "(nat \<Rightarrow> 's \<Rightarrow> bytes \<times> 's) \<Rightarrow> (bytes \<Rightarrow> 's \<Rightarrow> 's) \<Rightarrow> 's \<Rightarrow> (byte \<times> bytes) option result \<times> 's" where
  "query_outpc rd wr s =
     (case build_request (encode ''A'') of Inl e \<Rightarrow> (Inl e, s) | Inr req \<Rightarrow> read_response rd (wr req s))"

lemma query_outpc_port:
  assumes "buffer (ecu p) = []" and "inbound p = []"
    and "fetch_outpc (protocol (ecu p)) (world (ecu p)) = (Inr outpc, w')" and "length outpc < 65535"
  shows "query_outpc port_read port_write p =
    (Inr (Some (0x01, outpc)), p\<lparr>ecu := (ecu p)\<lparr>world := w'\<rparr>\<rparr>)"
proof -
  have "handle_request (protocol (ecu p)) (world (ecu p)) [0x41] =
      (Some (Inr (frame (0x01 # outpc))), protocol (ecu p), w')"
    using assms(3,4)
    by (simp add: handle_request_hd Let_def handle_realtime_query_def build_response_eq FLAG_REALTIME_def)
  from port_exchange [OF assms(1,2) _ assms(4) this] show ?thesis
    by (simp add: query_outpc_def build_request_eq payload_ok_def)
qed

section \<open>Properties of the client and of capture files\<close>

text \<open>
  A client decodes exactly the response the simulator built: from a port that delivers the
  response and more, it takes the flag and the payload and leaves the rest; from a port that
  delivers only part of the response it reports a failure, never a wrong payload.
\<close>

lemma client_reads_response:
  assumes "build_response flag payload = Inr bs"
  shows "read_response take_read (bs @ rest) = (Inr (Some (flag, payload)), rest) \<and>
    (\<forall>n<length bs. fst (read_response take_read (take n bs)) = Inr None)"
proof -
  from assms have bs: "bs = frame (flag # payload)" and len: "length payload < 65535"
    by (simp_all add: build_response_eq split: if_splits)
  have "fst (read_response take_read (take n bs)) = Inr None" if "n < length bs" for n
    using that len by (intro file_source.read_response_cut [of _ "drop n bs"]) (simp_all add: bs)
  with file_source.read_response_frame [of "bs @ rest" flag payload rest] bs len show ?thesis by auto
qed

text \<open>
  A frame of size zero with its correct checksum, six zero bytes, is not handled: the client
  indexes the empty payload and the exception ends the capture.
\<close>

lemma empty_frame_raises:
  "read_response take_read (zeros 6 @ rest) = (Inl IndexError, rest)"
proof -
  have "crc32 [] = 0" by (simp add: crc32_def encode_def)
  then show ?thesis
    by (simp add: read_response_def take_read_def zeros_def numeral_eq_Suc be_nat_def crc32_ms_def)
qed

lemma capture_header_eq:
  "length sig < 4294967296 \<Longrightarrow>
     capture_header sig = Inr (encode ''MS2CAP02'' @ rev (be_bytes 4 (length sig)) @ encode sig)"
  by (simp add: capture_header_def struct_pack_def in_fmt_def fmt_lo_def fmt_hi_def order_bytes_def
      nat_mod_as_int Let_def del: be_bytes.simps)

definition recorded :: "(int \<times> (byte \<times> bytes) option) list \<Rightarrow> capture_frame list" where
  "recorded polls =
     List.map (\<lambda>(ts, resp). \<lparr>timestamp_us = nat ts, outpc_data = snd (the resp)\<rparr>)
       (List.filter (\<lambda>(ts, resp). resp \<noteq> None \<and> fst (the resp) = 0x01) polls)"

lemma capture_polls_eq:
  "list_all (\<lambda>(ts, resp). 0 \<le> ts \<and> ts < 256 ^ 8 \<and> (\<forall>r. resp = Some r \<longrightarrow> length (snd r) \<le> 65535)) polls \<Longrightarrow>
     capture_polls polls st = Inr (st\<lparr>written := written st @ concat (List.map frame_bytes (recorded polls)),
       frame_count := frame_count st + length (recorded polls),
       error_count := error_count st + (length polls - length (recorded polls))\<rparr>)"
proof (induction polls arbitrary: st)
  case (Cons p polls)
  obtain ts resp where p: "p = (ts, resp)" by (cases p)
  have le: "length (recorded polls) \<le> length polls" by (simp add: recorded_def)
  show ?case
  proof (cases "resp \<noteq> None \<and> fst (the resp) = 0x01")
    case True
    then obtain d where r: "resp = Some (1, d)" by (cases resp) auto
    with Cons.prems p have "0 \<le> ts" "ts < 256 ^ 8" "length d \<le> 65535" by auto
    then have pk: "struct_pack (LittleEndian, FmtQ) ts = Inr (rev (be_bytes 8 (nat ts)))"
      "struct_pack (LittleEndian, FmtH) (int (length d)) = Inr (rev (be_bytes 2 (length d)))"
      by (simp_all add: struct_pack_def in_fmt_def fmt_lo_def fmt_hi_def order_bytes_def nat_mod_as_int
          del: be_bytes.simps)
    have rec: "recorded ((ts, Some (1, d)) # polls) = \<lparr>timestamp_us = nat ts, outpc_data = d\<rparr> # recorded polls"
      by (simp add: recorded_def)
    show ?thesis
      using Cons.IH Cons.prems le unfolding p r rec
      by (simp add: capture_poll_def pk frame_bytes_def del: be_bytes.simps)
  next
    case False
    then have rec: "recorded (p # polls) = recorded polls" by (auto simp: recorded_def p)
    have "capture_poll ts resp st = Inr (st\<lparr>error_count := error_count st + 1\<rparr>)"
      using False by (auto simp: capture_poll_def split: option.splits)
    with Cons.IH [of "st\<lparr>error_count := error_count st + 1\<rparr>"] Cons.prems le rec p show ?thesis
      by (simp add: Suc_diff_le)
  qed
qed (simp add: recorded_def)

definition polls_ok :: "(int \<times> (byte \<times> bytes) option) list \<Rightarrow> bool" where
  "polls_ok polls \<longleftrightarrow> list_all (\<lambda>(ts, resp). 0 \<le> ts \<and> ts < 256 ^ 8 \<and>
     (case resp of None \<Rightarrow> True | Some r \<Rightarrow> length (snd r) \<le> 65535)) polls"

lemma recorded_ok: "polls_ok polls \<Longrightarrow> list_all frame_ok (recorded polls)"
  by (auto simp: polls_ok_def recorded_def list_all_iff frame_ok_def)

lemma inspect_load_header:
  assumes "length sig < 4294967296"
  shows "inspect_load_capture (encode ''MS2CAP02'' @ rev (be_bytes 4 (length sig)) @ encode sig @ f) =
    Inr (decode_replace (encode sig), capture_frames f)"
proof -
  let ?n = "rev (be_bytes 4 (length sig))" and ?m = "encode ''MS2CAP02''"
  have n: "struct_unpack (LittleEndian, FmtI) ?n = Inr (int (length sig))"
    using assms by (simp add: struct_unpack_def fmt_value_def order_bytes_def be_nat_be_bytes del: be_bytes.simps)
  have "take 8 (?m @ ?n @ encode sig @ f) = ?m" "drop 8 (?m @ ?n @ encode sig @ f) = ?n @ encode sig @ f"
    by (simp_all del: be_bytes.simps)
  moreover have "take 4 (?n @ encode sig @ f) = ?n" "drop 4 (?n @ encode sig @ f) = encode sig @ f"
    by (simp_all del: be_bytes.simps)
  ultimately show ?thesis
    by (simp add: inspect_load_capture_def take_read_def n del: be_bytes.simps)
qed

text \<open>
  C25: a capture loads back as it was recorded, and an interrupted one as far as it got. For a
  signature of ASCII text and polls whose times fit 64 bits, the file written holds the realtime
  blocks in order; read back whole it gives the signature and all of them, and cut at any point
  after its header it gives the signature and an initial part of them.
\<close>

theorem capture_file_roundtrip:
  assumes "polls_ok polls" and "length sig < 4294967296" and "list_all (\<lambda>c. of_char c < (128 :: nat)) sig"
  shows "\<exists>h st. capture_header sig = Inr h \<and>
    capture_polls polls \<lparr>written = h, frame_count = 0, error_count = 0\<rparr> = Inr st \<and>
    frame_count st = length (recorded polls) \<and> error_count st = length polls - length (recorded polls) \<and>
    inspect_load_capture (written st) = Inr (sig, recorded polls) \<and>
    (\<forall>n\<ge>length h. \<exists>k. inspect_load_capture (take n (written st)) = Inr (sig, take k (recorded polls)))"
proof -
  let ?h = "encode ''MS2CAP02'' @ rev (be_bytes 4 (length sig)) @ encode sig"
  let ?fs = "concat (List.map frame_bytes (recorded polls))"
  have ok: "list_all frame_ok (recorded polls)" by (rule recorded_ok [OF assms(1)])
  have run: "capture_polls polls \<lparr>written = ?h, frame_count = 0, error_count = 0\<rparr> =
      Inr \<lparr>written = ?h @ ?fs, frame_count = length (recorded polls),
        error_count = length polls - length (recorded polls)\<rparr>"
    using capture_polls_eq [of polls "\<lparr>written = ?h, frame_count = 0, error_count = 0\<rparr>"] assms(1)
    by (simp add: polls_ok_def list_all_iff case_prod_beta del: be_bytes.simps split: option.splits)
  have load: "inspect_load_capture (?h @ f) = Inr (sig, capture_frames f)" for f
    using inspect_load_header [OF assms(2), of f] assms(3)
    by (simp add: decode_encode_ascii del: be_bytes.simps)
  have "\<exists>k. inspect_load_capture (take n (?h @ ?fs)) = Inr (sig, take k (recorded polls))" if "length ?h \<le> n" for n
  proof -
    have "take n (?h @ ?fs) = ?h @ take (n - length ?h) ?fs" by (rule take_beyond [OF that])
    moreover obtain k where "capture_frames (take (n - length ?h) ?fs) = take k (recorded polls)"
      using capture_frames_cut [OF ok, of "take (n - length ?h) ?fs" "drop (n - length ?h) ?fs"] by auto
    ultimately show ?thesis by (metis load)
  qed
  moreover have "capture_frames ?fs = recorded polls"
    using capture_frames_cut [OF ok, of ?fs "[]"] by auto
  then have "inspect_load_capture (?h @ ?fs) = Inr (sig, recorded polls)" by (simp only: load)
  ultimately show ?thesis
    using run capture_header_eq [OF assms(2)] by (intro exI conjI) (assumption | simp)+
qed

theorem capture_file_roundtrip_witness:
  "\<exists>h st. capture_header ''MS2'' = Inr h \<and>
    capture_polls [(0, Some (1, [7])), (5, None)] \<lparr>written = h, frame_count = 0, error_count = 0\<rparr> = Inr st \<and>
    inspect_load_capture (written st) = Inr (''MS2'', [\<lparr>timestamp_us = 0, outpc_data = [7]\<rparr>])"
  using capture_file_roundtrip [of "[(0, Some (1, [7])), (5, None)]" "''MS2''"]
  by (auto simp: polls_ok_def recorded_def)

end
