(* ===== verification/Replay.thy ===== *)
theory Replay
  imports Capture
begin

text \<open>
  \<open>testingTools/replay_ecu_protocol.py\<close>: the server that replays a capture. The pseudo-terminal is
  what it delivers to the server, poll by poll; writes to it succeed, and the prints are left out.
\<close>

section \<open>The pseudo-terminal\<close>

text \<open>
  What happens before one \<open>select\<close> returns: nothing, bytes arriving (some may stay pending after
  the read), or the other side closed, so that the read raises \<open>OSError\<close>.
\<close>

datatype poll = Quiet | Data bytes | Broken

record serial_fd =
  pending :: bytes
  arrivals :: "poll list"

definition read_pending :: "nat \<Rightarrow> bytes \<Rightarrow> serial_fd \<Rightarrow> bytes result option \<times> serial_fd" where
  "read_pending n bs fd =
     (if bs = [] then (None, fd\<lparr>pending := []\<rparr>) else (Some (Inr (take n bs)), fd\<lparr>pending := drop n bs\<rparr>))"

text \<open>\<open>select\<close>, then \<open>os.read(fd, n)\<close> if it is ready; \<open>None\<close> if it is not.\<close>

definition poll_read :: "nat \<Rightarrow> serial_fd \<Rightarrow> bytes result option \<times> serial_fd" where
  "poll_read n fd =
     (case arrivals fd of
        [] \<Rightarrow> read_pending n (pending fd) fd
      | Quiet # as \<Rightarrow> read_pending n (pending fd) (fd\<lparr>arrivals := as\<rparr>)
      | Data bs # as \<Rightarrow> read_pending n (pending fd @ bs) (fd\<lparr>arrivals := as\<rparr>)
      | Broken # as \<Rightarrow> (Some (Inl OSError), fd\<lparr>arrivals := as\<rparr>))"

text \<open>All the bytes a terminal has still to deliver.\<close>

definition stream :: "serial_fd \<Rightarrow> bytes" where
  "stream fd = pending fd @ concat (List.map (\<lambda>a. case a of Data bs \<Rightarrow> bs | _ \<Rightarrow> []) (arrivals fd))"

section \<open>Reading a request\<close>

text \<open>The loop \<open>while len(buffer) < total_needed and attempts < 100\<close>, with the attempts left.\<close>

primrec read_more :: "nat \<Rightarrow> nat \<Rightarrow> bytes \<Rightarrow> serial_fd \<Rightarrow> bytes \<times> serial_fd" where
  "read_more 0 total_needed buf fd = (buf, fd)"
| "read_more (Suc k) total_needed buf fd =
     (if length buf < total_needed then
        (case poll_read (total_needed - length buf) fd of
           (None, fd') \<Rightarrow> read_more k total_needed buf fd'
         | (Some (Inr chunk), fd') \<Rightarrow> read_more k total_needed (buf @ chunk) fd'
         | (Some (Inl e), fd') \<Rightarrow> (buf, fd'))
      else (buf, fd))"

text \<open>The first part: the bytes of the size, or \<open>Inl\<close> for the early return at an \<open>OSError\<close>.\<close>

definition read_size :: "bytes \<Rightarrow> serial_fd \<Rightarrow> (bytes + bytes) \<times> serial_fd" where
  "read_size buf fd =
     (if length buf < 2 then
        (case poll_read 1024 fd of
           (None, fd') \<Rightarrow> (Inr buf, fd')
         | (Some (Inr chunk), fd') \<Rightarrow> (Inr (buf @ chunk), fd')
         | (Some (Inl e), fd') \<Rightarrow> (Inl buf, fd'))
      else (Inr buf, fd))"

text \<open>With at most \<open>attempts\<close> reads for the rest of a frame.\<close>

definition framed_request :: "nat \<Rightarrow> serial_fd \<Rightarrow> bytes \<Rightarrow> bytes option \<times> bytes \<times> serial_fd" where
  "framed_request attempts fd remaining =
     (case read_size remaining fd of
        (Inl buf, fd1) \<Rightarrow> (None, buf, fd1)
      | (Inr buf, fd1) \<Rightarrow>
          if length buf < 2 then (None, buf, fd1)
          else let size = be_nat (slice buf 0 2) in
            if size = 0 \<or> size > 1024 then (None, drop 1 buf, fd1)
            else let total_needed = 2 + size + 4; (buf', fd2) = read_more attempts total_needed buf fd1 in
              if length buf' < total_needed then (None, buf', fd2)
              else let payload = slice buf' 2 (2 + size);
                       crc_bytes = slice buf' (2 + size) (2 + size + 4);
                       remaining_bytes = drop total_needed buf'
                   in if be_nat crc_bytes \<noteq> unat (crc32_ms payload) then (None, remaining_bytes, fd2)
                      else (Some payload, remaining_bytes, fd2))"

definition read_framed_request :: "serial_fd \<Rightarrow> bytes \<Rightarrow> bytes option \<times> bytes \<times> serial_fd" where
  "read_framed_request fd remaining = framed_request 100 fd remaining"

definition parse_r_command :: "bytes \<Rightarrow> (nat \<times> nat \<times> nat \<times> nat) option" where
  "parse_r_command payload =
     (if length payload < 7 \<or> payload ! 0 \<noteq> 0x72 then None
      else Some (unat (payload ! 1), unat (payload ! 2), be_nat (slice payload 3 5), be_nat (slice payload 5 7)))"

section \<open>The server\<close>

record replay_server =
  frames :: "capture_frame list"
  sig_response :: bytes
  version_response :: bytes
  looping :: bool
  frame_index :: nat
  request_count :: nat
  outpc_request_count :: nat
  loop_count :: nat
  read_buffer :: bytes

text \<open>
  Loading the capture and preparing the responses. \<open>Inr None\<close> is the exit with an error message
  that the handler of \<open>ValueError\<close> and \<open>FileNotFoundError\<close> makes; \<open>Inl\<close> an exception it lets pass.
\<close>

definition start_replay :: "bytes option \<Rightarrow> bool \<Rightarrow> string option \<Rightarrow> replay_server option result" where
  "start_replay file loop signature_override =
     (case file of
        None \<Rightarrow> Inr None
      | Some f \<Rightarrow>
          (case load_capture f of
             Inl e \<Rightarrow> if e = ValueError then Inr None else Inl e
           | Inr (sig0, block_size, frs) \<Rightarrow>
               let sig = (case signature_override of Some s \<Rightarrow> if s = [] then sig0 else s | None \<Rightarrow> sig0);
                   sig_bytes = take 19 (encode sig) @ [0]
               in Inr (Some \<lparr>frames = frs, sig_response = ljust 20 0 sig_bytes,
                    version_response = ljust 60 0 sig_bytes, looping = loop, frame_index = 0,
                    request_count = 0, outpc_request_count = 0, loop_count = 0, read_buffer = []\<rparr>)))"

text \<open>Serving one OUTPC block, whole or a slice of it, and moving on to the next frame.\<close>

definition serve_frame :: "(bytes \<Rightarrow> bytes) \<Rightarrow> replay_server \<Rightarrow> bytes result \<times> replay_server" where
  "serve_frame view st =
     (if frame_index st < length (frames st) then
        (case build_response 0x01 (view (outpc_data (frames st ! frame_index st))) of
           Inl e \<Rightarrow> (Inl e, st)
         | Inr response \<Rightarrow>
             let i = (frame_index st + 1) mod length (frames st)
             in (Inr response,
                 st\<lparr>outpc_request_count := outpc_request_count st + 1, frame_index := i,
                   loop_count := (if i = 0 \<and> looping st then loop_count st + 1 else loop_count st)\<rparr>))
      else (Inl IndexError, st))"

definition handle_replay_request :: "replay_server \<Rightarrow> bytes \<Rightarrow> bytes result \<times> replay_server" where
  "handle_replay_request st0 request =
     (let st = st0\<lparr>request_count := request_count st0 + 1\<rparr> in
      if request = encode ''Q'' then (build_response 0x00 (sig_response st), st)
      else if request = encode ''A'' then serve_frame (\<lambda>d. d) st
      else if request = encode ''S'' then (build_response 0x00 (version_response st), st)
      else if slice request 0 1 = encode ''r'' then
        (case parse_r_command request of
           Some (can, table, offset, count) \<Rightarrow>
             if table = TABLE_SIGNATURE then
               (build_response 0x00 (slice (sig_response st) offset (offset + count)), st)
             else if table = TABLE_VERSION then
               (build_response 0x00 (slice (version_response st) offset (offset + count)), st)
             else if table = TABLE_OUTPC then serve_frame (\<lambda>d. slice d offset (offset + count)) st
             else if table \<in> set TABLE_PAGES then (build_response 0x00 (zeros count), st)
             else (build_response 0x00 (zeros count), st)
         | None \<Rightarrow> (build_response 0x83 [], st))
      else (build_response 0x83 [], st))"

lemma read_pending_stream:
  "read_pending n bs fd = (Some (Inr c), fd') \<Longrightarrow> arrivals fd' = arrivals fd \<and> bs = c @ pending fd'"
  "read_pending n bs fd = (None, fd') \<Longrightarrow> arrivals fd' = arrivals fd \<and> bs = pending fd'"
  "read_pending n bs fd \<noteq> (Some (Inl e), fd')"
  by (auto simp: read_pending_def split: if_splits)

lemma poll_read_stream:
  "poll_read n fd = (Some (Inr c), fd') \<Longrightarrow> stream fd = c @ stream fd'"
  "poll_read n fd = (None, fd') \<Longrightarrow> stream fd' = stream fd"
  "poll_read n fd = (Some (Inl e), fd') \<Longrightarrow> stream fd' = stream fd"
  by (auto simp: poll_read_def stream_def read_pending_stream(3)
      dest!: read_pending_stream(1,2) split: list.splits poll.splits)

lemma read_more_stream:
  "read_more k needed buf fd = (buf', fd') \<Longrightarrow> \<exists>got. buf' = buf @ got \<and> stream fd = got @ stream fd'"
proof (induction k arbitrary: buf fd)
  case (Suc k)
  obtain x fd1 where p: "poll_read (needed - length buf) fd = (x, fd1)" by (cases "poll_read (needed - length buf) fd")
  show ?case
  proof (cases "length buf < needed")
    case True
    show ?thesis
    proof (cases x)
      case None
      with Suc.IH [of buf fd1] Suc.prems p True poll_read_stream(2) show ?thesis by fastforce
    next
      case (Some y)
      show ?thesis
      proof (cases y)
        case (Inl e)
        with Some p True Suc.prems poll_read_stream(3) show ?thesis by fastforce
      next
        case (Inr c)
        with Suc.IH [of "buf @ c" fd1] Suc.prems p True Some obtain got where
          "buf' = (buf @ c) @ got" "stream fd1 = got @ stream fd'" by auto
        with p Some Inr poll_read_stream(1) show ?thesis by (intro exI [of _ "c @ got"]) auto
      qed
    qed
  qed (use Suc.prems in simp)
qed simp

lemma read_size_stream:
  "read_size buf fd = (r, fd') \<Longrightarrow>
     \<exists>got. stream fd = got @ stream fd' \<and> (r = Inr (buf @ got) \<or> (r = Inl buf \<and> got = [] \<and> length buf < 2))"
  using poll_read_stream
  by (fastforce simp: read_size_def split: if_splits prod.splits option.splits sum.splits)

text \<open>
  Reading a request is the simulator's parser run on the leftover bytes and some bytes taken
  from the terminal.
\<close>

lemma slice_prefix: "j \<le> length b \<Longrightarrow> slice (b @ c) i j = slice b i j"
  by (simp add: slice_def)

lemma framed_request_parses:
  assumes "framed_request k fd rem = (x, r, fd')"
  shows "\<exists>got. parse_framed_request (rem @ got) = (x, r) \<and> stream fd = got @ stream fd'"
proof -
  obtain rs fd1 where rs: "read_size rem fd = (rs, fd1)" by (cases "read_size rem fd")
  from read_size_stream [OF rs] obtain g where g: "stream fd = g @ stream fd1"
    "rs = Inr (rem @ g) \<or> (rs = Inl rem \<and> g = [] \<and> length rem < 2)" by blast
  show ?thesis
  proof (cases rs)
    case (Inl b)
    with g assms rs have "g = []" "length rem < 2" "x = None" "r = rem" "fd' = fd1"
      by (auto simp: framed_request_def)
    with g show ?thesis by (intro exI [of _ "[]"]) (simp add: parse_short_header)
  next
    case (Inr b)
    with g have b: "b = rem @ g" by simp
    let ?size = "be_nat (slice b 0 2)"
    show ?thesis
    proof (cases "length b < 2 \<or> ?size = 0 \<or> 1024 < ?size")
      case True
      with assms rs Inr have "parse_framed_request b = (x, r) \<and> fd' = fd1"
        by (auto simp: framed_request_def parse_framed_request_def Let_def split: if_splits)
      with g b show ?thesis by auto
    next
      case False
      obtain b' fd2 where m: "read_more k (2 + ?size + 4) b fd1 = (b', fd2)"
        by (cases "read_more k (2 + ?size + 4) b fd1")
      from read_more_stream [OF m] obtain got where got: "b' = b @ got" "stream fd1 = got @ stream fd2" by blast
      have sz: "be_nat (slice b' 0 2) = ?size" using False got(1) by (simp add: slice_prefix)
      have "parse_framed_request b' = (x, r) \<and> fd' = fd2"
        using assms False got(1) m
        unfolding framed_request_def rs Inr parse_framed_request_def Let_def sz crc32_ms_def
        by (simp split: if_splits)
      with g got b show ?thesis by (intro exI [of _ "g @ got"]) simp
    qed
  qed
qed

lemma framed_request_shorter:
  "framed_request k fd rem = (Some p, r, fd') \<Longrightarrow>
     length r + length (stream fd') < length rem + length (stream fd)"
proof -
  assume "framed_request k fd rem = (Some p, r, fd')"
  from framed_request_parses [OF this] obtain got where
    "parse_framed_request (rem @ got) = (Some p, r)" "stream fd = got @ stream fd'" by blast
  with parse_Some have "length (rem @ got) = length (frame p @ r)" by metis
  with \<open>stream fd = got @ stream fd'\<close> show ?thesis by simp
qed

lemmas read_framed_request_parses = framed_request_parses [where k = 100, folded read_framed_request_def]
lemmas read_framed_request_shorter = framed_request_shorter [where k = 100, folded read_framed_request_def]

lemma handle_replay_request_buffer [simp]:
  "read_buffer (snd (handle_replay_request st req)) = read_buffer st"
  by (simp add: handle_replay_request_def serve_frame_def Let_def split: option.splits sum.splits)

text \<open>The loop \<open>while read_buffer\<close>: the responses written and the exception that ended it.\<close>

function replay_requests ::
  "replay_server \<Rightarrow> serial_fd \<Rightarrow> bytes list \<times> py_error option \<times> replay_server \<times> serial_fd" where
  "replay_requests st fd =
     (if read_buffer st = [] then ([], None, st, fd)
      else if slice (read_buffer st) 0 1 = encode ''F'' then
        (let (rs, e, st', fd') = replay_requests
           (st\<lparr>request_count := request_count st + 1, read_buffer := drop 1 (read_buffer st)\<rparr>) fd
         in (encode ''002'' # rs, e, st', fd'))
      else (case read_framed_request fd (read_buffer st) of
          (None, r, fd') \<Rightarrow> ([], None, st\<lparr>read_buffer := r\<rparr>, fd')
        | (Some request, r, fd') \<Rightarrow>
            (case handle_replay_request (st\<lparr>read_buffer := r\<rparr>) request of
               (Inl e, st') \<Rightarrow> ([], Some e, st', fd')
             | (Inr response, st') \<Rightarrow>
                 (let (rs, e, st'', fd'') = replay_requests st' fd'
                  in (response # rs, e, st'', fd'')))))"
  by pat_completeness auto
termination
  by (relation "measure (\<lambda>(st, fd). length (read_buffer st) + length (stream fd))")
    (auto dest!: read_framed_request_shorter [OF sym] arg_cong [of _ _ "\<lambda>x. read_buffer (snd x)"])

declare replay_requests.simps [simp del]

text \<open>One turn of the main loop; the debug mode reads and throws away.\<close>

definition replay_turn ::
  "bool \<Rightarrow> replay_server \<Rightarrow> serial_fd \<Rightarrow> bytes list \<times> py_error option \<times> replay_server \<times> serial_fd" where
  "replay_turn debug st fd =
     (case poll_read (if debug then 128 else 1024) fd of
        (Some (Inr raw_data), fd') \<Rightarrow>
          if debug \<or> raw_data = [] then ([], None, st, fd')
          else replay_requests (st\<lparr>read_buffer := read_buffer st @ raw_data\<rparr>) fd'
      | (_, fd') \<Rightarrow> ([], None, st, fd'))"

primrec replay_turns ::
  "nat \<Rightarrow> bool \<Rightarrow> replay_server \<Rightarrow> serial_fd \<Rightarrow> bytes list \<times> py_error option \<times> replay_server \<times> serial_fd" where
  "replay_turns 0 debug st fd = ([], None, st, fd)"
| "replay_turns (Suc n) debug st fd =
     (case replay_turn debug st fd of
        (rs, Some e, st', fd') \<Rightarrow> (rs, Some e, st', fd')
      | (rs, None, st', fd') \<Rightarrow>
          (let (rs', e, st'', fd'') = replay_turns n debug st' fd' in (rs @ rs', e, st'', fd'')))"

section \<open>The replay position\<close>

text \<open>Where the replay stands after \<open>outpc_request_count\<close> blocks.\<close>

definition replay_ok :: "capture_frame list \<Rightarrow> replay_server \<Rightarrow> bool" where
  "replay_ok frs st \<longleftrightarrow> frames st = frs \<and> frs \<noteq> [] \<and>
     frame_index st = outpc_request_count st mod length frs \<and>
     loop_count st = (if looping st then outpc_request_count st div length frs else 0)"

lemma replay_ok_buffer [simp]: "replay_ok frs (st\<lparr>read_buffer := b\<rparr>) = replay_ok frs st"
  by (simp add: replay_ok_def)

lemma replay_ok_request [simp]: "replay_ok frs (st\<lparr>request_count := n\<rparr>) = replay_ok frs st"
  by (simp add: replay_ok_def)

lemma serve_frame_ok: "replay_ok frs st \<Longrightarrow> replay_ok frs (snd (serve_frame view st))"
proof -
  assume ok: "replay_ok frs st"
  let ?n = "outpc_request_count st" and ?l = "length frs"
  from ok have l: "0 < ?l" by (simp add: replay_ok_def)
  have i: "(?n mod ?l + 1) mod ?l = (?n + 1) mod ?l" by (simp add: mod_Suc_eq)
  have d: "(?n + 1) div ?l = (if (?n + 1) mod ?l = 0 then ?n div ?l + 1 else ?n div ?l)"
    by (simp add: div_Suc)
  show ?thesis
    using ok i d l by (auto simp: serve_frame_def replay_ok_def Let_def split: sum.splits)
qed

lemma handle_replay_request_ok: "replay_ok frs st \<Longrightarrow> replay_ok frs (snd (handle_replay_request st req))"
  by (simp add: handle_replay_request_def Let_def serve_frame_ok split: option.splits prod.splits)

text \<open>
  What the handler, the buffer and the request counter keep, the main loop keeps.
\<close>

locale replay_invariant =
  fixes P :: "replay_server \<Rightarrow> bool"
  assumes buffered: "P st \<Longrightarrow> P (st\<lparr>read_buffer := b\<rparr>)"
    and counted: "P st \<Longrightarrow> P (st\<lparr>request_count := n\<rparr>)"
    and handled: "P st \<Longrightarrow> P (snd (handle_replay_request st req))"
begin

lemma requests_keep: "P st \<Longrightarrow> P (fst (snd (snd (replay_requests st fd))))"
proof (induction st fd rule: replay_requests.induct)
  case (1 st fd)
  note P = 1(3)
  show ?case
  proof (cases "read_buffer st = [] \<or> slice (read_buffer st) 0 1 = encode ''F''")
    case True
    with P 1(1) counted [OF P] buffered show ?thesis
      by (subst replay_requests.simps) (auto simp: case_prod_beta simp del: encode_cmds)
  next
    case False
    obtain x r fd' where rf: "read_framed_request fd (read_buffer st) = (x, r, fd')"
      by (cases "read_framed_request fd (read_buffer st)")
    show ?thesis
    proof (cases x)
      case None
      with False rf buffered [OF P] show ?thesis by (subst replay_requests.simps) (simp del: encode_cmds)
    next
      case (Some req)
      obtain y st' where h: "handle_replay_request (st\<lparr>read_buffer := r\<rparr>) req = (y, st')"
        by (cases "handle_replay_request (st\<lparr>read_buffer := r\<rparr>) req")
      have ok: "P st'" using handled [OF buffered [OF P], of r req] h by simp
      show ?thesis
      proof (cases y)
        case (Inl e)
        with False rf Some h ok show ?thesis by (subst replay_requests.simps) (simp del: encode_cmds)
      next
        case (Inr resp)
        have "P (fst (snd (snd (replay_requests st' fd'))))"
          by (rule 1(2) [OF _ _ rf [symmetric] _ refl h [symmetric]]) (use False Some Inr ok in auto)
        with False rf Some h Inr show ?thesis
          by (subst replay_requests.simps) (simp add: case_prod_beta del: encode_cmds)
      qed
    qed
  qed
qed

lemma turn_keeps: "P st \<Longrightarrow> P (fst (snd (snd (replay_turn debug st fd))))"
  by (auto simp: replay_turn_def requests_keep buffered split: prod.splits option.splits sum.splits)

lemma turns_keep: "P st \<Longrightarrow> P (fst (snd (snd (replay_turns n debug st fd))))"
proof (induction n arbitrary: st fd)
  case (Suc n)
  obtain rs e st' fd' where t: "replay_turn debug st fd = (rs, e, st', fd')" by (cases "replay_turn debug st fd")
  with turn_keeps [OF Suc.prems, of debug fd] Suc.IH [of st' fd'] show ?case
    by (cases e) (simp_all add: case_prod_beta)
qed simp

end

interpretation position: replay_invariant "replay_ok frs" for frs
  by unfold_locales (simp_all add: handle_replay_request_ok)

lemma start_replay_ok: "start_replay file loop ov = Inr (Some st) \<Longrightarrow> replay_ok (frames st) st"
  by (auto simp: start_replay_def load_capture_def bindE_eq_Inr replay_ok_def Let_def
      split: option.splits sum.splits prod.splits list.splits if_splits)

section \<open>The loop flag\<close>

text \<open>States that differ in the loop flag and the loop counter only.\<close>

definition same_play :: "replay_server \<Rightarrow> replay_server \<Rightarrow> bool" where
  "same_play st st' \<longleftrightarrow> st\<lparr>looping := True, loop_count := 0\<rparr> = st'\<lparr>looping := True, loop_count := 0\<rparr>"

lemma same_play_fields:
  "same_play st st' \<longleftrightarrow> frames st = frames st' \<and> sig_response st = sig_response st' \<and>
     version_response st = version_response st' \<and> frame_index st = frame_index st' \<and>
     request_count st = request_count st' \<and> outpc_request_count st = outpc_request_count st' \<and>
     read_buffer st = read_buffer st'"
  by (cases st; cases st') (auto simp: same_play_def)

lemma handle_replay_request_same:
  "same_play st st' \<Longrightarrow> fst (handle_replay_request st req) = fst (handle_replay_request st' req) \<and>
     same_play (snd (handle_replay_request st req)) (snd (handle_replay_request st' req))"
  by (auto simp: handle_replay_request_def serve_frame_def same_play_fields Let_def
      split: option.splits sum.splits)

text \<open>Runs from such states write the same and stay alike.\<close>

abbreviation same_run ::
  "bytes list \<times> py_error option \<times> replay_server \<times> serial_fd \<Rightarrow>
   bytes list \<times> py_error option \<times> replay_server \<times> serial_fd \<Rightarrow> bool" where
  "same_run a b \<equiv> fst a = fst b \<and> fst (snd a) = fst (snd b) \<and>
     same_play (fst (snd (snd a))) (fst (snd (snd b))) \<and> snd (snd (snd a)) = snd (snd (snd b))"

lemma replay_requests_same:
  "same_play st st' \<Longrightarrow> same_run (replay_requests st fd) (replay_requests st' fd)"
proof (induction st fd arbitrary: st' rule: replay_requests.induct)
  case (1 st fd)
  note ih1 = 1(1) and ih2 = 1(2) and same = 1(3)
  note u = replay_requests.simps [of st fd] replay_requests.simps [of st' fd]
  from same have buf: "read_buffer st' = read_buffer st" and n: "request_count st' = request_count st"
    by (simp_all add: same_play_fields)
  have upd: "same_play (st\<lparr>read_buffer := b\<rparr>) (st'\<lparr>read_buffer := b\<rparr>)"
    "same_play (st\<lparr>request_count := k, read_buffer := b\<rparr>) (st'\<lparr>request_count := k, read_buffer := b\<rparr>)" for b k
    using same by (simp_all add: same_play_fields)
  consider "read_buffer st = []" | "read_buffer st \<noteq> []" "slice (read_buffer st) 0 1 = encode ''F''"
    | "read_buffer st \<noteq> []" "slice (read_buffer st) 0 1 \<noteq> encode ''F''" by blast
  then show ?case
  proof cases
    case 1
    with same buf show ?thesis unfolding u by simp
  next
    case 2
    note ih = ih1 [OF 2 upd(2)]
    show ?thesis
      unfolding u using 2 ih buf n by (simp add: case_prod_beta del: encode_cmds)
  next
    case 3
    obtain x r fd' where rf: "read_framed_request fd (read_buffer st) = (x, r, fd')"
      by (cases "read_framed_request fd (read_buffer st)")
    show ?thesis
    proof (cases x)
      case None
      with 3 rf upd(1) buf show ?thesis
        unfolding u by (simp del: encode_cmds)
    next
      case (Some req)
      obtain y t where h: "handle_replay_request (st\<lparr>read_buffer := r\<rparr>) req = (y, t)"
        by (cases "handle_replay_request (st\<lparr>read_buffer := r\<rparr>) req")
      obtain y' t' where h': "handle_replay_request (st'\<lparr>read_buffer := r\<rparr>) req = (y', t')"
        by (cases "handle_replay_request (st'\<lparr>read_buffer := r\<rparr>) req")
      from handle_replay_request_same [OF upd(1), of r req] h h' have y: "y' = y" and t: "same_play t t'" by simp_all
      show ?thesis
      proof (cases y)
        case (Inl e)
        with 3 rf Some h h' y t buf show ?thesis
          unfolding u by (simp del: encode_cmds)
      next
        case (Inr resp)
        have "same_run (replay_requests t fd') (replay_requests t' fd')"
          by (rule ih2 [OF _ _ rf [symmetric] _ refl h [symmetric]]) (use 3 Some Inr t in auto)
        then show ?thesis
          unfolding u using 3 rf Some h h' y Inr buf by (simp add: case_prod_beta del: encode_cmds)
      qed
    qed
  qed
qed

lemma replay_turns_same:
  "same_play st st' \<Longrightarrow> same_run (replay_turns n debug st fd) (replay_turns n debug st' fd)"
proof (induction n arbitrary: st st' fd)
  case (Suc n)
  have "same_play (st\<lparr>read_buffer := read_buffer st @ b\<rparr>) (st'\<lparr>read_buffer := read_buffer st' @ b\<rparr>)" for b
    using Suc.prems by (simp add: same_play_fields)
  then have turn: "same_run (replay_turn debug st fd) (replay_turn debug st' fd)"
    using Suc.prems replay_requests_same by (simp add: replay_turn_def split: prod.splits option.splits sum.splits)
  obtain rs e t fd' where a: "replay_turn debug st fd = (rs, e, t, fd')" by (cases "replay_turn debug st fd")
  obtain rs2 e2 t2 fd2 where b: "replay_turn debug st' fd = (rs2, e2, t2, fd2)" by (cases "replay_turn debug st' fd")
  from turn a b have eq: "rs2 = rs" "e2 = e" "fd2 = fd'" "same_play t t2" by simp_all
  show ?case using Suc.IH [OF eq(4), of fd'] a b eq by (cases e) (simp_all add: case_prod_beta)
qed simp

section \<open>Properties of the replay server\<close>

definition sample_fd :: serial_fd where
  "sample_fd = \<lparr>pending = [], arrivals = [Data [0], Quiet, Data (0 # frame [0x51])]\<rparr>"

definition sample_frames :: "capture_frame list" where
  "sample_frames = [\<lparr>timestamp_us = 0, outpc_data = [7]\<rparr>, \<lparr>timestamp_us = 9, outpc_data = [8]\<rparr>]"

definition sample_capture :: bytes where
  "sample_capture = encode ''MS2CAP02'' @ rev (be_bytes 4 (length ''MS2'')) @ encode ''MS2'' @
     concat (List.map frame_bytes sample_frames)"

lemma load_sample_capture: "load_capture sample_capture = Inr (''MS2'', 1, sample_frames)"
proof -
  have "capture_frames (concat (List.map frame_bytes sample_frames)) = sample_frames"
    using capture_frames_cut [of sample_frames _ "[]"] by (simp add: sample_frames_def frame_ok_def)
  moreover have "decode_replace (encode ''MS2'') = ''MS2''" by (rule decode_encode_ascii) simp
  ultimately have "inspect_load_capture sample_capture = Inr (''MS2'', sample_frames)"
    unfolding sample_capture_def by (subst inspect_load_header) simp_all
  then show ?thesis by (simp add: load_capture_def sample_frames_def)
qed

definition sample_replay :: "bool \<Rightarrow> replay_server" where
  "sample_replay loop = \<lparr>frames = sample_frames, sig_response = ljust 20 0 (encode ''MS2'' @ [0]),
     version_response = ljust 60 0 (encode ''MS2'' @ [0]), looping = loop, frame_index = 0,
     request_count = 0, outpc_request_count = 0, loop_count = 0, read_buffer = []\<rparr>"

lemma start_sample_replay: "start_replay (Some sample_capture) loop None = Inr (Some (sample_replay loop))"
  by (simp add: start_replay_def load_sample_capture sample_replay_def Let_def encode_def)

lemma replay_cycles:
  assumes "start_replay file loop ov = Inr (Some st0)"
    and "replay_turns n debug st0 fd = (rs, e, st, fd')"
  shows "frame_index st < length (frames st0) \<and>
    fst (handle_replay_request st (encode ''A'')) =
      build_response 0x01 (outpc_data (frames st0 ! (outpc_request_count st mod length (frames st0))))"
proof -
  from position.turns_keep [OF start_replay_ok [OF assms(1)], of n debug fd] assms(2)
  have ok: "replay_ok (frames st0) st" by simp
  then have "frame_index st < length (frames st0)" by (simp add: replay_ok_def)
  then show ?thesis
    using ok by (simp add: handle_replay_request_def serve_frame_def replay_ok_def Let_def split: sum.splits)
qed

text \<open>
  The option \<open>--no-loop\<close> has no effect on what is served. Started with or without it on
  the same capture, the server writes the same responses on every input, in every number of
  turns: it never stops at the end of the capture.
\<close>

lemma no_loop_ignored:
  assumes "start_replay file True ov = Inr (Some a)" and "start_replay file False ov = Inr (Some b)"
  shows "fst (replay_turns n debug a fd) = fst (replay_turns n debug b fd) \<and>
    fst (snd (replay_turns n debug a fd)) = fst (snd (replay_turns n debug b fd))"
proof -
  from assms have "same_play a b"
    by (auto simp: start_replay_def same_play_fields Let_def split: option.splits sum.splits prod.splits if_splits)
  from replay_turns_same [OF this, of n debug fd] show ?thesis by simp
qed

lemma replay_signature_block: "length (encode s) \<le> 19 \<Longrightarrow> take 19 (encode s) = encode s"
  by simp

lemma parse_r_request:
  "7 \<le> length req \<Longrightarrow> hd req = 0x72 \<Longrightarrow>
     parse_r_command req = Some (unat (req ! 1), req_table req, req_offset req, req_count req)"
  by (cases req) (auto simp: parse_r_command_def req_table_def req_offset_def req_count_def)



text \<open>
  A capture that ends inside its header's size field is not reported as an invalid capture:
  \<open>struct.error\<close> escapes the handler of \<open>ValueError\<close> and \<open>FileNotFoundError\<close>.
\<close>

lemma short_header_escapes:
  assumes "take 8 f = encode ''MS2CAP02''" and "length f < 12"
  shows "start_replay (Some f) loop ov = Inl StructError"
proof -
  have "struct_unpack (LittleEndian, FmtI) (take 4 (drop 8 f)) = Inl StructError"
    using assms(2) by (simp add: struct_unpack_def)
  with assms(1) show ?thesis
    by (simp add: start_replay_def load_capture_def inspect_load_capture_def take_read_def)
qed

end
