(* ===== verification/RegexLang.thy ===== *)
theory RegexLang
  imports PyText
begin

text \<open>
  What the matcher of \<open>PyText\<close> returns: the language of an expression, and that every match is of
  its language, with groups of theirs, cut out of the text.
\<close>

inductive lang :: "re \<Rightarrow> string \<Rightarrow> bool" where
  Eps: "lang Eps []"
| Cls: "P c \<Longrightarrow> lang (Cls P) [c]"
| Seq: "lang a u \<Longrightarrow> lang b v \<Longrightarrow> lang (Seq a b) (u @ v)"
| AltL: "lang a u \<Longrightarrow> lang (Alt a b) u"
| AltR: "lang b u \<Longrightarrow> lang (Alt a b) u"
| Many0: "lang (Many a) []"
| ManyS: "lang a u \<Longrightarrow> lang (Many a) v \<Longrightarrow> lang (Many a) (u @ v)"
| Grp: "lang a u \<Longrightarrow> lang (Grp n a) u"

inductive_simps lang_simps [simp]: "lang Eps u" "lang (Cls P) u" "lang (Seq a b) u" "lang (Alt a b) u" "lang (Grp n a) u"

fun groups_of :: "re \<Rightarrow> (nat \<times> re) list" where
  "groups_of (Grp n a) = (n, a) # groups_of a"
| "groups_of (Seq a b) = groups_of a @ groups_of b"
| "groups_of (Alt a b) = groups_of a @ groups_of b"
| "groups_of (Many a) = groups_of a"
| "groups_of r = []"

text \<open>The groups that take part in every match.\<close>

fun binds :: "re \<Rightarrow> nat \<Rightarrow> bool" where
  "binds (Grp n a) k \<longleftrightarrow> k = n \<or> binds a k"
| "binds (Seq a b) k \<longleftrightarrow> binds a k \<or> binds b k"
| "binds (Alt a b) k \<longleftrightarrow> binds a k \<and> binds b k"
| "binds r k \<longleftrightarrow> False"

text \<open>A match of \<open>r\<close> in \<open>s\<close> from the groups \<open>g\<close>.\<close>

definition sound_match :: "re \<Rightarrow> string \<Rightarrow> groups \<Rightarrow> string \<times> groups \<Rightarrow> bool" where
  "sound_match r s g m \<longleftrightarrow> (\<exists>u h. s = u @ fst m \<and> lang r u \<and> snd m = h @ g \<and>
     (\<forall>(n, t) \<in> set h. length t \<le> length s \<and> (\<exists>a. (n, a) \<in> set (groups_of r) \<and> lang a t)) \<and>
     (\<forall>n. binds r n \<longrightarrow> n \<in> fst ` set h))"

lemma sound_matchI:
  "s = u @ rest \<Longrightarrow> lang r u \<Longrightarrow> g' = h @ g \<Longrightarrow>
   (\<And>n t. (n, t) \<in> set h \<Longrightarrow> length t \<le> length s \<and> (\<exists>a. (n, a) \<in> set (groups_of r) \<and> lang a t)) \<Longrightarrow>
   (\<And>n. binds r n \<Longrightarrow> n \<in> fst ` set h) \<Longrightarrow> sound_match r s g (rest, g')"
  unfolding sound_match_def by fastforce

lemma sound_matchE:
  assumes "sound_match r s g (rest, g')"
  obtains u h where "s = u @ rest" "lang r u" "g' = h @ g"
    "\<And>n t. (n, t) \<in> set h \<Longrightarrow> length t \<le> length s \<and> (\<exists>a. (n, a) \<in> set (groups_of r) \<and> lang a t)"
    "\<And>n. binds r n \<Longrightarrow> n \<in> fst ` set h"
  using assms unfolding sound_match_def by fastforce

lemma sound_seq:
  assumes "sound_match a s g (s1, g1)" and "sound_match b s1 g1 (s2, g2)"
    and "\<And>u v. lang a u \<Longrightarrow> lang b v \<Longrightarrow> lang r (u @ v)" and "set (groups_of a) \<union> set (groups_of b) \<subseteq> set (groups_of r)"
    and "\<And>n. binds r n \<Longrightarrow> binds a n \<or> binds b n"
  shows "sound_match r s g (s2, g2)"
proof -
  from assms(1) obtain u h where a: "s = u @ s1" "lang a u" "g1 = h @ g"
    "\<And>n t. (n, t) \<in> set h \<Longrightarrow> length t \<le> length s \<and> (\<exists>x. (n, x) \<in> set (groups_of a) \<and> lang x t)"
    "\<And>n. binds a n \<Longrightarrow> n \<in> fst ` set h" by (rule sound_matchE) blast
  from assms(2) obtain v k where b: "s1 = v @ s2" "lang b v" "g2 = k @ g1"
    "\<And>n t. (n, t) \<in> set k \<Longrightarrow> length t \<le> length s1 \<and> (\<exists>x. (n, x) \<in> set (groups_of b) \<and> lang x t)"
    "\<And>n. binds b n \<Longrightarrow> n \<in> fst ` set k" by (rule sound_matchE) blast
  show ?thesis
  proof (rule sound_matchI [of _ "u @ v" _ _ _ "k @ h"])
    fix n t assume "(n, t) \<in> set (k @ h)"
    then show "length t \<le> length s \<and> (\<exists>x. (n, x) \<in> set (groups_of r) \<and> lang x t)"
      using a(1,4) b(4) assms(4) by fastforce
  next
    fix n assume "binds r n"
    then show "n \<in> fst ` set (k @ h)" using assms(5) a(5) b(5) by fastforce
  qed (use a b assms(3) in auto)
qed

declare matches.simps(5) [simp del]

lemma matches_sound: "m \<in> set (matches r s g) \<Longrightarrow> sound_match r s g m"
proof (induction r s g arbitrary: m rule: matches.induct)
  case (1 s g)
  then show ?case by (auto intro: sound_matchI [of _ "[]" _ _ _ "[]"])
next
  case (2 P s g)
  then show ?case by (cases s) (auto intro!: sound_matchI [of _ "[hd s]" _ _ _ "[]"] split: if_splits)
next
  case (3 a b s g)
  then obtain x where x: "x \<in> set (matches a s g)" "m \<in> set (matches b (fst x) (snd x))" by auto
  from "3.IH"(1) [OF x(1)] "3.IH"(2) [OF x]
  have "sound_match (Seq a b) s g (fst m, snd m)"
    by (intro sound_seq [of a s g "fst x" "snd x" b "fst m" "snd m"] lang.Seq) simp_all
  then show ?case by simp
next
  case (4 a b s g)
  show ?case
  proof (cases "m \<in> set (matches a s g)")
    case True
    from "4.IH"(1) [OF this] show ?thesis by (fastforce simp: sound_match_def)
  next
    case False
    with 4 have "sound_match b s g m" by auto
    then show ?thesis by (fastforce simp: sound_match_def)
  qed
next
  case (5 a s g)
  show ?case
  proof (cases "m = (s, g)")
    case True
    then show ?thesis by (auto intro!: sound_matchI [of _ "[]" _ _ _ "[]"] Many0)
  next
    case False
    with "5.prems" obtain x where x: "x \<in> set (matches a s g)" "length (fst x) < length s"
      "m \<in> set (matches (Many a) (fst x) (snd x))"
      unfolding matches.simps(5) [of a s g] by (auto split: if_split_asm)
    from "5.IH"(1) [OF x(1)] "5.IH"(2) [OF x]
    have "sound_match (Many a) s g (fst m, snd m)"
      by (intro sound_seq [of a s g "fst x" "snd x" "Many a" "fst m" "snd m"] ManyS) simp_all
    then show ?thesis by simp
  qed
next
  case (6 n a s g)
  then obtain x where x: "x \<in> set (matches a s g)"
    "m = (fst x, (n, take (length s - length (fst x)) s) # snd x)" by auto
  from "6.IH" [OF x(1)] obtain u h where a: "s = u @ fst x" "lang a u" "snd x = h @ g"
    "\<And>n t. (n, t) \<in> set h \<Longrightarrow> length t \<le> length s \<and> (\<exists>y. (n, y) \<in> set (groups_of a) \<and> lang y t)"
    "\<And>n. binds a n \<Longrightarrow> n \<in> fst ` set h"
    by (metis sound_matchE prod.collapse)
  have t: "take (length s - length (fst x)) s = u" using a(1) by (metis append_eq_conv_conj length_append diff_add_inverse2)
  show ?case
    unfolding x(2) t
  proof (rule sound_matchI [of _ u _ _ _ "(n, u) # h"])
    fix k t assume "(k, t) \<in> set ((n, u) # h)"
    then show "length t \<le> length s \<and> (\<exists>b. (k, b) \<in> set (groups_of (Grp n a)) \<and> lang b t)"
      using a(1,2,4) by fastforce
  next
    fix k assume "binds (Grp n a) k"
    then show "k \<in> fst ` set ((n, u) # h)" using a(5) by fastforce
  qed (use a in simp_all)
qed

text \<open>What a group of a match holds.\<close>

lemma re_match_group:
  assumes "re_match r s = Some (g, rest)" and "binds r n"
  shows "length (group n g) \<le> length s \<and> (\<exists>a. (n, a) \<in> set (groups_of r) \<and> lang a (group n g))"
proof -
  from assms(1) have "(rest, g) \<in> set (matches r s [])"
    by (auto simp: re_match_def split: list.splits)
  from matches_sound [OF this] obtain h where h: "g = h"
    "\<And>n t. (n, t) \<in> set h \<Longrightarrow> length t \<le> length s \<and> (\<exists>a. (n, a) \<in> set (groups_of r) \<and> lang a t)"
    "\<And>n. binds r n \<Longrightarrow> n \<in> fst ` set h"
    by (metis sound_matchE append_Nil2)
  from h(3) [OF assms(2)] obtain t where t: "map_of g n = Some t"
    unfolding h(1) by (metis map_of_eq_None_iff not_None_eq)
  then have "(n, t) \<in> set h" using h(1) by (auto dest: map_of_SomeD)
  from h(2) [OF this] t show ?thesis by (simp add: group_def)
qed

lemma re_search_group:
  "re_search r s = Some (g, rest) \<Longrightarrow> binds r n \<Longrightarrow>
     length (group n g) \<le> length s \<and> (\<exists>a. (n, a) \<in> set (groups_of r) \<and> lang a (group n g))"
proof (induction s)
  case Nil
  then show ?case using re_match_group [of r "[]" g rest n] by (simp only: re_search.simps)
next
  case (Cons c s)
  show ?case
  proof (cases "re_match r (c # s)")
    case None
    with Cons show ?thesis by fastforce
  next
    case (Some m)
    with Cons.prems re_match_group [of r "c # s" g rest n] show ?thesis by simp
  qed
qed

section \<open>Numbers in a match\<close>

lemma lang_Many_Cls: "lang r u \<Longrightarrow> r = Many (Cls P) \<Longrightarrow> list_all P u"
  by (induction rule: lang.induct) auto

lemma lang_Many1_Cls: "lang (Many1 (Cls P)) u \<Longrightarrow> u \<noteq> [] \<and> list_all P u"
  by (auto simp: Many1_def dest: lang_Many_Cls)

lemma dropWhile_none: "list_all (\<lambda>c. \<not> P c) s \<Longrightarrow> dropWhile P s = s"
  by (cases s) auto

lemma strip_by_none: "list_all (\<lambda>c. \<not> P c) s \<Longrightarrow> strip_by P s = s"
  by (simp add: strip_by_def rstrip_by_def lstrip_by_def dropWhile_none list_all_rev)

lemma underscores_none: "list_all (\<lambda>c. c \<noteq> CHR ''_'') s \<Longrightarrow> underscores_ok b s"
  by (induction s arbitrary: b) auto

lemma drop_underscores_none: "list_all (\<lambda>c. c \<noteq> CHR ''_'') s \<Longrightarrow> drop_underscores s = Some s"
  by (simp add: drop_underscores_def underscores_none filter_id_conv list_all_iff)

definition number_char :: "char \<Rightarrow> bool" where
  "number_char c \<longleftrightarrow> is_digit c \<or> c \<in> {CHR ''-'', CHR ''+'', CHR ''.''}"

lemma number_char_plain: "number_char c \<Longrightarrow> \<not> is_space c \<and> c \<noteq> CHR ''_''"
  by (auto simp: number_char_def char_classes)

lemma number_text:
  "list_all number_char s \<Longrightarrow> strip s = s \<and> drop_underscores s = Some s"
  unfolding strip_def
  by (intro conjI strip_by_none drop_underscores_none) (auto simp: list_all_iff dest: number_char_plain)

lemma parse_int_digits:
  assumes "s \<noteq> []" and "list_all is_digit s" and "length s \<le> 4300"
  shows "parse_int s = Inr (int (digits_value s))"
proof -
  have "list_all number_char s" using assms(2) by (auto simp: list_all_iff number_char_def)
  note t = number_text [OF this]
  have "take_sign s = (False, s)"
    using assms(1,2) by (cases s) (auto simp: take_sign_def is_digit_def)
  then show ?thesis using t assms by (simp add: parse_int_def)
qed

end
