(* ===== verification/IniSpec.thy ===== *)
theory IniSpec
  imports RegexLang IniParser
begin

text \<open>
  Properties of the INI parser: it returns on every file of lines of at most 4300 characters, with
  a well-formed configuration, and its conditional blocks select one branch.
\<close>

section \<open>Numbers the parser takes from a line\<close>

lemma lang_digits: "lang digits t \<Longrightarrow> t \<noteq> [] \<and> list_all is_digit t"
  unfolding digits_def by (rule lang_Many1_Cls)

lemma takeWhile_digits: "list_all P d \<Longrightarrow> takeWhile P (d @ s) = d @ takeWhile P s \<and> dropWhile P (d @ s) = dropWhile P s"
  by (induction d) auto

lemma parse_decimal_ok:
  assumes "list_all is_digit d1" and "list_all is_digit d2" and "d2 \<noteq> []" and "dot = [] \<or> dot = ''.''"
  shows "\<exists>x. parse_decimal (d1 @ dot @ d2) = Some x"
proof (cases "dot = []")
  case True
  have w: "takeWhile is_digit (d1 @ dot @ d2) = d1 @ d2" "dropWhile is_digit (d1 @ dot @ d2) = []"
    using takeWhile_digits [of is_digit "d1 @ d2" "[]"] assms(1,2) True by simp_all
  show ?thesis unfolding parse_decimal_def w using assms(3) by (simp add: take_exponent_def)
next
  case False
  then have dot: "dot = ''.''" using assms(4) by simp
  have p: "\<not> is_digit CHR ''.''" by (simp add: is_digit_def)
  have w: "takeWhile is_digit (d1 @ dot @ d2) = d1" "dropWhile is_digit (d1 @ dot @ d2) = CHR ''.'' # d2"
    using takeWhile_digits [OF assms(1), of "dot @ d2"] p by (simp_all add: dot)
  have q: "takeWhile is_digit d2 = d2" "dropWhile is_digit d2 = []"
    using takeWhile_digits [OF assms(2), of "[]"] by simp_all
  show ?thesis
    unfolding parse_decimal_def w using assms(3) by (simp add: q take_exponent_def)
qed

lemma to_lower_digit: "is_digit c \<Longrightarrow> to_lower c = c"
  by (simp add: to_lower_def char_classes)

lemma parse_float_number:
  assumes "lang re_number t"
  shows "\<exists>x. parse_float t = Inr x"
proof -
  from assms obtain sg d1 dot d2 where t: "t = sg @ d1 @ dot @ d2"
    and sg: "sg = [] \<or> sg = ''-'' \<or> sg = ''+''" and d1: "list_all is_digit d1"
    and dot: "dot = [] \<or> dot = ''.''" and d2: "d2 \<noteq> []" "list_all is_digit d2"
    by (auto simp: re_number_def Opt_def dest!: lang_Many_Cls lang_digits)
  let ?r = "d1 @ dot @ d2"
  have "list_all number_char t"
    using sg d1 dot d2 by (auto simp: t number_char_def list_all_iff)
  note plain = number_text [OF this]
  have hd: "hd ?r \<noteq> CHR ''-'' \<and> hd ?r \<noteq> CHR ''+''"
    using d1 dot d2 by (cases d1; cases d2) (auto simp: is_digit_def)
  have sign: "take_sign t = (sg = ''-'', ?r)"
  proof (cases "sg = []")
    case True
    with hd d2(1) show ?thesis by (cases ?r) (auto simp: t take_sign_def)
  qed (use sg in \<open>auto simp: t take_sign_def\<close>)
  have "last (lower ?r) = last d2"
    using d2 to_lower_digit [of "last d2"] by (simp add: lower_def last_map list_all_iff)
  then have l: "is_digit (last (lower ?r))" using d2 by (simp add: list_all_iff)
  have "\<not> is_digit (last ''inf'')" "\<not> is_digit (last ''infinity'')" "\<not> is_digit (last ''nan'')"
    by (simp_all add: is_digit_def)
  with l have "lower ?r \<noteq> ''inf''" "lower ?r \<noteq> ''infinity''" "lower ?r \<noteq> ''nan''" by metis+
  moreover obtain x where "parse_decimal ?r = Some x" using parse_decimal_ok [OF d1 d2(2,1) dot] by blast
  ultimately show ?thesis using plain sign by (simp add: parse_float_def)
qed

lemma parse_numeric_total: "\<exists>x. parse_numeric s = Inr x"
proof (cases "parse_float (strip s)")
  case (Inl e)
  show ?thesis
  proof (cases "re_search re_number (strip s)")
    case (Some m)
    obtain g rest where m: "m = (g, rest)" by (cases m)
    have "binds re_number 0" by (simp add: re_number_def)
    from re_search_group [OF Some [unfolded m] this]
    obtain a where a: "(0, a) \<in> set (groups_of re_number)" "lang a (group 0 g)" by blast
    have "groups_of (re_seq [Opt (Cls (\<lambda>c. c = CHR ''-'' \<or> c = CHR ''+'')), Many (Cls is_digit), Opt (Str ''.''), digits]) = []"
      by (simp add: Opt_def digits_def Many1_def)
    then have "re_number = Grp 0 a" using a(1) by (simp add: re_number_def)
    then have "lang re_number (group 0 g)" using a(2) by (metis lang.Grp)
    from parse_float_number [OF this] show ?thesis
      using Inl Some by (simp add: parse_numeric_def Let_def m)
  qed (use Inl in \<open>simp add: parse_numeric_def Let_def\<close>)
qed (simp add: parse_numeric_def Let_def)

lemma numeric_part_total: "\<exists>x. numeric_part parts i d = Inr x"
  using parse_numeric_total by (simp add: numeric_part_def)

text \<open>A group of digits in a text of at most 4300 characters.\<close>

lemma digits_group:
  assumes "re_search r s = Some (g, rest)" and "binds r n" and "\<And>a. (n, a) \<in> set (groups_of r) \<Longrightarrow> a = digits"
    and "length s \<le> 4300"
  shows "\<exists>k\<ge>0. parse_int (group n g) = Inr k"
proof -
  from re_search_group [OF assms(1,2)] assms(3) have "length (group n g) \<le> length s" "lang digits (group n g)" by blast+
  with assms(4) lang_digits show ?thesis
    using parse_int_digits [of "group n g"] by (intro exI [of _ "int (digits_value (group n g))"]) simp
qed

lemma groups_of_fixed [simp]:
  "groups_of (Str s) = []" "groups_of spaces = []" "groups_of digits = []" "groups_of (StrI s) = []"
proof -
  show "groups_of (Str s) = []" by (induction s) simp_all
  show "groups_of (StrI s) = []" by (induction s) simp_all
qed (simp_all add: spaces_def digits_def Many1_def)

section \<open>Lines of bounded length\<close>

lemma split_quoted_length: "p \<in> set (split_quoted parts cur q s) \<Longrightarrow> p \<in> set parts \<or> length p \<le> length cur + length s"
  by (induction parts cur q s rule: split_quoted.induct) (fastforce split: if_splits)+

lemma split_respecting_quotes_length: "i < length (split_respecting_quotes s) \<Longrightarrow> length (split_respecting_quotes s ! i) \<le> length s"
  using split_quoted_length [of "split_respecting_quotes s ! i" "[]" "[]" False s] nth_mem
  by (fastforce simp: split_respecting_quotes_def)

definition field_wf :: "field_def \<Rightarrow> bool" where
  "field_wf f \<longleftrightarrow> ftype f \<in> {''scalar'', ''bits'', ''array''} \<and>
     (case bit_range f of Some (lo, hi) \<Rightarrow> ftype f = ''bits'' \<and> 0 \<le> lo \<and> 0 \<le> hi | None \<Rightarrow> True) \<and>
     (case array_size f of Some n \<Rightarrow> ftype f = ''array'' \<and> 0 \<le> n | None \<Rightarrow> True)"

lemma FieldDef_wf: "ft \<in> {''scalar'', ''bits'', ''array''} \<Longrightarrow> field_wf (FieldDef n ft dt off)"
  by (simp add: field_wf_def FieldDef_def)

text \<open>What a line may give: nothing, or a well-formed field.\<close>

definition field_result :: "field_def option result \<Rightarrow> bool" where
  "field_result r \<longleftrightarrow> (\<exists>fd. r = Inr fd \<and> (\<forall>f. fd = Some f \<longrightarrow> field_wf f))"

lemma field_resultI: "field_wf f \<Longrightarrow> field_result (Inr (Some f))" "field_result (Inr None)"
  by (simp_all add: field_result_def)

lemma field_result_bind: "\<exists>x. m = Inr x \<and> P x \<Longrightarrow> (\<And>x. P x \<Longrightarrow> field_result (f x)) \<Longrightarrow> field_result (bindE m f)"
  by auto

lemma field_result_numeric:
  "(\<And>x. field_result (f x)) \<Longrightarrow> field_result (bindE (numeric_part parts i d) f)"
  using numeric_part_total [of parts i d] by auto

lemma bits_result:
  assumes "length s \<le> 4300"
  shows "field_result (case re_search re_bits s of
      Some (b, r) \<Rightarrow> bindE (parse_int (group 1 b)) (\<lambda>lo. bindE (parse_int (group 2 b)) (\<lambda>hi.
        Inr (Some ((FieldDef n ''bits'' dt off)\<lparr>bit_range := Some (lo, hi)\<rparr>))))
    | None \<Rightarrow> Inr (Some (FieldDef n ''bits'' dt off)))"
proof (cases "re_search re_bits s")
  case (Some m)
  obtain b r where m: "m = (b, r)" by (cases m)
  have "\<exists>k\<ge>0. parse_int (group 1 b) = Inr k" "\<exists>k\<ge>0. parse_int (group 2 b) = Inr k"
    by (rule digits_group [OF Some [unfolded m] _ _ assms]; auto simp: re_bits_def)+
  then show ?thesis
    by (auto simp: Some m field_wf_def FieldDef_def intro!: field_resultI)
qed (auto intro!: field_resultI FieldDef_wf)

lemma array_result:
  assumes "length s \<le> 4300"
  shows "\<exists>size. (case re_search re_array s of Some (b, r) \<Rightarrow> bindE (parse_int (group 1 b)) (\<lambda>k. Inr (Some k)) | None \<Rightarrow> Inr None)
    = Inr size \<and> (case size of Some k \<Rightarrow> 0 \<le> k | None \<Rightarrow> True)"
proof (cases "re_search re_array s")
  case (Some m)
  obtain b r where m: "m = (b, r)" by (cases m)
  have "\<exists>k\<ge>0. parse_int (group 1 b) = Inr k"
    by (rule digits_group [OF Some [unfolded m] _ _ assms]; auto simp: re_array_def Opt_def)
  then show ?thesis by (auto simp: Some m)
qed simp

lemma parse_field_line_result: "length line \<le> 4300 \<Longrightarrow> field_result (parse_field_line line)"
proof (cases "re_match re_field line")
  case (Some m)
  assume len: "length line \<le> 4300"
  obtain g rest where m: "m = (g, rest)" by (cases m)
  define parts where "parts = split_respecting_quotes (group 2 g)"
  have "length (group 2 g) \<le> length line"
    using re_match_group [OF Some [unfolded m], of 2] by (simp add: re_field_def)
  then have p3: "length (parts ! 3) \<le> 4300" if "3 < length parts"
    using split_respecting_quotes_length [of 3 "group 2 g"] that len by (simp add: parts_def)
  have scalar: "field_result (bindE (numeric_part parts 4 (Fin 1)) (\<lambda>sc. bindE (numeric_part parts 5 (Fin 0)) (\<lambda>tr.
      Inr (Some ((FieldDef n ''scalar'' dt off)\<lparr>funits := u, fscale := sc, ftranslate := tr\<rparr>)))))" for n dt off u
    by (intro field_result_numeric field_resultI) (simp add: field_wf_def FieldDef_def)
  have array: "field_result (bindE (if length parts > 3 then
        (case re_search re_array (parts ! 3) of Some (b, r) \<Rightarrow> bindE (parse_int (group 1 b)) (\<lambda>k. Inr (Some k)) | None \<Rightarrow> Inr None)
        else Inr None) (\<lambda>size. bindE (numeric_part parts 5 (Fin 1)) (\<lambda>sc. bindE (numeric_part parts 6 (Fin 0)) (\<lambda>tr.
      Inr (Some ((FieldDef n ''array'' dt off)\<lparr>funits := u, fscale := sc, ftranslate := tr, array_size := size\<rparr>))))))"
    for n dt off u
  proof (rule field_result_bind [where P = "\<lambda>size. case size of Some k \<Rightarrow> 0 \<le> k | None \<Rightarrow> True"])
    show "\<exists>x. (if length parts > 3 then
        (case re_search re_array (parts ! 3) of Some (b, r) \<Rightarrow> bindE (parse_int (group 1 b)) (\<lambda>k. Inr (Some k)) | None \<Rightarrow> Inr None)
        else Inr None) = Inr x \<and> (case x of Some k \<Rightarrow> 0 \<le> k | None \<Rightarrow> True)"
      using array_result [OF p3] by simp
  qed (auto intro!: field_result_numeric field_resultI simp: field_wf_def FieldDef_def split: option.splits)
  show ?thesis
    unfolding parse_field_line_def Some m Let_def option.case prod.case parts_def [symmetric]
    using bits_result [OF p3] scalar array FieldDef_wf
    by (auto simp: field_resultI split: sum.splits)
qed (simp add: parse_field_line_def field_resultI)

section \<open>Configurations\<close>

definition fields_wf :: "(string, field_def) dict \<Rightarrow> bool" where
  "fields_wf d \<longleftrightarrow> dict_ok d \<and> (\<forall>(n, f) \<in> set d. fname f = n \<and> field_wf f)"

definition config_wf :: "ini_config \<Rightarrow> bool" where
  "config_wf cfg \<longleftrightarrow> 0 \<le> ini_block_size cfg \<and> fields_wf (output_channels cfg) \<and> fields_wf (constants cfg)"

lemma fields_wf_set: "fields_wf d \<Longrightarrow> field_wf f \<Longrightarrow> fields_wf (dict_set (fname f) f d)"
  by (auto simp: fields_wf_def dict_ok_set dest!: dict_set_values)

lemma field_wf_page [simp]: "field_wf (f\<lparr>fpage := n\<rparr>) = field_wf f"
  by (simp add: field_wf_def split: option.splits)

lemma parse_output_channel_wf:
  assumes "config_wf cfg" and "length line \<le> 4300"
  shows "\<exists>cfg'. parse_output_channel line cfg = Inr cfg' \<and> config_wf cfg'"
proof -
  have "\<exists>k\<ge>0. parse_int (group 1 g) = Inr k" if "re_search re_block_size line = Some (g, r)" for g r
    by (rule digits_group [OF that _ _ assms(2)]; simp add: re_block_size_def)
  moreover from parse_field_line_result [OF assms(2)] obtain fd where "parse_field_line line = Inr fd"
    "\<And>f. fd = Some f \<Longrightarrow> field_wf f" by (auto simp: field_result_def)
  ultimately show ?thesis
    using assms(1)
    by (cases "re_search re_block_size line"; cases fd)
      (fastforce simp: parse_output_channel_def config_wf_def fields_wf_set)+
qed

lemma parse_constant_wf:
  assumes "config_wf (ini p)" and "length line \<le> 4300"
  shows "\<exists>p'. parse_constant line p = Inr p' \<and> config_wf (ini p')"
proof -
  have "\<exists>k\<ge>0. parse_int (group 1 g) = Inr k" if "re_search re_page line = Some (g, r)" for g r
    by (rule digits_group [OF that _ _ assms(2)]; simp add: re_page_def)
  moreover from parse_field_line_result [OF assms(2)] obtain fd where "parse_field_line line = Inr fd"
    "\<And>f. fd = Some f \<Longrightarrow> field_wf f" by (auto simp: field_result_def)
  moreover have "field_wf f \<Longrightarrow> fields_wf (constants (ini p)) \<Longrightarrow>
      fields_wf (dict_set (fname f) (f\<lparr>fpage := current_page p\<rparr>) (constants (ini p)))" for f
    using fields_wf_set [of "constants (ini p)" "f\<lparr>fpage := current_page p\<rparr>"] by simp
  ultimately show ?thesis
    using assms(1)
    by (cases "re_search re_page line"; cases fd) (fastforce simp: parse_constant_def config_wf_def Let_def)+
qed

lemma preprocess_wf: "preprocess line p = Some p' \<Longrightarrow> config_wf (ini p) \<Longrightarrow> config_wf (ini p')"
  by (auto simp: preprocess_def config_wf_def Let_def split: if_splits list.splits)

lemma process_line_wf:
  assumes "config_wf (ini p)" and "length line \<le> 4300"
  shows "\<exists>p'. process_line line p = Inr p' \<and> config_wf (ini p')"
proof (cases "preprocess line p")
  case None
  have "config_wf (ini p)" "\<And>s. config_wf ((ini p)\<lparr>ini_signature := s\<rparr>)" using assms(1) by (simp_all add: config_wf_def)
  with None parse_output_channel_wf [OF assms] parse_constant_wf [OF assms] show ?thesis
    by (auto simp: process_line_def split: option.splits)
qed (use assms preprocess_wf in \<open>auto simp: process_line_def\<close>)

lemma length_strip: "length (strip s) \<le> length s"
proof -
  have "length (dropWhile P s) \<le> length s" for P :: "char \<Rightarrow> bool" and s by (induction s) auto
  from this [of is_space "rev (dropWhile is_space s)"] this [of is_space s] show ?thesis
    by (simp add: strip_def strip_by_def rstrip_by_def lstrip_by_def)
qed

lemma parse_lines_wf:
  "config_wf (ini p) \<Longrightarrow> list_all (\<lambda>l. length l \<le> 4300) ls \<Longrightarrow>
     \<exists>p'. parse_lines ls p = Inr p' \<and> config_wf (ini p')"
proof (induction ls arbitrary: p)
  case (Cons l ls)
  have "length (strip l) \<le> 4300" using Cons.prems(2) length_strip [of l] by simp
  from process_line_wf [OF Cons.prems(1) this] Cons show ?case by (auto simp: parse_lines_def)
qed (simp add: parse_lines_def)

text \<open>
  C14: the INI parser returns. On every file whose lines have at most 4300 characters (the number of
  digits \<open>int()\<close> converts), whatever they hold, parsing raises nothing and gives a well-formed
  configuration: a block size that is not negative, no field twice, every field under its name,
  of a known type, with bit ranges and array sizes that are not negative, on the types that have
  them.
\<close>

theorem parse_ini_returns:
  assumes "list_all (\<lambda>l. length l \<le> 4300) (splitlines (remove_line_prefixes (read_text file)))"
  shows "\<exists>cfg. parse_ini file = Inr cfg \<and> config_wf cfg"
proof -
  have "config_wf (ini INIParser)" by (simp add: INIParser_def INIConfig_def config_wf_def fields_wf_def)
  from parse_lines_wf [OF this assms] show ?thesis by (auto simp: parse_ini_def)
qed

theorem parse_ini_returns_witness: "\<exists>cfg. parse_ini (encode ''[Constants]'') = Inr cfg \<and> config_wf cfg"
  by (rule parse_ini_returns) code_simp

section \<open>Conditional blocks\<close>

text \<open>
  \<open>block d ls\<close>: the lines close \<open>d\<close> conditions opened before them and every one they open, and
  none of them is the \<open>#else\<close> of another.
\<close>

fun block :: "nat \<Rightarrow> string list \<Rightarrow> bool" where
  "block d [] \<longleftrightarrow> d = 0"
| "block d (l # ls) \<longleftrightarrow>
     (if startswith (strip l) ''#if '' then block (Suc d) ls
      else if strip l = ''#endif'' then d \<noteq> 0 \<and> block (d - 1) ls
      else if strip l = ''#else'' then d \<noteq> 0 \<and> block d ls
      else block d ls)"

text \<open>What a skipped line still does to \<open>CAN_COMMANDS\<close>.\<close>

definition setting_line :: "string \<Rightarrow> bool" where
  "setting_line l \<longleftrightarrow> startswith l ''#set '' \<or> startswith l ''#unset ''"

definition setting :: "string \<Rightarrow> bool \<Rightarrow> bool" where
  "setting l b =
     (if startswith l ''#set '' then strip (drop 5 l) = ''CAN_COMMANDS'' \<or> b
      else if startswith l ''#unset '' then strip (drop 7 l) \<noteq> ''CAN_COMMANDS'' \<and> b
      else b)"

definition settings :: "string list \<Rightarrow> bool \<Rightarrow> bool" where
  "settings ls b = fold (\<lambda>l. setting (strip l)) ls b"

definition skipped :: "string list \<Rightarrow> ini_parser \<Rightarrow> ini_parser" where
  "skipped ls p = p\<lparr>ini := (ini p)\<lparr>can_commands := settings ls (can_commands (ini p))\<rparr>\<rparr>"

definition condition_holds :: "string \<Rightarrow> ini_parser \<Rightarrow> bool" where
  "condition_holds c p \<longleftrightarrow> (if c = ''CAN_COMMANDS'' then can_commands (ini p) else c \<noteq> ''CELSIUS'')"

lemma stack_ini_swap: "p\<lparr>condition_stack := S, ini := i\<rparr> = p\<lparr>ini := i, condition_stack := S\<rparr>"
  by (cases p) simp

text \<open>The kinds of lines.\<close>

lemma startswith_Cons: "startswith s (c # cs) \<longleftrightarrow> (\<exists>s'. s = c # s' \<and> startswith s' cs)"
  by (cases s) (auto simp: startswith_def)

lemma startswith_Nil [simp]: "startswith s []"
  by (simp add: startswith_def)

lemmas starts = startswith_Cons startswith_Nil

lemma line_if: "startswith l ''#if '' \<Longrightarrow> process_line l p =
    Inr (p\<lparr>condition_stack := condition_holds (strip (drop 4 l)) p # condition_stack p\<rparr>)"
  by (auto simp: process_line_def preprocess_def starts condition_holds_def Let_def)

lemma line_else: "process_line ''#else'' (p\<lparr>condition_stack := c # cs\<rparr>) = Inr (p\<lparr>condition_stack := (\<not> c) # cs\<rparr>)"
  by (auto simp: process_line_def preprocess_def starts)

lemma line_endif: "process_line ''#endif'' (p\<lparr>condition_stack := c # cs\<rparr>) = Inr (p\<lparr>condition_stack := cs\<rparr>)"
  by (auto simp: process_line_def preprocess_def starts)

text \<open>Any other line.\<close>

abbreviation plain_line :: "string \<Rightarrow> bool" where
  "plain_line l \<equiv> \<not> startswith l ''#if '' \<and> l \<noteq> ''#else'' \<and> l \<noteq> ''#endif''"

lemma preprocess_plain:
  "plain_line l \<Longrightarrow> preprocess l p =
     (if setting_line l then Some (p\<lparr>ini := (ini p)\<lparr>can_commands := setting l (can_commands (ini p))\<rparr>\<rparr>) else None)"
  by (simp add: preprocess_def setting_line_def setting_def)

lemma setting_line_plain:
  "setting_line l \<Longrightarrow> l \<noteq> [] \<and> \<not> startswith l '';'' \<and> plain_line l"
  by (auto simp: setting_line_def starts)

lemma setting_other: "\<not> setting_line l \<Longrightarrow> setting l b = b"
  by (simp add: setting_line_def setting_def)

lemma line_setting:
  "setting_line l \<Longrightarrow> process_line l p = Inr (p\<lparr>ini := (ini p)\<lparr>can_commands := setting l (can_commands (ini p))\<rparr>\<rparr>)"
  using setting_line_plain [of l] by (simp add: process_line_def preprocess_plain)

lemma line_plain:
  assumes "plain_line l" and "\<not> setting_line l"
  shows "process_line l (p\<lparr>condition_stack := S\<rparr>) =
    (if list_all (\<lambda>c. c) S
     then bindE (process_line l (p\<lparr>condition_stack := []\<rparr>)) (\<lambda>q. Inr (q\<lparr>condition_stack := S\<rparr>))
     else Inr (p\<lparr>condition_stack := S\<rparr>))"
proof (cases "l = [] \<or> startswith l '';''")
  case False
  have act: "active (p\<lparr>condition_stack := S\<rparr>) \<longleftrightarrow> list_all (\<lambda>c. c) S" "active (p\<lparr>condition_stack := []\<rparr>)"
    by (auto simp: active_def)
  have const: "parse_constant l (p\<lparr>condition_stack := S\<rparr>) =
      bindE (parse_constant l (p\<lparr>condition_stack := []\<rparr>)) (\<lambda>q. Inr (q\<lparr>condition_stack := S\<rparr>))"
    by (simp add: parse_constant_def bindE_assoc Let_def bindE_def split: option.split sum.split)
  show ?thesis
    unfolding process_line_def preprocess_plain [OF assms(1)] using False assms(2)
    by (simp add: act const bindE_assoc stack_ini_swap split: option.split)
qed (auto simp: process_line_def)

lemma line_stack:
  assumes "plain_line l" and "process_line l p = Inr p'"
  shows "condition_stack p' = condition_stack p"
proof (cases "setting_line l")
  case False
  have "(if list_all (\<lambda>c. c) (condition_stack p)
      then bindE (process_line l (p\<lparr>condition_stack := []\<rparr>)) (\<lambda>q. Inr (q\<lparr>condition_stack := condition_stack p\<rparr>))
      else Inr p) = Inr p'"
    using line_plain [OF assms(1) False, where p = p and S = "condition_stack p"] assms(2) by simp
  then show ?thesis by (auto simp: bindE_eq_Inr split: if_splits)
qed (use assms(2) line_setting in auto)

section \<open>Blocks of lines\<close>

lemma parse_lines_Nil [simp]: "parse_lines [] p = Inr p"
  by (simp add: parse_lines_def)

lemma parse_lines_Cons [simp]: "parse_lines (l # ls) p = bindE (process_line (strip l) p) (parse_lines ls)"
  by (simp add: parse_lines_def [abs_def])

lemma parse_lines_append: "parse_lines (as @ bs) p = bindE (parse_lines as p) (parse_lines bs)"
  by (induction as arbitrary: p) (auto simp: bindE_def split: sum.splits)

lemma settings_simps [simp]: "settings [] b = b" "settings (l # ls) b = settings ls (setting (strip l) b)"
  by (simp_all add: settings_def)

lemma settings_directives:
  "startswith l ''#if '' \<Longrightarrow> setting l b = b" "setting ''#else'' b = b" "setting ''#endif'' b = b"
  by (auto simp: setting_def starts)

lemma skip_block:
  "block (length cs) ls \<Longrightarrow> \<not> list_all (\<lambda>c. c) st \<Longrightarrow>
     parse_lines ls (p\<lparr>condition_stack := cs @ st\<rparr>) = Inr ((skipped ls p)\<lparr>condition_stack := st\<rparr>)"
proof (induction ls arbitrary: cs p)
  case (Cons l ls)
  let ?l = "strip l"
  consider "startswith ?l ''#if ''" | "?l = ''#endif''" | "?l = ''#else''" | "plain_line ?l" by blast
  then show ?case
  proof cases
    case 1
    let ?c = "condition_holds (strip (drop 4 ?l)) (p\<lparr>condition_stack := cs @ st\<rparr>)"
    from 1 Cons.prems have "block (length (?c # cs)) ls" by simp
    from Cons.IH [OF this Cons.prems(2), of p] 1 show ?thesis
      by (simp add: line_if skipped_def settings_directives)
  next
    case 2
    with Cons.prems obtain c cs' where cs: "cs = c # cs'" by (cases cs) (auto simp: starts)
    with 2 Cons.prems have "block (length cs') ls" by (auto simp: starts)
    from Cons.IH [OF this Cons.prems(2), of p] 2 show ?thesis
      by (simp add: cs line_endif skipped_def settings_directives)
  next
    case 3
    with Cons.prems obtain c cs' where cs: "cs = c # cs'" by (cases cs) (auto simp: starts)
    with 3 Cons.prems have "block (length ((\<not> c) # cs')) ls" by (auto simp: starts)
    from Cons.IH [OF this Cons.prems(2), of p] 3 show ?thesis
      by (simp add: cs line_else skipped_def settings_directives)
  next
    case 4
    with Cons.prems have b: "block (length cs) ls" by (auto split: if_splits)
    show ?thesis
    proof (cases "setting_line ?l")
      case True
      have step: "process_line ?l (p\<lparr>condition_stack := cs @ st\<rparr>) =
          Inr (p\<lparr>ini := (ini p)\<lparr>can_commands := setting ?l (can_commands (ini p))\<rparr>, condition_stack := cs @ st\<rparr>)"
        unfolding line_setting [OF True] stack_ini_swap [symmetric] by simp
      from Cons.IH [OF b Cons.prems(2), of "p\<lparr>ini := (ini p)\<lparr>can_commands := setting ?l (can_commands (ini p))\<rparr>\<rparr>"]
      show ?thesis unfolding parse_lines_Cons step by (simp add: skipped_def)
    next
      case False
      have "\<not> list_all (\<lambda>c. c) (cs @ st)" using Cons.prems(2) by simp
      then have step: "process_line ?l (p\<lparr>condition_stack := cs @ st\<rparr>) = Inr (p\<lparr>condition_stack := cs @ st\<rparr>)"
        using line_plain [OF 4 False, where p = p and S = "cs @ st"] by (simp only: if_False)
      from Cons.IH [OF b Cons.prems(2), of p] show ?thesis
        by (simp add: step skipped_def setting_other [OF False])
    qed
  qed
qed (simp add: skipped_def)

lemma condition_holds_stack [simp]: "condition_holds c (p\<lparr>condition_stack := S\<rparr>) = condition_holds c p"
  by (simp add: condition_holds_def)

lemma line_setting_stack:
  "setting_line l \<Longrightarrow> process_line l (p\<lparr>condition_stack := S\<rparr>) =
     Inr (p\<lparr>ini := (ini p)\<lparr>can_commands := setting l (can_commands (ini p))\<rparr>, condition_stack := S\<rparr>)"
  unfolding line_setting stack_ini_swap [symmetric] by simp

text \<open>A condition that holds does not change what the lines inside it do.\<close>

lemma active_block:
  "block (length cs) ls \<Longrightarrow>
     parse_lines ls (p\<lparr>condition_stack := cs @ True # st\<rparr>) =
       bindE (parse_lines ls (p\<lparr>condition_stack := cs @ st\<rparr>)) (\<lambda>q. Inr (q\<lparr>condition_stack := True # st\<rparr>)) \<and>
     (\<forall>q. parse_lines ls (p\<lparr>condition_stack := cs @ st\<rparr>) = Inr q \<longrightarrow> condition_stack q = st)"
proof (induction ls arbitrary: cs p)
  case (Cons l ls)
  let ?l = "strip l"
  consider "startswith ?l ''#if ''" | "?l = ''#endif''" | "?l = ''#else''" | "plain_line ?l" by blast
  then show ?case
  proof cases
    case 1
    with Cons.prems have "block (length (condition_holds (strip (drop 4 ?l)) p # cs)) ls" by simp
    from Cons.IH [OF this, of p] 1 show ?thesis by (simp add: line_if)
  next
    case 2
    with Cons.prems obtain c cs' where cs: "cs = c # cs'" by (cases cs) (auto simp: starts)
    with 2 Cons.prems have "block (length cs') ls" by (auto simp: starts)
    from Cons.IH [OF this, of p] 2 show ?thesis by (simp add: cs line_endif)
  next
    case 3
    with Cons.prems obtain c cs' where cs: "cs = c # cs'" by (cases cs) (auto simp: starts)
    with 3 Cons.prems have "block (length ((\<not> c) # cs')) ls" by (auto simp: starts)
    from Cons.IH [OF this, of p] 3 show ?thesis by (simp add: cs line_else)
  next
    case 4
    with Cons.prems have b: "block (length cs) ls" by (auto split: if_splits)
    show ?thesis
    proof (cases "setting_line ?l")
      case True
      from Cons.IH [OF b, of "p\<lparr>ini := (ini p)\<lparr>can_commands := setting ?l (can_commands (ini p))\<rparr>\<rparr>"]
      show ?thesis by (simp add: line_setting_stack [OF True])
    next
      case False
      have step: "process_line ?l (p\<lparr>condition_stack := cs @ True # st\<rparr>) =
          bindE (process_line ?l (p\<lparr>condition_stack := cs @ st\<rparr>)) (\<lambda>q. Inr (q\<lparr>condition_stack := cs @ True # st\<rparr>))"
        unfolding line_plain [OF 4 False, where p = p and S = "cs @ True # st"]
          line_plain [OF 4 False, where p = p and S = "cs @ st"]
        by (simp add: bindE_assoc)
      show ?thesis
      proof (cases "process_line ?l (p\<lparr>condition_stack := cs @ st\<rparr>)")
        case (Inr q)
        from line_stack [OF 4 Inr] have "q = q\<lparr>condition_stack := cs @ st\<rparr>" by simp
        with Cons.IH [OF b, of q] show ?thesis
          unfolding parse_lines_Cons step unfolding Inr by simp
      qed (simp add: step)
    qed
  qed
qed simp

section \<open>Property of the conditional blocks\<close>

text \<open>
  C34: a conditional block selects one branch. Of the lines \<open>#if c\<close>, \<open>as\<close>, \<open>#else\<close>, \<open>bs\<close>, \<open>#endif\<close>,
  where the blocks inside \<open>as\<close> and \<open>bs\<close> are closed, the parser acts on \<open>as\<close> if the condition holds and
  on \<open>bs\<close> otherwise, as if the other lines were not there, nested conditions included, whatever
  conditions are open around the block; but the \<open>#set\<close> and \<open>#unset\<close> lines of the branch not taken are
  obeyed too.
\<close>

theorem conditional_selects_branch:
  assumes "strip i = ''#if '' @ c" and "strip e = ''#else''" and "strip f = ''#endif''"
    and "block 0 as" and "block 0 bs"
  shows "parse_lines ([i] @ as @ [e] @ bs @ [f]) p =
    (if condition_holds (strip c) p then bindE (parse_lines as p) (\<lambda>q. Inr (skipped bs q))
     else parse_lines bs (skipped as p))"
proof -
  let ?st = "condition_stack p"
  have i: "process_line (strip i) p = Inr (p\<lparr>condition_stack := condition_holds (strip c) p # ?st\<rparr>)"
    using line_if [of "strip i" p] by (simp add: assms(1) starts)
  have skip: "parse_lines ls (q\<lparr>condition_stack := False # S\<rparr>) = Inr ((skipped ls q)\<lparr>condition_stack := False # S\<rparr>)"
    if "block 0 ls" for ls q S
    using skip_block [where cs = "[]" and ls = ls and st = "False # S" and p = q] that by simp
  have act: "parse_lines ls (q\<lparr>condition_stack := True # condition_stack q\<rparr>) =
      bindE (parse_lines ls q) (\<lambda>q'. Inr (q'\<lparr>condition_stack := True # condition_stack q\<rparr>))"
    and st: "parse_lines ls q = Inr q' \<Longrightarrow> condition_stack q' = condition_stack q" if "block 0 ls" for ls q q'
    using active_block [where cs = "[]" and ls = ls and p = q and st = "condition_stack q"] that by simp_all
  have sk: "condition_stack (skipped ls q) = condition_stack q" for ls q by (simp add: skipped_def)
  show ?thesis
  proof (cases "condition_holds (strip c) p")
    case True
    show ?thesis
    proof (cases "parse_lines as p")
      case (Inr q)
      then have "condition_stack (skipped bs q) = ?st" using st [OF assms(4)] sk by simp
      then have "(skipped bs q)\<lparr>condition_stack := ?st\<rparr> = skipped bs q" by (metis ini_parser.surjective ini_parser.update_convs(2))
      then show ?thesis
        using True act [OF assms(4), where q = p] skip [OF assms(5), where q = q and S = ?st] Inr
        by (simp add: parse_lines_append i line_else line_endif assms(2,3))
    qed (use True act [OF assms(4), where q = p] in \<open>simp add: parse_lines_append i\<close>)
  next
    case False
    have endif: "bindE (bindE (parse_lines bs r) (\<lambda>q'. Inr (q'\<lparr>condition_stack := True # condition_stack r\<rparr>)))
        (parse_lines [f]) = parse_lines bs r" for r
    proof (cases "parse_lines bs r")
      case (Inr q)
      then have "q\<lparr>condition_stack := condition_stack r\<rparr> = q" using st [OF assms(5)] by fastforce
      with Inr show ?thesis by (simp add: line_endif assms(3))
    qed simp
    show ?thesis
      using False skip [OF assms(4), where q = p and S = ?st] act [OF assms(5), where q = "skipped as p"] endif [where r = "skipped as p"]
      by (simp add: parse_lines_append i line_else assms(2,3) sk)
  qed
qed

theorem conditional_selects_branch_witness:
  "parse_lines ([''#if CELSIUS''] @ [''#unset CAN_COMMANDS''] @ [''#else''] @ [''[Constants]''] @ [''#endif'']) INIParser =
   Inr (INIParser\<lparr>ini := INIConfig\<lparr>can_commands := False\<rparr>, current_section := ''Constants''\<rparr>)"
proof -
  have "condition_holds (strip ''CELSIUS'') INIParser = False" by code_simp
  moreover have "parse_lines [''[Constants]''] (skipped [''#unset CAN_COMMANDS''] INIParser) =
      Inr (INIParser\<lparr>ini := INIConfig\<lparr>can_commands := False\<rparr>, current_section := ''Constants''\<rparr>)"
    by code_simp
  ultimately show ?thesis
    by (subst conditional_selects_branch [where c = "''CELSIUS''"]) (code_simp | simp)+
qed

end
