(* ===== verification/DashIni.thy ===== *)
theory DashIni
  imports IniSpec Capture OutpcBuilder
begin

text \<open>
  \<open>exampleFiles/ms2_ini_dash.py\<close> (and its copy in \<open>work-ms2d-daemon\<close>): the dashboard that reads
  the channels from an INI file of its own parser and polls the ECU. The serial port is a state
  \<open>'s\<close> with \<open>rd n\<close> for \<open>ser.read(n)\<close> and \<open>wr\<close> for \<open>ser.write\<close>; what \<open>time.time()\<close> will return is a
  stream beside it. Drawing the rows on the terminal is not modelled.
\<close>

section \<open>Fields\<close>

record dash_field =
  df_name :: string
  df_type :: string
  df_data :: string
  df_offset :: int
  df_units :: string
  df_scale :: pyfloat
  df_translate :: pyfloat
  df_bits :: "(int \<times> int) option"

definition dash_size :: "dash_field \<Rightarrow> nat" where
  "dash_size f =
     (let dt = df_data f in
      if dt = ''U08'' then 1 else if dt = ''S08'' then 1 else if dt = ''U16'' then 2
      else if dt = ''S16'' then 2 else if dt = ''U32'' then 4 else if dt = ''S32'' then 4 else 2)"

text \<open>The property \<open>struct_format\<close>: little-endian.\<close>

definition dash_format :: "dash_field \<Rightarrow> fmt" where
  "dash_format f =
     (let dt = df_data f in
      (LittleEndian,
       if dt = ''U08'' then FmtB else if dt = ''S08'' then FmtSb else if dt = ''U16'' then FmtH
       else if dt = ''S16'' then FmtSh else if dt = ''U32'' then FmtI else if dt = ''S32'' then FmtSi else FmtH))"

lemma calcsize_dash_format: "calcsize (snd (dash_format f)) = dash_size f"
  by (simp add: dash_format_def dash_size_def Let_def)

section \<open>Parsing\<close>

text \<open>
  \<open>split_respecting_quotes\<close>: the parts found, the part being read (reversed), and the quote
  character that is open. The regular expressions are those of \<open>IniParser\<close>.
\<close>

fun dash_split :: "string list \<Rightarrow> string \<Rightarrow> char option \<Rightarrow> string \<Rightarrow> string list" where
  "dash_split parts cur q [] = (if cur \<noteq> [] then parts @ [rev cur] else parts)"
| "dash_split parts cur q (c # s) =
     (if (c = CHR 0x22 \<or> c = CHR 0x27) \<and> q = None then dash_split parts (c # cur) (Some c) s
      else if q = Some c then dash_split parts (c # cur) None s
      else if c = CHR '','' \<and> q = None then dash_split (parts @ [rev cur]) [] q s
      else dash_split parts (c # cur) q s)"

definition dash_split_quotes :: "string \<Rightarrow> string list" where
  "dash_split_quotes s = dash_split [] [] None s"

definition parse_numeric_or_expr :: "string \<Rightarrow> pyfloat" where
  "parse_numeric_or_expr s0 =
     (let s = strip s0 in
      case parse_float s of
        Inr x \<Rightarrow> x
      | Inl e \<Rightarrow>
          (case re_search re_number s of
             Some (g, rest) \<Rightarrow> (case parse_float (group 0 g) of Inr x \<Rightarrow> x | Inl e \<Rightarrow> Fin 1)
           | None \<Rightarrow> Fin 1))"

definition dash_field_line :: "string \<Rightarrow> dash_field option result" where
  "dash_field_line line =
     (case re_match re_field line of
        None \<Rightarrow> Inr None
      | Some (g, rest) \<Rightarrow>
          let n = group 1 g; parts = dash_split_quotes (strip (group 2 g)) in
          if length parts < 3 then Inr None
          else let ft = lower (strip (parts ! 0)); dt = upper (strip (parts ! 1)) in
            case parse_int (strip (parts ! 2)) of
              Inl e \<Rightarrow> Inr None
            | Inr off \<Rightarrow>
                if ft = ''scalar'' then
                  Inr (Some \<lparr>df_name = n, df_type = ''scalar'', df_data = dt, df_offset = off,
                    df_units = (if length parts > 3 then strip_chars [CHR 0x22] (strip (parts ! 3)) else []),
                    df_scale = (if length parts > 4 then parse_numeric_or_expr (strip (parts ! 4)) else Fin 1),
                    df_translate = (if length parts > 5 then parse_numeric_or_expr (strip (parts ! 5)) else Fin 0),
                    df_bits = None\<rparr>)
                else if ft = ''bits'' then
                  bindE (if length parts > 3 then
                           (case re_search re_bits (parts ! 3) of
                              Some (b, r) \<Rightarrow>
                                bindE (parse_int (group 1 b)) (\<lambda>lo.
                                bindE (parse_int (group 2 b)) (\<lambda>hi. Inr (Some (lo, hi))))
                            | None \<Rightarrow> Inr None)
                         else Inr None) (\<lambda>bits.
                  Inr (Some \<lparr>df_name = n, df_type = ''bits'', df_data = dt, df_offset = off,
                    df_units = [], df_scale = Fin 1, df_translate = Fin 0, df_bits = bits\<rparr>))
                else Inr None)"

record dash_parser =
  dp_fields :: "(string, dash_field) dict"
  dp_block_size :: int
  dp_in_channels :: bool
  dp_conditions :: "bool list"

text \<open>One line, stripped; the stack of conditions has its top first.\<close>

definition dash_line :: "string \<Rightarrow> dash_parser \<Rightarrow> dash_parser result" where
  "dash_line line p =
     (if line = [] \<or> startswith line '';'' then Inr p
      else if startswith line ''#if '' then
        (let cond = strip (drop 4 line)
         in Inr (p\<lparr>dp_conditions := (cond \<noteq> ''CELSIUS'' \<and> cond \<noteq> ''CAN_COMMANDS'') # dp_conditions p\<rparr>))
      else if line = ''#else'' then
        Inr (case dp_conditions p of c # cs \<Rightarrow> p\<lparr>dp_conditions := (\<not> c) # cs\<rparr> | [] \<Rightarrow> p)
      else if line = ''#endif'' then
        Inr (case dp_conditions p of c # cs \<Rightarrow> p\<lparr>dp_conditions := cs\<rparr> | [] \<Rightarrow> p)
      else if dp_conditions p \<noteq> [] \<and> \<not> list_all (\<lambda>c. c) (dp_conditions p) then Inr p
      else if startswith line ''['' then
        Inr (p\<lparr>dp_in_channels := (strip_chars ''[]'' line = ''OutputChannels'')\<rparr>)
      else if \<not> dp_in_channels p then Inr p
      else if contains line ''ochBlockSize'' \<and> contains line ''='' then
        (case re_search re_block_size line of
           Some (g, r) \<Rightarrow> bindE (parse_int (group 1 g)) (\<lambda>n. Inr (p\<lparr>dp_block_size := n\<rparr>))
         | None \<Rightarrow> Inr p)
      else if contains line ''{'' then Inr p
      else if contains line ''ochGetCommand'' then Inr p
      else if contains line ''='' then
        bindE (dash_field_line line) (\<lambda>fd. Inr
          (case fd of
             Some f \<Rightarrow> p\<lparr>dp_fields := dict_set (df_name f) f (dp_fields p)\<rparr>
           | None \<Rightarrow> p))
      else Inr p)"

definition DashParser :: dash_parser where
  "DashParser = \<lparr>dp_fields = [], dp_block_size = 209, dp_in_channels = False, dp_conditions = []\<rparr>"

definition parse_ini_output_channels :: "bytes \<Rightarrow> ((string, dash_field) dict \<times> int) result" where
  "parse_ini_output_channels file =
     bindE (foldE (\<lambda>line. dash_line (strip line)) (splitlines (remove_line_prefixes (read_text file))) DashParser)
       (\<lambda>p. Inr (dp_fields p, dp_block_size p))"

section \<open>The serial port\<close>

text \<open>The port and the values \<open>time.time()\<close> will return.\<close>

record 's dash_link =
  link :: 's
  ticks :: "pyfloat stream"

text \<open>
  \<open>read_exact\<close> after it has taken its start time \<open>t0\<close>: \<open>None\<close> is a loop that never ends, which a
  clock that stands still would give.
\<close>

partial_function (option) read_until ::
  "(nat \<Rightarrow> 's \<Rightarrow> bytes \<times> 's) \<Rightarrow> nat \<Rightarrow> pyfloat \<Rightarrow> pyfloat \<Rightarrow> bytes \<Rightarrow> 's dash_link \<Rightarrow> (bytes result \<times> 's dash_link) option" where
  "read_until rd n t0 timeout buf l =
     (if length buf < n then
        (let t = shd (ticks l); l1 = l\<lparr>ticks := stl (ticks l)\<rparr> in
         if py_lt timeout (py_sub t t0) then Some (Inl TimeoutError, l1)
         else let (chunk, s) = rd (n - length buf) (link l1)
              in read_until rd n t0 timeout (buf @ chunk) (l1\<lparr>link := s\<rparr>))
      else Some (Inr buf, l))"

definition read_exact ::
  "(nat \<Rightarrow> 's \<Rightarrow> bytes \<times> 's) \<Rightarrow> nat \<Rightarrow> pyfloat \<Rightarrow> 's dash_link \<Rightarrow> (bytes result \<times> 's dash_link) option" where
  "read_exact rd n timeout l =
     read_until rd n (shd (ticks l)) timeout [] (l\<lparr>ticks := stl (ticks l)\<rparr>)"

text \<open>What follows a read that may time out.\<close>

definition after ::
  "(bytes result \<times> 's) option \<Rightarrow> (bytes \<Rightarrow> 's \<Rightarrow> ('a result \<times> 's) option) \<Rightarrow> ('a result \<times> 's) option" where
  "after m f =
     (case m of None \<Rightarrow> None | Some (Inl e, s) \<Rightarrow> Some (Inl e, s) | Some (Inr x, s) \<Rightarrow> f x s)"

definition send_command ::
  "(nat \<Rightarrow> 's \<Rightarrow> bytes \<times> 's) \<Rightarrow> (bytes \<Rightarrow> 's \<Rightarrow> 's) \<Rightarrow> bytes \<Rightarrow> pyfloat \<Rightarrow> 's dash_link \<Rightarrow>
     (bytes result \<times> 's dash_link) option" where
  "send_command rd wr payload timeout l =
     (case bindE (struct_pack (BigEndian, FmtH) (int (length payload))) (\<lambda>size.
           bindE (struct_pack (BigEndian, FmtI) (uint (crc32 payload))) (\<lambda>crc.
           Inr (size @ payload @ crc))) of
        Inl e \<Rightarrow> Some (Inl e, l)
      | Inr pkt \<Rightarrow>
          after (read_exact rd 2 timeout (l\<lparr>link := wr pkt (link l)\<rparr>)) (\<lambda>hdr l1.
          after (read_exact rd (be_nat hdr) timeout l1) (\<lambda>data l2.
          after (read_exact rd 4 timeout l2) (\<lambda>crc_bytes l3.
          if be_nat crc_bytes \<noteq> unat (crc32 data) then Some (Inl ValueError, l3)
          else Some (Inr data, l3)))))"

section \<open>Decoding\<close>

unbundle bit_operations_syntax

datatype dash_value = VInt int | VFloat pyfloat

text \<open>A shift by a negative count raises \<open>ValueError\<close>.\<close>

definition dash_shl :: "int \<Rightarrow> int \<Rightarrow> int result" where
  "dash_shl x n = (if n < 0 then Inl ValueError else Inr (push_bit (nat n) x))"

definition dash_shr :: "int \<Rightarrow> int \<Rightarrow> int result" where
  "dash_shr x n = (if n < 0 then Inl ValueError else Inr (drop_bit (nat n) x))"

definition decode_field :: "bytes \<Rightarrow> dash_field \<Rightarrow> dash_value result" where
  "decode_field data f =
     (if df_offset f + int (dash_size f) > int (length data) then Inr (VInt 0)
      else case unpack_from (dash_format f) data (df_offset f) of
        Inl e \<Rightarrow> Inr (VInt 0)
      | Inr raw \<Rightarrow>
          (case (if df_type f = ''bits'' then df_bits f else None) of
             Some (low, high) \<Rightarrow>
               bindE (dash_shl 1 (high - low + 1)) (\<lambda>m.
               bindE (dash_shr raw low) (\<lambda>r. Inr (VInt (r AND (m - 1)))))
           | None \<Rightarrow>
               bindE (py_float raw) (\<lambda>r. Inr (VFloat (py_mul (py_add r (df_translate f)) (df_scale f))))))"

definition decode_outpc :: "bytes \<Rightarrow> (string, dash_field) dict \<Rightarrow> (string, dash_value) dict result" where
  "decode_outpc data fs =
     foldE (\<lambda>(n, f) res. bindE (decode_field data f) (\<lambda>v. Inr (dict_set n v res))) fs []"

section \<open>The dashboard\<close>

text \<open>The channel, its title, its number format and its unit.\<close>

type_synonym dash_item = "string \<times> string \<times> string \<times> string"

definition DASHBOARD_FIELDS :: "dash_item list" where
  "DASHBOARD_FIELDS = [
     (''rpm'', ''RPM'', ''{:6.0f}'', []),
     (''advance'', ''Advance'', ''{:6.1f}'', ''deg''),
     (''map'', ''MAP'', ''{:6.1f}'', ''kPa''),
     (''tps'', ''TPS'', ''{:6.1f}'', [CHR 0x25]),
     (''coolant'', ''Coolant'', ''{:6.1f}'', []),
     (''mat'', ''IAT'', ''{:6.1f}'', []),
     (''batteryVoltage'', ''Battery'', ''{:6.2f}'', ''V''),
     (''afr1'', ''AFR1'', ''{:6.2f}'', []),
     (''afr2'', ''AFR2'', ''{:6.2f}'', []),
     (''pulseWidth1'', ''PW1'', ''{:6.3f}'', ''ms''),
     (''dwell'', ''Dwell'', ''{:6.2f}'', ''ms''),
     (''veCurr1'', ''VE'', ''{:6.1f}'', [CHR 0x25]),
     (''egoCorrection1'', ''EGO Corr'', ''{:6.1f}'', [CHR 0x25]),
     (''accelEnrich'', ''Accel Enr'', ''{:6.2f}'', ''ms''),
     (''warmupEnrich'', ''Warmup'', ''{:6.0f}'', [CHR 0x25]),
     (''baroCorrection'', ''Baro Corr'', ''{:6.1f}'', [CHR 0x25]),
     (''gammaEnrich'', ''Gamma'', ''{:6.0f}'', [CHR 0x25]),
     (''seconds'', ''ECU Time'', ''{:6.0f}'', ''s'')]"

text \<open>\<open>max(lo, min(hi, value))\<close> on a decoded value: an integer inside the range stays one.\<close>

definition dash_clamp :: "dash_value \<Rightarrow> pyfloat \<Rightarrow> pyfloat \<Rightarrow> dash_value" where
  "dash_clamp v lo hi =
     (case v of
        VFloat x \<Rightarrow> VFloat (py_max lo (py_min hi x))
      | VInt k \<Rightarrow>
          if py_lt (Fin (of_int k)) hi then (if py_lt lo (Fin (of_int k)) then VInt k else VFloat lo)
          else VFloat (py_max lo hi))"

text \<open>The rows \<open>print_dashboard\<close> draws: title, number format, value, unit.\<close>

type_synonym dash_line_shown = "string \<times> string \<times> dash_value \<times> string"

definition dash_row ::
  "(string, dash_value) dict \<Rightarrow> (string, dash_field) dict \<Rightarrow> dash_item \<Rightarrow> dash_line_shown list" where
  "dash_row decoded fs row =
     (let (field_name, display_name, number_fmt, default_units) = row in
      case dict_get decoded field_name of
        None \<Rightarrow> []
      | Some v \<Rightarrow>
          let units = (case dict_get fs field_name of
                         Some f \<Rightarrow> if df_units f \<noteq> [] then df_units f else default_units
                       | None \<Rightarrow> default_units);
              value = (if field_name = ''tps'' then dash_clamp v (Fin 0) (Fin 100) else v)
          in [(display_name, number_fmt, value, units)])"

definition dash_rows ::
  "(string, dash_value) dict \<Rightarrow> (string, dash_field) dict \<Rightarrow> dash_line_shown list" where
  "dash_rows decoded fs = concat (List.map (dash_row decoded fs) DASHBOARD_FIELDS)"

text \<open>The status line.\<close>

datatype dash_status = StatusOk | SizeMismatch nat int | Timeout | Failed py_error

record dash_screen =
  rows :: "dash_line_shown list"
  payload_size :: nat
  status :: dash_status

definition error_screen :: "dash_status \<Rightarrow> dash_screen" where
  "error_screen st = \<lparr>rows = [], payload_size = 0, status = st\<rparr>"

text \<open>What is shown for a response.\<close>

definition dash_show :: "(string, dash_field) dict \<Rightarrow> int \<Rightarrow> bytes \<Rightarrow> dash_screen result" where
  "dash_show fs block_size response =
     (let outpc = drop 1 response;
          warn = (if int (length outpc) \<noteq> block_size then SizeMismatch (length outpc) block_size else StatusOk)
      in bindE (decode_outpc outpc fs) (\<lambda>decoded.
         Inr \<lparr>rows = dash_rows decoded fs, payload_size = length outpc, status = warn\<rparr>))"

text \<open>One turn of the main loop, up to its sleep.\<close>

definition dash_poll ::
  "(nat \<Rightarrow> 's \<Rightarrow> bytes \<times> 's) \<Rightarrow> (bytes \<Rightarrow> 's \<Rightarrow> 's) \<Rightarrow> (string, dash_field) dict \<Rightarrow> int \<Rightarrow> pyfloat \<Rightarrow>
     's dash_link \<Rightarrow> (dash_screen \<times> 's dash_link) option" where
  "dash_poll rd wr fs block_size timeout l =
     (case send_command rd wr (encode ''A'') timeout l of
        None \<Rightarrow> None
      | Some (r, l') \<Rightarrow> Some
          (case bindE r (dash_show fs block_size) of
             Inr scr \<Rightarrow> scr
           | Inl e \<Rightarrow> error_screen (if e = TimeoutError then Timeout else Failed e), l'))"

end
