(* ===== verification/DashSpec.thy ===== *)
theory DashSpec
  imports DashIni
begin

text \<open>
  Properties of the dashboard: a turn of its loop ends whatever the port does, a turn on a
  simulator's port shows the block the simulator builds, the values of bit fields stay in their
  ranges, and where the dashboard and the simulator disagree on the order of bytes.
\<close>

section \<open>Reading from the port\<close>

lemma read_until_more:
  "length buf < n \<Longrightarrow> read_until rd n t0 timeout buf l =
     (if py_lt timeout (py_sub (shd (ticks l)) t0) then Some (Inl TimeoutError, l\<lparr>ticks := stl (ticks l)\<rparr>)
      else read_until rd n t0 timeout (buf @ fst (rd (n - length buf) (link l)))
        (l\<lparr>ticks := stl (ticks l), link := snd (rd (n - length buf) (link l))\<rparr>))"
  by (subst read_until.simps) (simp add: Let_def case_prod_beta)

lemma read_until_enough: "n \<le> length buf \<Longrightarrow> read_until rd n t0 timeout buf l = Some (Inr buf, l)"
  by (subst read_until.simps) simp

text \<open>The reads of one exchange, two values of the clock each, are in time.\<close>

definition prompt :: "pyfloat \<Rightarrow> pyfloat stream \<Rightarrow> bool" where
  "prompt timeout c \<longleftrightarrow> list_all (\<lambda>k. \<not> py_lt timeout (py_sub (c !! (2 * k + 1)) (c !! (2 * k)))) [0, 1, 2]"

context byte_source
begin

lemma dash_read:
  assumes "avail (link l) = xs @ rest" and "xs \<noteq> []"
    and "\<not> py_lt timeout (py_sub (ticks l !! 1) (ticks l !! 0))"
  shows "DashIni.read_exact read (length xs) timeout l =
      Some (Inr xs, l\<lparr>link := snd (read (length xs) (link l)), ticks := sdrop 2 (ticks l)\<rparr>) \<and>
    avail (snd (read (length xs) (link l))) = rest"
proof -
  from read_exact [OF assms(1) refl] obtain s where s: "read (length xs) (link l) = (xs, s)" "avail s = rest" by blast
  then show ?thesis
    using assms(2,3) unfolding DashIni.read_exact_def
    by (subst read_until_more) (auto simp: read_until_enough numeral_2_eq_2)
qed

end

text \<open>The command on a port that answers with a frame.\<close>

lemma after_simps [simp]:
  "after None f = None" "after (Some (Inl e, s)) f = Some (Inl e, s)" "after (Some (Inr x, s)) f = f x s"
  by (simp_all add: after_def)

context byte_source
begin

lemma send_command_frame:
  assumes "length req \<le> 65535" and "avail (wr (frame req) (link l)) = frame resp @ rest"
    and "resp \<noteq> []" and "length resp \<le> 65535" and "prompt timeout (ticks l)"
  defines "s1 \<equiv> snd (read 2 (wr (frame req) (link l)))"
  defines "s2 \<equiv> snd (read (length resp) s1)"
  shows "send_command read wr req timeout l =
    Some (Inr resp, l\<lparr>link := snd (read 4 s2), ticks := sdrop 6 (ticks l)\<rparr>)"
proof -
  let ?h = "be_bytes 2 (length resp)" and ?c = "be_bytes 4 (unat (crc32 resp))"
  have pkt: "bindE (struct_pack (BigEndian, FmtH) (int (length req))) (\<lambda>size.
      bindE (struct_pack (BigEndian, FmtI) (uint (crc32 req))) (\<lambda>crc. Inr (size @ req @ crc))) = Inr (frame req)"
    using build_request_eq [of req] assms(1) by (simp add: build_request_def crc32_ms_def)
  define l0 where "l0 = l\<lparr>link := wr (frame req) (link l)\<rparr>"
  define l1 where "l1 = l0\<lparr>link := s1, ticks := sdrop 2 (ticks l)\<rparr>"
  define l2 where "l2 = l0\<lparr>link := s2, ticks := sdrop 4 (ticks l)\<rparr>"
  have ticks: "\<not> py_lt timeout (py_sub (ticks l !! 1) (ticks l !! 0))"
    "\<not> py_lt timeout (py_sub (ticks l !! 3) (ticks l !! 2))"
    "\<not> py_lt timeout (py_sub (ticks l !! 5) (ticks l !! 4))"
    using assms(5) by (simp_all add: prompt_def numeral_eq_Suc)
  have sd: "sdrop 2 (sdrop 2 (ticks l)) = sdrop 4 (ticks l)" "sdrop 2 (sdrop 4 (ticks l)) = sdrop 6 (ticks l)"
    by (simp_all add: numeral_eq_Suc)
  have len: "length ?h = 2" "length ?c = 4" by simp_all
  then have ne: "?h \<noteq> []" "?c \<noteq> []" by force+
  have "avail (link l0) = ?h @ (resp @ ?c @ rest)"
    using assms(2) by (simp add: l0_def frame_def del: be_bytes.simps)
  from dash_read [OF this ne(1), of timeout] ticks(1) have
    r1: "DashIni.read_exact read 2 timeout l0 = Some (Inr ?h, l1)" and a1: "avail s1 = resp @ ?c @ rest"
    by (simp_all add: l0_def l1_def s1_def len del: be_bytes.simps)
  from dash_read [of l1 resp "?c @ rest" timeout] a1 assms(3) ticks(2) have
    r2: "DashIni.read_exact read (length resp) timeout l1 = Some (Inr resp, l2)" and a2: "avail s2 = ?c @ rest"
    by (simp_all add: l1_def l2_def s2_def sdrop_snth sd del: be_bytes.simps)
  from dash_read [of l2 ?c rest timeout] a2 ne(2) ticks(3) have
    r3: "DashIni.read_exact read 4 timeout l2 = Some (Inr ?c, l0\<lparr>link := snd (read 4 s2), ticks := sdrop 6 (ticks l)\<rparr>)"
    by (simp add: l2_def sdrop_snth sd len del: be_bytes.simps)
  have size: "be_nat ?h = length resp" using assms(4) by (simp add: be_nat_be_bytes del: be_bytes.simps)
  have crc: "be_nat ?c = unat (crc32 resp)"
    using unsigned_less [of "crc32 resp", where ?'a = nat] by (simp add: be_nat_be_bytes del: be_bytes.simps)
  show ?thesis
    unfolding send_command_def pkt sum.case l0_def [symmetric] r1 after_simps size r2 r3 crc by (simp add: l0_def)
qed

end

section \<open>A turn on a simulator's port\<close>

lemma unpack_little_range: "unpack_from f b off = Inr k \<Longrightarrow> \<bar>k\<bar> < 256 ^ calcsize (snd f)"
proof (unfold unpack_from_def, split option.split_asm)
  fix i assume "struct_unpack f (slice b i (i + calcsize (snd f))) = Inr k"
  then have k: "k = fmt_value f (slice b i (i + calcsize (snd f)))"
    and len: "length (slice b i (i + calcsize (snd f))) = calcsize (snd f)"
    by (auto simp: struct_unpack_def split: if_splits)
  define v where "v = be_nat (order_bytes (fst f) (slice b i (i + calcsize (snd f))))"
  have "v < 256 ^ calcsize (snd f)"
    using be_nat_bound [of "order_bytes (fst f) (slice b i (i + calcsize (snd f)))"] len by (simp add: v_def)
  then have v: "int v < 256 ^ calcsize (snd f)" by (metis of_nat_less_iff of_nat_numeral of_nat_power)
  have "0 \<le> (256 :: int) ^ calcsize (snd f) div 2" by simp
  with v show "\<bar>k\<bar> < 256 ^ calcsize (snd f)"
    unfolding k fmt_value_def v_def [symmetric] Let_def by (cases "snd f") (auto simp: fmt_hi_def)
qed simp

lemma raw_float: "unpack_from (dash_format f) b off = Inr k \<Longrightarrow> py_float k = Inr (Fin (of_int k))"
proof -
  assume "unpack_from (dash_format f) b off = Inr k"
  then have "\<bar>k\<bar> < 256 ^ dash_size f" using unpack_little_range calcsize_dash_format by metis
  also have "dash_size f \<le> 4" by (simp add: dash_size_def Let_def)
  then have "(256 :: int) ^ dash_size f \<le> 256 ^ 4" by (intro power_increasing) simp_all
  finally have "\<bar>k\<bar> < 2 ^ 53" by simp
  then show ?thesis by (rule py_float_small)
qed

text \<open>A channel whose bits the decoder can cut out.\<close>

definition bits_ok :: "dash_field \<Rightarrow> bool" where
  "bits_ok f \<longleftrightarrow>
     (case df_bits f of Some (lo, hi) \<Rightarrow> df_type f = ''bits'' \<longrightarrow> 0 \<le> lo \<and> lo \<le> hi + 1 | None \<Rightarrow> True)"

text \<open>The values a channel can have.\<close>

definition value_ok :: "dash_field \<Rightarrow> dash_value \<Rightarrow> bool" where
  "value_ok f v \<longleftrightarrow>
     (case (if df_type f = ''bits'' then df_bits f else None) of
        Some (lo, hi) \<Rightarrow> (case v of VInt k \<Rightarrow> 0 \<le> k \<and> k < 2 ^ nat (hi - lo + 1) | VFloat x \<Rightarrow> False)
      | None \<Rightarrow> (case v of VInt k \<Rightarrow> k = 0 | VFloat x \<Rightarrow> True))"

lemma and_mask_bounds: "0 \<le> (r :: int) AND (push_bit n 1 - 1) \<and> r AND (push_bit n 1 - 1) < 2 ^ n"
proof -
  have "r AND (push_bit n 1 - 1) = take_bit n r"
    by (simp add: push_bit_eq_mult take_bit_eq_mask mask_eq_exp_minus_1)
  then show ?thesis by simp
qed

lemma decode_field_total: "bits_ok f \<Longrightarrow> \<exists>v. decode_field data f = Inr v \<and> value_ok f v"
proof (cases "df_offset f + int (dash_size f) > int (length data)")
  case True
  then show ?thesis by (auto simp: decode_field_def value_ok_def split: option.splits)
next
  case False
  assume ok: "bits_ok f"
  show ?thesis
  proof (cases "unpack_from (dash_format f) data (df_offset f)")
    case (Inl e)
    with False show ?thesis by (auto simp: decode_field_def value_ok_def split: option.splits)
  next
    case (Inr raw)
    show ?thesis
    proof (cases "if df_type f = ''bits'' then df_bits f else None")
      case None
      with False Inr raw_float [OF Inr] show ?thesis
        by (auto simp: decode_field_def value_ok_def split: if_splits option.splits)
    next
      case (Some bits)
      obtain lo hi where b: "bits = (lo, hi)" by (cases bits)
      with Some ok have bits: "df_type f = ''bits''" "df_bits f = Some (lo, hi)" "0 \<le> lo" "lo \<le> hi + 1"
        by (auto simp: bits_ok_def split: if_splits)
      have "decode_field data f =
          Inr (VInt (drop_bit (nat lo) raw AND (push_bit (nat (hi - lo + 1)) 1 - 1)))"
        using False bits by (simp add: decode_field_def Inr dash_shl_def dash_shr_def)
      with bits and_mask_bounds show ?thesis by (auto simp: value_ok_def)
    qed
  qed
qed

lemma decode_field_error: "decode_field data f = Inl e \<Longrightarrow> e = ValueError"
  using raw_float
  by (fastforce simp: decode_field_def dash_shl_def dash_shr_def bindE_eq_Inl
      split: if_splits sum.splits option.splits)

lemma foldE_error: "foldE f xs s = Inl e \<Longrightarrow> \<exists>x\<in>set xs. \<exists>s. f x s = Inl e"
  by (induction xs arbitrary: s) (auto simp: bindE_eq_Inl)

lemma dict_set_new: "k \<notin> fst ` set d \<Longrightarrow> dict_set k v d = d @ [(k, v)]"
  by (induction d) auto

text \<open>The decoded block has the channels of the INI file, in their order.\<close>

lemma decode_outpc_acc:
  assumes "list_all (\<lambda>(n, f). bits_ok f) fs" and "distinct (dict_keys res @ dict_keys fs)"
  shows "\<exists>vs. foldE (\<lambda>(n, f) res. bindE (decode_field data f) (\<lambda>v. Inr (dict_set n v res))) fs res =
      Inr (res @ vs) \<and> list_all2 (\<lambda>(n, f) (m, v). m = n \<and> value_ok f v) fs vs"
  using assms
proof (induction fs arbitrary: res)
  case (Cons x fs)
  obtain n f where x: "x = (n, f)" by (cases x)
  from Cons.prems x have "bits_ok f" by simp
  from decode_field_total [OF this] obtain v where v: "decode_field data f = Inr v" "value_ok f v" by blast
  from Cons.prems(2) x have set: "dict_set n v res = res @ [(n, v)]" by (intro dict_set_new) auto
  have "\<exists>vs. foldE (\<lambda>(n, f) res. bindE (decode_field data f) (\<lambda>v. Inr (dict_set n v res))) fs (res @ [(n, v)]) =
      Inr ((res @ [(n, v)]) @ vs) \<and> list_all2 (\<lambda>(n, f) (m, v). m = n \<and> value_ok f v) fs vs"
    using Cons.prems x by (intro Cons.IH) auto
  then obtain vs where "foldE (\<lambda>(n, f) res. bindE (decode_field data f) (\<lambda>v. Inr (dict_set n v res))) fs (res @ [(n, v)]) =
      Inr (res @ (n, v) # vs)" "list_all2 (\<lambda>(n, f) (m, v). m = n \<and> value_ok f v) fs vs" by auto
  with v set show ?case by (intro exI [of _ "(n, v) # vs"]) (simp add: x)
qed simp

lemma decode_outpc_total:
  "list_all (\<lambda>(n, f). bits_ok f) fs \<Longrightarrow> dict_ok fs \<Longrightarrow>
     \<exists>d. decode_outpc data fs = Inr d \<and> list_all2 (\<lambda>(n, f) (m, v). m = n \<and> value_ok f v) fs d"
  using decode_outpc_acc [of fs "[]" data] by (simp add: decode_outpc_def)

text \<open>
  C18: a turn of the dashboard on an idle simulator's port, while the clock stays within the
  timeout, shows the block the simulator's builder built: the rows of its channels, its size, and
  the status that says whether this is the size of the INI file.
\<close>

theorem dash_poll_end_to_end:
  assumes "buffer (ecu (link l)) = []" and "inbound (link l) = []"
    and "fetch_outpc (protocol (ecu (link l))) (world (ecu (link l))) = (Inr outpc, w')"
    and "length outpc < 65535" and "prompt timeout (ticks l)"
    and "decode_outpc outpc fs = Inr d"
  shows "dash_poll port_read port_write fs n timeout l =
    Some (\<lparr>rows = dash_rows d fs, payload_size = length outpc,
        status = if int (length outpc) = n then StatusOk else SizeMismatch (length outpc) n\<rparr>,
      l\<lparr>link := (link l)\<lparr>ecu := (ecu (link l))\<lparr>world := w'\<rparr>\<rparr>, ticks := sdrop 6 (ticks l)\<rparr>)"
proof -
  let ?p = "link l"
  let ?resp = "0x01 # outpc"
  have "handle_request (protocol (ecu ?p)) (world (ecu ?p)) [0x41] = (Some (Inr (frame ?resp)), protocol (ecu ?p), w')"
    using assms(3,4)
    by (simp add: handle_request_hd Let_def handle_realtime_query_def build_response_eq FLAG_REALTIME_def)
  then have one: "process_requests (add_data (frame [0x41]) (ecu ?p)) =
      ([frame ?resp], None, (ecu ?p)\<lparr>world := w'\<rparr>)"
    using process_one [of "[0x41]" "add_data (frame [0x41]) (ecu ?p)" "frame ?resp" "protocol (ecu ?p)" w'] assms(1)
    by (simp add: add_data_def payload_ok_def)
  have w: "port_write (frame [0x41]) ?p = ?p\<lparr>ecu := (ecu ?p)\<lparr>world := w'\<rparr>, inbound := frame ?resp\<rparr>"
    using assms(2) by (simp add: port_write_def one)
  let ?w = "port_write (frame [0x41]) ?p"
  have "send_command port_read port_write [0x41] timeout l = Some (Inr ?resp,
      l\<lparr>link := snd (port_read 4 (snd (port_read (length ?resp) (snd (port_read 2 ?w))))), ticks := sdrop 6 (ticks l)\<rparr>)"
    using assms(4,5) by (intro port_source.send_command_frame [where rest = "[]"]) (simp_all add: w)
  moreover have "snd (port_read 4 (snd (port_read (length ?resp) (snd (port_read 2 ?w))))) =
      ?p\<lparr>ecu := (ecu ?p)\<lparr>world := w'\<rparr>\<rparr>"
    using assms(2) unfolding w by (simp add: port_read_def frame_def del: be_bytes.simps)
  ultimately show ?thesis
    using assms(6) by (simp add: dash_poll_def encode_def dash_show_def Let_def)
qed

text \<open>A dashboard of one channel, on the simulator that has no builder, whose block is zero.\<close>

definition rpm_field :: dash_field where
  "rpm_field = \<lparr>df_name = ''rpm'', df_type = ''scalar'', df_data = ''U16'', df_offset = 6, df_units = ''RPM'',
     df_scale = Fin 1, df_translate = Fin 0, df_bits = None\<rparr>"

definition idle_link :: "unit ecu_port dash_link" where
  "idle_link = \<lparr>link = idle_port, ticks = sconst (Fin 5)\<rparr>"

lemma rnd_zero: "rnd 0 = Fin 0"
  using representable_int [of 0] by (simp add: representable_def)

lemma decode_rpm_zero: "decode_outpc (zeros 209) [(''rpm'', rpm_field)] = Inr [(''rpm'', VFloat (Fin 0))]"
proof -
  have "slice (zeros 209) 6 8 = [0, 0]" by (simp add: slice_def zeros_def numeral_2_eq_2)
  then have u: "unpack_from (LittleEndian, FmtH) (zeros 209) 6 = Inr 0"
    by (simp add: unpack_from_def resolve_offset_def struct_unpack_def fmt_value_def order_bytes_def)
  have "py_float 0 = Inr (Fin 0)" using py_float_small [of 0] by simp
  then show ?thesis
    by (simp add: rnd_zero decode_outpc_def decode_field_def rpm_field_def dash_size_def dash_format_def u)
qed

theorem dash_poll_end_to_end_witness:
  "dash_poll port_read port_write [(''rpm'', rpm_field)] 210 (Fin (1/2)) idle_link =
    Some (\<lparr>rows = [(''RPM'', ''{:6.0f}'', VFloat (Fin 0), ''RPM'')], payload_size = 209, status = SizeMismatch 209 210\<rparr>, idle_link)"
proof -
  have sd: "sdrop n (sconst a) = sconst a" for n and a :: pyfloat
    by (induction n) simp_all
  have rw: "dash_rows [(''rpm'', VFloat (Fin 0))] [(''rpm'', rpm_field)] = [(''RPM'', ''{:6.0f}'', VFloat (Fin 0), ''RPM'')]"
    by (simp add: dash_rows_def dash_row_def DASHBOARD_FIELDS_def rpm_field_def)
  have p: "prompt (Fin (1/2)) (sconst (Fin 5))"
    by (simp add: prompt_def py_sub_def rnd_zero)
  show ?thesis
    using dash_poll_end_to_end [of idle_link "zeros 209" "()" "Fin (1/2)" "[(''rpm'', rpm_field)]"
        "[(''rpm'', VFloat (Fin 0))]" 210] p decode_rpm_zero
    by (simp add: idle_link_def idle_port_def RequestBuffer_def SerialProtocol_def ProtocolConfig_def fetch_outpc_def rw sd)
qed

section \<open>A turn ends\<close>

lemma read_until_expires:
  "py_lt timeout (py_sub (ticks l !! i) t0) \<Longrightarrow>
     \<exists>r l' j. read_until rd n t0 timeout buf l = Some (r, l') \<and> ticks l' = sdrop j (ticks l) \<and>
       (\<forall>e. r = Inl e \<longrightarrow> e = TimeoutError)"
proof (induction i arbitrary: buf l)
  case 0
  show ?case
  proof (cases "length buf < n")
    case True
    with 0 show ?thesis by (auto simp: read_until_more intro!: exI [of _ 1])
  qed (auto simp: read_until_enough intro!: exI [of _ 0])
next
  case (Suc i)
  show ?case
  proof (cases "length buf < n \<and> \<not> py_lt timeout (py_sub (shd (ticks l)) t0)")
    case True
    let ?x = "rd (n - length buf) (link l)"
    have "py_lt timeout (py_sub (ticks (l\<lparr>ticks := stl (ticks l), link := snd ?x\<rparr>) !! i) t0)" using Suc.prems by simp
    from Suc.IH [OF this, of "buf @ fst ?x"] obtain r l' j where
      "read_until rd n t0 timeout (buf @ fst ?x) (l\<lparr>ticks := stl (ticks l), link := snd ?x\<rparr>) = Some (r, l')"
      "ticks l' = sdrop (Suc j) (ticks l)" "\<forall>e. r = Inl e \<longrightarrow> e = TimeoutError" by auto
    with True show ?thesis by (intro exI [of _ r] exI [of _ l'] exI [of _ "Suc j"]) (simp add: read_until_more)
  next
    case False
    then show ?thesis
    proof (cases "length buf < n")
      case True
      with False show ?thesis by (auto simp: read_until_more intro!: exI [of _ 1])
    qed (auto simp: read_until_enough intro!: exI [of _ 0])
  qed
qed

text \<open>A clock that always shows a number and passes every bound.\<close>

definition advancing :: "pyfloat stream \<Rightarrow> bool" where
  "advancing c \<longleftrightarrow> (\<forall>i. \<exists>x. c !! i = Fin x) \<and> (\<forall>b k. \<exists>i\<ge>k. \<exists>x. c !! i = Fin x \<and> b \<le> x)"

lemma advancing_sdrop: "advancing c \<Longrightarrow> advancing (sdrop j c)"
proof (unfold advancing_def sdrop_snth, intro conjI allI)
  assume a: "(\<forall>i. \<exists>x. c !! i = Fin x) \<and> (\<forall>b k. \<exists>i\<ge>k. \<exists>x. c !! i = Fin x \<and> b \<le> x)"
  then show "\<exists>x. c !! (j + i) = Fin x" for i by blast
  fix b k
  from a obtain i x where "j + k \<le> i" "c !! i = Fin x" "b \<le> x" by blast
  then show "\<exists>i\<ge>k. \<exists>x. c !! (j + i) = Fin x \<and> b \<le> x"
    by (intro exI [of _ "i - j"]) simp
qed

lemma advancing_expires:
  assumes "advancing c" and "T \<le> 2 ^ 100"
  shows "\<exists>i. py_lt (Fin T) (py_sub (stl c !! i) (shd c))"
proof -
  obtain t0 where t0: "shd c = Fin t0" using assms(1) unfolding advancing_def by (metis snth.simps(1))
  from assms(1) obtain i x where i: "1 \<le> i" "c !! i = Fin x" "2 ^ 101 + t0 \<le> x" unfolding advancing_def by blast
  then obtain k where k: "i = Suc k" by (cases i) auto
  have "rnd_fin (2 ^ 101) = 2 ^ 101" using representable_dyadic [of 1 101] by (simp add: representable_iff)
  with rnd_fin_mono [of "2 ^ 101" "x - t0"] i(3) have "2 ^ 101 \<le> rnd_fin (x - t0)" by simp
  then have "py_lt (Fin T) (rnd (x - t0))" using assms(2) by (auto simp: rnd_def clip_def)
  then show ?thesis using i(2) t0 k by (intro exI [of _ k]) (simp add: py_sub_def)
qed

lemma read_exact_returns:
  assumes "advancing (ticks l)" and "T \<le> 2 ^ 100"
  shows "\<exists>r l'. DashIni.read_exact rd n (Fin T) l = Some (r, l') \<and> advancing (ticks l') \<and>
    (\<forall>e. r = Inl e \<longrightarrow> e = TimeoutError)"
proof -
  obtain i where "py_lt (Fin T) (py_sub (stl (ticks l) !! i) (shd (ticks l)))"
    using advancing_expires [OF assms] by blast
  then have "py_lt (Fin T) (py_sub (ticks (l\<lparr>ticks := stl (ticks l)\<rparr>) !! i) (shd (ticks l)))" by simp
  from read_until_expires [OF this, of rd n "[]"] obtain r l' j where
    "DashIni.read_exact rd n (Fin T) l = Some (r, l')" "ticks l' = sdrop j (stl (ticks l))"
    "\<forall>e. r = Inl e \<longrightarrow> e = TimeoutError" by (auto simp: DashIni.read_exact_def)
  moreover have "advancing (sdrop j (stl (ticks l)))" using advancing_sdrop [OF assms(1), of "Suc j"] by simp
  ultimately show ?thesis by auto
qed

text \<open>A read followed by something that returns, returns.\<close>

lemma after_returns:
  assumes "advancing (ticks l)" and "T \<le> 2 ^ 100"
    and "\<And>x l'. advancing (ticks l') \<Longrightarrow> \<exists>r l''. f x l' = Some (r, l'') \<and> advancing (ticks l'') \<and>
      (\<forall>e. r = Inl e \<longrightarrow> e \<in> {TimeoutError, ValueError})"
  shows "\<exists>r l''. after (DashIni.read_exact rd n (Fin T) l) f = Some (r, l'') \<and> advancing (ticks l'') \<and>
    (\<forall>e. r = Inl e \<longrightarrow> e \<in> {TimeoutError, ValueError})"
proof -
  obtain r l' where r: "DashIni.read_exact rd n (Fin T) l = Some (r, l')" "advancing (ticks l')"
    "\<forall>e. r = Inl e \<longrightarrow> e = TimeoutError"
    using read_exact_returns [OF assms(1,2)] by blast
  then show ?thesis using assms(3) [OF r(2)] by (cases r) simp_all
qed

lemma send_command_returns:
  assumes "advancing (ticks l)" and "T \<le> 2 ^ 100" and "length req \<le> 65535"
  shows "\<exists>r l'. send_command rd wr req (Fin T) l = Some (r, l') \<and> advancing (ticks l') \<and>
    (\<forall>e. r = Inl e \<longrightarrow> e \<in> {TimeoutError, ValueError})"
proof -
  have pkt: "bindE (struct_pack (BigEndian, FmtH) (int (length req))) (\<lambda>size.
      bindE (struct_pack (BigEndian, FmtI) (uint (crc32 req))) (\<lambda>crc. Inr (size @ req @ crc))) = Inr (frame req)"
    using build_request_eq [of req] assms(3) by (simp add: build_request_def crc32_ms_def)
  show ?thesis
    unfolding send_command_def pkt sum.case
    by (intro after_returns) (use assms in auto)
qed

text \<open>
  Every turn of the dashboard's loop ends and draws a screen: with any timeout up to
  \<open>2 ^ 100\<close> seconds, while the clock passes every bound, and whatever the port returns to its reads
  (silence, noise, a frame cut short or damaged), the turn returns, its screen shows the response
  or an error, and the only errors are a timeout and a \<open>ValueError\<close>, of the checksum or of a bit
  field.
\<close>

lemma dash_poll_returns:
  assumes "advancing (ticks l)" and "T \<le> 2 ^ 100"
  shows "\<exists>scr l'. dash_poll rd wr fs n (Fin T) l = Some (scr, l') \<and> advancing (ticks l') \<and>
    (scr \<in> {error_screen Timeout, error_screen (Failed ValueError)} \<or>
     (\<exists>resp. dash_show fs n resp = Inr scr))"
proof -
  have "length (encode ''A'') \<le> 65535" by simp
  from send_command_returns [OF assms this, of rd wr] obtain r l' where
    r: "send_command rd wr (encode ''A'') (Fin T) l = Some (r, l')" "advancing (ticks l')"
      "\<forall>e. r = Inl e \<longrightarrow> e \<in> {TimeoutError, ValueError}"
    by blast
  have err: "dash_show fs n resp = Inl e \<Longrightarrow> e = ValueError" for resp e
  proof -
    assume "dash_show fs n resp = Inl e"
    then have "decode_outpc (drop 1 resp) fs = Inl e" by (auto simp: dash_show_def Let_def bindE_eq_Inl)
    then show ?thesis by (auto simp: decode_outpc_def bindE_eq_Inl decode_field_error dest!: foldE_error)
  qed
  show ?thesis
  proof (cases r)
    case (Inl e)
    with r show ?thesis by (auto simp: dash_poll_def)
  next
    case (Inr resp)
    with r(1,2) err show ?thesis by (cases "dash_show fs n resp") (auto simp: dash_poll_def)
  qed
qed

text \<open>A port that stays silent.\<close>

definition silent_link :: "unit dash_link" where
  "silent_link = \<lparr>link = (), ticks = smap (\<lambda>i. Fin (of_nat i)) nats\<rparr>"

lemma silent_advancing: "advancing (ticks silent_link)"
proof -
  have "\<exists>i\<ge>k. b \<le> (of_nat i :: rat)" for b k
  proof -
    obtain i :: nat where "b \<le> of_nat i" using real_arch_simple [of b] by blast
    moreover have "(of_nat i :: rat) \<le> of_nat (max i k)" by simp
    ultimately have "b \<le> of_nat (max i k)" by (rule order_trans)
    then show ?thesis by (intro exI [of _ "max i k"]) simp
  qed
  then show ?thesis by (simp add: advancing_def silent_link_def)
qed

section \<open>The decoded block\<close>

text \<open>
  C16: a block of any bytes and any length decodes: for channels whose bit ranges are not reversed
  the decoder raises nothing, gives each channel of the INI file a value, in the file's order, and
  the value of a bit field of \<open>w\<close> bits lies below \<open>2 ^ w\<close>.
\<close>

theorem dash_decodes_any_block:
  assumes "dict_ok fs" and "list_all (\<lambda>(n, f). bits_ok f) fs"
  shows "\<exists>d. decode_outpc data fs = Inr d \<and> dict_keys d = dict_keys fs \<and>
    (\<forall>n v f. dict_get d n = Some v \<longrightarrow> dict_get fs n = Some f \<longrightarrow> value_ok f v)"
proof -
  obtain d where d: "decode_outpc data fs = Inr d" "list_all2 (\<lambda>(n, f) (m, v). m = n \<and> value_ok f v) fs d"
    using decode_outpc_total [OF assms(2,1)] by blast
  from d(2) have "dict_keys d = dict_keys fs" "\<forall>n v f. dict_get d n = Some v \<longrightarrow> dict_get fs n = Some f \<longrightarrow> value_ok f v"
    by (induction rule: list_all2_induct) (auto split: if_splits)
  with d(1) show ?thesis by blast
qed

definition ready_field :: dash_field where
  "ready_field = \<lparr>df_name = ''ready'', df_type = ''bits'', df_data = ''U08'', df_offset = 0, df_units = [],
     df_scale = Fin 1, df_translate = Fin 0, df_bits = Some (0, 2)\<rparr>"

theorem dash_decodes_any_block_witness:
  "\<exists>d. decode_outpc [0xFF] [(''ready'', ready_field)] = Inr d \<and> dict_keys d = [''ready'']"
  using dash_decodes_any_block [of "[(''ready'', ready_field)]" "[0xFF]"]
  by (auto simp: ready_field_def bits_ok_def)

section \<open>The order of bytes\<close>

text \<open>A value read in the other order.\<close>

definition byte_swap :: "fmt_code \<Rightarrow> int \<Rightarrow> int" where
  "byte_swap c v = fmt_value (LittleEndian, c) (be_bytes (calcsize c) (nat (v mod 256 ^ calcsize c)))"

lemma byte_swap_U08: "0 \<le> v \<Longrightarrow> v < 256 \<Longrightarrow> byte_swap FmtB v = v"
  by (simp add: byte_swap_def fmt_value_def order_bytes_def be_nat_def uint_word_of_int)

lemma byte_swap_U16:
  assumes "0 \<le> v" and "v < 65536"
  shows "byte_swap FmtH v = 256 * (v mod 256) + v div 256"
proof -
  obtain k where k: "v = int k" using assms(1) nonneg_int_cases by blast
  have "byte_swap FmtH v = int (k mod 256 * 256 + k div 256)"
    using assms(2) unfolding byte_swap_def k
    by (simp add: fmt_value_def order_bytes_def numeral_2_eq_2 unat_of_nat nat_mod_as_int)
  then show ?thesis by (simp add: k zmod_int zdiv_int)
qed

lemma fmt_value_bytes:
  assumes "length bs = calcsize c"
  shows "be_bytes (calcsize c) (nat (fmt_value (BigEndian, c) bs mod 256 ^ calcsize c)) = bs"
proof -
  let ?m = "256 ^ calcsize c :: int"
  have b: "int (be_nat bs) < ?m" using be_nat_bound [of bs] assms by (metis of_nat_less_iff of_nat_numeral of_nat_power)
  have "fmt_value (BigEndian, c) bs mod ?m = int (be_nat bs)"
    using b by (simp add: fmt_value_def order_bytes_def Let_def mod_diff_right_eq)
  then show ?thesis using be_bytes_be_nat [of bs] assms by simp
qed

lemma unpack_other_order:
  "unpack_from (BigEndian, c) b off = Inr v \<Longrightarrow> unpack_from (LittleEndian, c) b off = Inr (byte_swap c v)"
  by (auto simp: unpack_from_def struct_unpack_def byte_swap_def fmt_value_bytes split: option.splits if_splits)

lemma clamp_U: "dt = ''U08'' \<Longrightarrow> 0 \<le> clamp dt k \<and> clamp dt k < 256" "dt = ''U16'' \<Longrightarrow> 0 \<le> clamp dt k \<and> clamp dt k < 65536"
  by (auto simp: clamp_def type_range_def)

text \<open>
  C36: the dashboard reads the simulator's channels with their bytes swapped. Where the simulator
  packs the value \<open>k\<close> of a channel, clamped to its type, the dashboard, whose INI file gives the
  channel the same type and offset, decodes the number with the bytes of \<open>k\<close> in reverse order: the
  same number for one byte, another one for two bytes that differ.
\<close>

theorem dash_swaps_bytes:
  assumes "\<not> debug_values (builder w)" and "build w = (Inr b, w')"
    and "get_field_values (shd (clock w)) (engine (scenario w)) = Inr vals" and "map_of (rev vals) n = Some v"
    and "dict_get (output_channels (builder_config (builder w))) n = Some f"
    and "placed (nat (ini_block_size (builder_config (builder w)))) f"
    and "\<And>m g. m \<noteq> n \<Longrightarrow> m \<in> fst ` set vals \<Longrightarrow>
      dict_get (output_channels (builder_config (builder w))) m = Some g \<Longrightarrow> apart f g"
    and "raw_value f v = Inr r" and "py_int r = Inr k"
    and "df_offset g = foffset f" and "df_data g = dtype f" and "df_type g = ''scalar''"
  shows "\<exists>x. decode_field b g = Inr (VFloat (py_mul (py_add (Fin (of_int x)) (df_translate g)) (df_scale g))) \<and>
    x = byte_swap (fmt_of (dtype f)) (clamp (dtype f) k) \<and>
    (dtype f = ''U08'' \<longrightarrow> x = clamp (dtype f) k) \<and>
    (dtype f = ''U16'' \<longrightarrow> x = 256 * (clamp (dtype f) k mod 256) + clamp (dtype f) k div 256)"
proof -
  let ?x = "byte_swap (fmt_of (dtype f)) (clamp (dtype f) k)"
  have enc: "encode_all (builder_config (builder w)) vals (zeros (nat (ini_block_size (builder_config (builder w))))) = Inr b"
    using assms(1-3) by (auto simp: build_def Let_def split: if_splits)
  have "\<exists>r k. raw_value f v = Inr r \<and> py_int r = Inr k \<and> channel_value f b = Inr (clamp (dtype f) k)"
    by (rule encode_all_value [OF enc assms(4,5)]) (use assms(6,7) in auto)
  then have "unpack_from (BigEndian, fmt_of (dtype f)) b (foffset f) = Inr (clamp (dtype f) k)"
    using assms(8,9) by (auto simp: struct_format_def)
  then have "unpack_from (dash_format g) b (df_offset g) = Inr ?x"
    using assms(10,11) unpack_other_order
    by (simp add: dash_format_def fmt_of_def Let_def split: if_splits)
  moreover have "df_offset g + int (dash_size g) \<le> int (length b)"
    using assms(6,10,11) encode_all_length [OF enc] by (simp add: placed_def dash_size_def base_size_def Let_def)
  ultimately have "decode_field b g =
      Inr (VFloat (py_mul (py_add (Fin (of_int ?x)) (df_translate g)) (df_scale g)))"
    using assms(12) by (simp add: decode_field_def raw_float)
  moreover have "dtype f = ''U08'' \<Longrightarrow> ?x = clamp (dtype f) k"
    "dtype f = ''U16'' \<Longrightarrow> ?x = 256 * (clamp (dtype f) k mod 256) + clamp (dtype f) k div 256"
    using clamp_U [of "dtype f" k] by (simp_all add: fmt_of_def byte_swap_U08 byte_swap_U16)
  ultimately show ?thesis by blast
qed

text \<open>The engine idles at 850 revolutions, 0x0352; the dashboard shows 0x5203.\<close>

theorem dash_swaps_bytes_witness:
  "\<exists>b. fst (build sample_world) = Inr b \<and> decode_field b rpm_field = Inr (VFloat (Fin 20995))"
proof -
  obtain b where b: "build sample_world = (Inr b, sample_world\<lparr>clock := stl (clock sample_world)\<rparr>)"
    using build_total_aux [OF sample_world_ok] by blast
  obtain vals where v: "get_field_values (Fin 1) (EngineState (Fin 0)) = Inr vals"
    using get_field_values_moderate [OF sample_engine_moderate, of "Fin 1"] by (auto simp: EngineState_def)
  let ?f = "FieldDef ''rpm'' ''scalar'' ''U16'' 6"
  have rep: "rnd 850 = Fin 850" "rnd 20995 = Fin 20995"
    using representable_int [of 850] representable_int [of 20995] by (simp_all add: representable_def)
  have cfg: "builder_config (builder sample_world) = sample_config"
    by (simp add: sample_world_def OUTPCBuilder_def)
  have raw: "raw_value ?f (Fin 850) = Inr (Fin 850)"
    by (simp add: raw_value_def FieldDef_def py_sub_def rep)
  have "\<exists>x. decode_field b rpm_field = Inr (VFloat (py_mul (py_add (Fin (of_int x)) (df_translate rpm_field)) (df_scale rpm_field))) \<and>
      x = byte_swap (fmt_of (dtype ?f)) (clamp (dtype ?f) 850) \<and>
      (dtype ?f = ''U08'' \<longrightarrow> x = clamp (dtype ?f) 850) \<and>
      (dtype ?f = ''U16'' \<longrightarrow> x = 256 * (clamp (dtype ?f) 850 mod 256) + clamp (dtype ?f) 850 div 256)"
  proof (rule dash_swaps_bytes [OF sample_world_ok(1) b _ sample_rpm [OF v] _ _ _ raw])
    show "get_field_values (shd (clock sample_world)) (engine (scenario sample_world)) = Inr vals"
      using v by (simp add: sample_world_def ScenarioRunner_def)
  qed (auto simp: cfg sample_config_def placed_def FieldDef_def fsize_def base_size_def INIConfig_def rpm_field_def
      PyFloat.truncate_def split: if_splits)
  then show ?thesis
    using b rep by (auto simp: FieldDef_def clamp_def type_range_def rpm_field_def)
qed

end
