(* ===== verification/CaptureLoop.thy ===== *)
theory CaptureLoop
  imports Simulator Replay DashSpec
begin

text \<open>
  \<open>capture_outpc\<close> of \<open>testingTools/capture_ecu_outpc.py\<close> as a whole: the signature, the header, the
  polls paced by the clock, the summary; and what comes of a capture of the simulator when it is
  replayed.
\<close>

section \<open>The polling loop\<close>

text \<open>The port, what \<open>time.time()\<close> will return, the time of the next poll, the file and its counters.\<close>

record 's capturing =
  cp_port :: 's
  cp_ticks :: "pyfloat stream"
  cp_next :: pyfloat
  cp_file :: capture_state

text \<open>What is done with a response received at the time \<open>now\<close>.\<close>

definition capture_response :: "pyfloat \<Rightarrow> pyfloat \<Rightarrow> (byte \<times> bytes) option \<Rightarrow> capture_state \<Rightarrow> capture_state result" where
  "capture_response start now resp st =
     (case resp of
        Some (flag, data) \<Rightarrow>
          if flag = 0x01 then
            bindE (py_int (py_mul (py_sub now start) (Fin 1000000))) (\<lambda>ts. capture_poll ts resp st)
          else capture_poll 0 resp st
      | None \<Rightarrow> capture_poll 0 resp st)"

text \<open>\<open>None\<close> is a loop that never ends, which a clock that stands still would give.\<close>

partial_function (option) capture_loop ::
  "(nat \<Rightarrow> 's \<Rightarrow> bytes \<times> 's) \<Rightarrow> (bytes \<Rightarrow> 's \<Rightarrow> 's) \<Rightarrow> pyfloat \<Rightarrow> pyfloat \<Rightarrow> pyfloat \<Rightarrow> 's capturing \<Rightarrow>
     (unit result \<times> 's capturing) option" where
  "capture_loop rd wr start duration interval c =
     (if \<not> py_lt (py_sub (shd (cp_ticks c)) start) duration then Some (Inr (), c\<lparr>cp_ticks := stl (cp_ticks c)\<rparr>)
      else let now = shd (stl (cp_ticks c)); c1 = c\<lparr>cp_ticks := stl (stl (cp_ticks c))\<rparr> in
        if py_lt now (cp_next c) then
          (case py_sleep (py_min (lit (1/1000)) (py_sub (cp_next c) now)) of
             Inl e \<Rightarrow> Some (Inl e, c1)
           | Inr u \<Rightarrow> capture_loop rd wr start duration interval c1)
        else
          let n1 = py_add (cp_next c) interval;
              n2 = (if py_lt n1 now then py_add now interval else n1);
              (resp, s) = query_outpc rd wr (cp_port c);
              c2 = c1\<lparr>cp_next := n2, cp_port := s\<rparr>
          in (case bindE resp (\<lambda>r. capture_response start now r (cp_file c)) of
                Inl e \<Rightarrow> Some (Inl e, c2)
              | Inr f \<Rightarrow> capture_loop rd wr start duration interval (c2\<lparr>cp_file := f\<rparr>)))"

section \<open>A capture\<close>

text \<open>
  The value returned or the exception raised, and the contents of the output file where it was
  opened. \<open>opened\<close> is the port, \<open>None\<close> where opening it raises \<open>SerialException\<close>.
\<close>

definition capture_outpc ::
  "(nat \<Rightarrow> 's \<Rightarrow> bytes \<times> 's) \<Rightarrow> (bytes \<Rightarrow> 's \<Rightarrow> 's) \<Rightarrow> 's option \<Rightarrow> pyfloat stream \<Rightarrow> pyfloat \<Rightarrow> pyfloat \<Rightarrow>
     (bool result \<times> bytes option) option" where
  "capture_outpc rd wr opened clk duration poll_hz =
     (case opened of
        None \<Rightarrow> Some (Inr False, None)
      | Some s \<Rightarrow>
          (case query_signature rd wr s of
             (Inl e, s1) \<Rightarrow> Some (Inl e, None)
           | (Inr reply, s1) \<Rightarrow>
               (case reply of
                  None \<Rightarrow> Some (Inr False, None)
                | Some sig \<Rightarrow>
                    if sig = [] then Some (Inr False, None)
                    else (case capture_header sig of
                        Inl e \<Rightarrow> Some (Inl e, Some (encode ''MS2CAP02''))
                      | Inr h \<Rightarrow>
                          let start = shd clk in
                          (case py_div (Fin 1) poll_hz of
                             Inl e \<Rightarrow> Some (Inl e, Some h)
                           | Inr interval \<Rightarrow>
                               (case capture_loop rd wr start duration interval
                                   \<lparr>cp_port = s1, cp_ticks = stl clk, cp_next = start,
                                    cp_file = \<lparr>written = h, frame_count = 0, error_count = 0\<rparr>\<rparr> of
                                  None \<Rightarrow> None
                                | Some (Inl e, c) \<Rightarrow> Some (Inl e, Some (written (cp_file c)))
                                | Some (Inr u, c) \<Rightarrow>
                                    let actual_duration = py_sub (shd (cp_ticks c)) start
                                    in Some (bindE (py_float (int (frame_count (cp_file c)))) (\<lambda>n.
                                         bindE (py_div n actual_duration) (\<lambda>rate. Inr True)),
                                       Some (written (cp_file c)))))))))"

text \<open>The program's exit status: \<open>sys.exit(0 if success else 1)\<close>, or the 1 of an uncaught exception.\<close>

definition capture_exit :: "bool result \<Rightarrow> int" where
  "capture_exit r = (case r of Inr True \<Rightarrow> 0 | _ \<Rightarrow> 1)"

section \<open>The loop ends\<close>

text \<open>A clock that always shows a number and passes every bound for good.\<close>

definition passing :: "pyfloat stream \<Rightarrow> bool" where
  "passing c \<longleftrightarrow> (\<forall>i. \<exists>x. c !! i = Fin x) \<and> (\<forall>b. \<exists>k. \<forall>i\<ge>k. \<exists>x. c !! i = Fin x \<and> b \<le> x)"

text \<open>The sleeps are short.\<close>

lemma sleep_between_polls:
  assumes "py_lt now next_poll" and "\<exists>x. now = Fin x"
  shows "py_sleep (py_min (lit (1/1000)) (py_sub next_poll now)) = Inr ()"
proof (rule py_sleep_short)
  obtain t where t: "now = Fin t" using assms(2) by blast
  have l: "inside 0 1 (lit (1/1000))" by (rule inside_rnd) (simp_all add: representable_simps)
  show "inside 0 1 (py_min (lit (1/1000)) (py_sub next_poll now))"
  proof (cases "next_poll")
    case (Fin n)
    with assms(1) t have "0 \<le> n - t" by simp
    with rnd_fin_mono [of 0 "n - t"] have "0 \<le> rnd_fin (n - t)" by (simp add: rnd_fin_def)
    then have "rnd (n - t) = PInf \<or> (\<exists>d\<ge>0. rnd (n - t) = Fin d)" by (auto simp: rnd_def clip_def)
    with l Fin t show ?thesis by (auto simp: py_sub_def py_min_def inside_def)
  qed (use assms(1) l t in \<open>auto simp: py_sub_def py_min_def inside_def\<close>)
qed

lemma capture_loop_returns:
  assumes "\<forall>i\<ge>k. \<not> py_lt (py_sub (cp_ticks c !! i) start) duration" and "\<forall>i. \<exists>x. cp_ticks c !! i = Fin x"
  shows "\<exists>r c'. capture_loop rd wr start duration interval c = Some (r, c')"
  using assms
proof (induction k arbitrary: c rule: less_induct)
  case (less k)
  let ?c1 = "c\<lparr>cp_ticks := stl (stl (cp_ticks c))\<rparr>"
  show ?case
  proof (cases "py_lt (py_sub (shd (cp_ticks c)) start) duration")
    case True
    with less.prems(1) have k: "0 < k" by (cases k) (auto dest: spec [of _ 0])
    have rest: "\<exists>r c''. capture_loop rd wr start duration interval c' = Some (r, c'')"
      if "cp_ticks c' = stl (stl (cp_ticks c))" for c'
    proof (rule less.IH [of "k - 1"])
      show "\<forall>i\<ge>k - 1. \<not> py_lt (py_sub (cp_ticks c' !! i) start) duration"
      proof (intro allI impI)
        fix i assume "k - 1 \<le> i"
        then have "k \<le> Suc (Suc i)" by simp
        with less.prems(1) have "\<not> py_lt (py_sub (cp_ticks c !! Suc (Suc i)) start) duration" by blast
        then show "\<not> py_lt (py_sub (cp_ticks c' !! i) start) duration" by (simp add: that)
      qed
      show "\<forall>i. \<exists>x. cp_ticks c' !! i = Fin x"
        using less.prems(2) by (metis that snth.simps(2))
    qed (use k in simp)
    have now: "\<exists>x. shd (stl (cp_ticks c)) = Fin x" using less.prems(2) by (metis snth.simps)
    show ?thesis
    proof (cases "py_lt (shd (stl (cp_ticks c))) (cp_next c)")
      case True
      with \<open>py_lt (py_sub (shd (cp_ticks c)) start) duration\<close> sleep_between_polls [OF True now] rest [of ?c1]
      show ?thesis by (subst capture_loop.simps) simp
    next
      case False
      obtain resp s where q: "query_outpc rd wr (cp_port c) = (resp, s)" by (cases "query_outpc rd wr (cp_port c)")
      show ?thesis
        using \<open>py_lt (py_sub (shd (cp_ticks c)) start) duration\<close> False rest
        by (subst capture_loop.simps) (auto simp: q Let_def split: sum.split)
    qed
  qed (subst capture_loop.simps, simp)
qed

lemma passing_expires:
  assumes "passing c" and "start = Fin t0" and "T \<le> 2 ^ 100"
  shows "\<exists>k. \<forall>i\<ge>k. \<not> py_lt (py_sub (c !! i) start) (Fin T)"
proof -
  from assms(1) obtain k where k: "\<forall>i\<ge>k. \<exists>x. c !! i = Fin x \<and> 2 ^ 101 + t0 \<le> x" unfolding passing_def by blast
  have "\<not> py_lt (py_sub (c !! i) start) (Fin T)" if "k \<le> i" for i
  proof -
    from k that obtain x where x: "c !! i = Fin x" "2 ^ 101 + t0 \<le> x" by blast
    have "rnd_fin (2 ^ 101) = 2 ^ 101" using representable_dyadic [of 1 101] by (simp add: representable_iff)
    with rnd_fin_mono [of "2 ^ 101" "x - t0"] x(2) have "2 ^ 101 \<le> rnd_fin (x - t0)" by simp
    then have "\<not> py_lt (rnd (x - t0)) (Fin T)" using assms(3) by (auto simp: rnd_def clip_def)
    then show ?thesis by (simp add: x(1) assms(2) py_sub_def)
  qed
  then show ?thesis by blast
qed

section \<open>Capturing the simulator\<close>

text \<open>The blocks the builder builds one after the other.\<close>

primrec built :: "nat \<Rightarrow> ecu_world \<Rightarrow> bytes list" where
  "built 0 w = []"
| "built (Suc n) w = (case build w of (Inr b, w') \<Rightarrow> b # built n w' | (Inl e, w') \<Rightarrow> [])"

text \<open>A simulator that serves, at the end of a port with nothing under way.\<close>

definition idle_simulator :: "ecu_world ecu_port \<Rightarrow> bool" where
  "idle_simulator p \<longleftrightarrow> conn_ok (ecu p) \<and> buffer (ecu p) = [] \<and> inbound p = []"

lemma query_idle:
  assumes "idle_simulator p"
  shows "\<exists>b w' p'. query_outpc port_read port_write p = (Inr (Some (0x01, b)), p') \<and> length b < 65535 \<and>
    idle_simulator p' \<and> build (world (ecu p)) = (Inr b, w') \<and> world (ecu p') = w'"
proof -
  let ?w = "world (ecu p)"
  have c: "conn_ok (ecu p)" using assms by (simp add: idle_simulator_def)
  then obtain b where b: "build ?w = (Inr b, ?w\<lparr>clock := stl (clock ?w)\<rparr>)" "length b < 65535"
    "world_ok (?w\<lparr>clock := stl (clock ?w)\<rparr>)"
    using build_world_ok [of ?w] by (auto simp: conn_ok_def)
  let ?w' = "?w\<lparr>clock := stl (clock ?w)\<rparr>"
  have f: "fetch_outpc (protocol (ecu p)) ?w = (Inr b, ?w')" using b(1) c by (simp add: fetch_outpc_def conn_ok_def)
  have "query_outpc port_read port_write p = (Inr (Some (0x01, b)), p\<lparr>ecu := (ecu p)\<lparr>world := ?w'\<rparr>\<rparr>)"
    by (rule query_outpc_port [OF _ _ f b(2)]) (use assms in \<open>simp_all add: idle_simulator_def\<close>)
  with assms b show ?thesis by (auto simp: idle_simulator_def conn_ok_def)
qed

lemma capture_response_frame:
  assumes "capture_response start now (Some (0x01, b)) st = Inr st'" and "length b < 65535"
  shows "\<exists>fr. outpc_data fr = b \<and> frame_ok fr \<and>
    st' = st\<lparr>written := written st @ frame_bytes fr, frame_count := frame_count st + 1\<rparr>"
proof -
  from assms(1) obtain ts where ts: "capture_poll ts (Some (0x01, b)) st = Inr st'"
    by (auto simp: capture_response_def bindE_eq_Inr)
  then have "in_fmt FmtQ ts"
    using struct_pack_Inr_iff [of "(LittleEndian, FmtQ)" ts] by (auto simp: capture_poll_def bindE_eq_Inr)
  then have r: "0 \<le> ts" "ts < 256 ^ 8" by (simp_all add: in_fmt_def fmt_lo_def fmt_hi_def)
  then have "capture_polls [(ts, Some (0x01, b))] st = Inr (st\<lparr>written := written st @ frame_bytes \<lparr>timestamp_us = nat ts, outpc_data = b\<rparr>,
      frame_count := frame_count st + 1, error_count := error_count st\<rparr>)"
    using assms(2) by (subst capture_polls_eq) (simp_all add: recorded_def del: capture_polls.simps)
  with ts have "st' = st\<lparr>written := written st @ frame_bytes \<lparr>timestamp_us = nat ts, outpc_data = b\<rparr>, frame_count := frame_count st + 1\<rparr>"
    by simp
  moreover have "frame_ok \<lparr>timestamp_us = nat ts, outpc_data = b\<rparr>"
    using r assms(2) by (simp add: frame_ok_def nat_less_iff)
  ultimately show ?thesis by (intro exI [of _ "\<lparr>timestamp_us = nat ts, outpc_data = b\<rparr>"]) simp
qed

text \<open>What a capture from the world \<open>w\<close> adds to the file.\<close>

definition captured :: "ecu_world \<Rightarrow> capture_state \<Rightarrow> capture_state \<Rightarrow> capture_frame list \<Rightarrow> bool" where
  "captured w st st' frs \<longleftrightarrow> list_all frame_ok frs \<and> map outpc_data frs = built (length frs) w \<and>
     written st' = written st @ concat (map frame_bytes frs) \<and>
     frame_count st' = frame_count st + length frs \<and> error_count st' = error_count st"

lemma captured_Nil: "captured w st st []"
  by (simp add: captured_def)

lemma captured_Cons:
  assumes "build w = (Inr b, w')" and "outpc_data fr = b" and "frame_ok fr"
    and "captured w' (st\<lparr>written := written st @ frame_bytes fr, frame_count := frame_count st + 1\<rparr>) st' frs"
  shows "captured w st st' (fr # frs)"
  using assms by (simp add: captured_def)

lemma capture_loop_records:
  assumes "capture_loop port_read port_write start duration interval c = Some (Inr (), c')" and "idle_simulator (cp_port c)"
  shows "\<exists>frs. captured (world (ecu (cp_port c))) (cp_file c) (cp_file c') frs"
proof -
  let ?Q = "\<lambda>(rd :: nat \<Rightarrow> ecu_world ecu_port \<Rightarrow> bytes \<times> ecu_world ecu_port)
    (wr :: bytes \<Rightarrow> ecu_world ecu_port \<Rightarrow> ecu_world ecu_port) (start :: pyfloat) (duration :: pyfloat) (interval :: pyfloat) c (y :: unit result \<times> ecu_world ecu_port capturing). rd = port_read \<longrightarrow> wr = port_write \<longrightarrow> idle_simulator (cp_port c) \<longrightarrow>
    fst y = Inr () \<longrightarrow> (\<exists>frs. captured (world (ecu (cp_port c))) (cp_file c) (cp_file (snd y)) frs)"
  have "?Q port_read port_write start duration interval c (Inr (), c')"
  proof (rule capture_loop.raw_induct [where P = ?Q, OF _ assms(1)], intro impI)
    fix loop and rd :: "nat \<Rightarrow> ecu_world ecu_port \<Rightarrow> bytes \<times> ecu_world ecu_port"
      and wr :: "bytes \<Rightarrow> ecu_world ecu_port \<Rightarrow> ecu_world ecu_port" and start duration interval :: pyfloat and c y
    assume ih: "\<And>rd wr start duration interval c y. loop rd wr start duration interval c = Some y \<Longrightarrow>
        ?Q rd wr start duration interval c y"
      and body: "(if \<not> py_lt (py_sub (shd (cp_ticks c)) start) duration then Some (Inr (), c\<lparr>cp_ticks := stl (cp_ticks c)\<rparr>)
      else let now = shd (stl (cp_ticks c)); c1 = c\<lparr>cp_ticks := stl (stl (cp_ticks c))\<rparr> in
        if py_lt now (cp_next c) then
          (case py_sleep (py_min (lit (1/1000)) (py_sub (cp_next c) now)) of
             Inl e \<Rightarrow> Some (Inl e, c1)
           | Inr u \<Rightarrow> loop rd wr start duration interval c1)
        else
          let n1 = py_add (cp_next c) interval;
              n2 = (if py_lt n1 now then py_add now interval else n1);
              (resp, s) = query_outpc rd wr (cp_port c);
              c2 = c1\<lparr>cp_next := n2, cp_port := s\<rparr>
          in (case bindE resp (\<lambda>r. capture_response start now r (cp_file c)) of
                Inl e \<Rightarrow> Some (Inl e, c2)
              | Inr f \<Rightarrow> loop rd wr start duration interval (c2\<lparr>cp_file := f\<rparr>))) = Some y"
      and rw: "rd = port_read" "wr = port_write" and idle: "idle_simulator (cp_port c)" and fin: "fst y = Inr ()"
    note ih = ih [THEN mp, THEN mp, OF _ refl refl]
    let ?now = "shd (stl (cp_ticks c))"
    let ?goal = "\<exists>frs. captured (world (ecu (cp_port c))) (cp_file c) (cp_file (snd y)) frs"
    show ?goal
    proof (cases "py_lt (py_sub (shd (cp_ticks c)) start) duration")
      case False
      with body have "cp_file (snd y) = cp_file c" by auto
      then show ?thesis using captured_Nil by metis
    next
      case True
      show ?thesis
      proof (cases "py_lt ?now (cp_next c)")
        case now: True
        with body True fin rw have "loop port_read port_write start duration interval (c\<lparr>cp_ticks := stl (stl (cp_ticks c))\<rparr>) = Some y"
          by (auto simp: Let_def split: sum.splits)
        from ih [OF this] idle fin show ?thesis by simp
      next
        case now: False
        obtain b w' p' where q: "query_outpc port_read port_write (cp_port c) = (Inr (Some (0x01, b)), p')" "length b < 65535"
          "idle_simulator p'" "build (world (ecu (cp_port c))) = (Inr b, w')" "world (ecu p') = w'"
          using query_idle [OF idle] by blast
        from body True now fin rw q(1) obtain f where f: "capture_response start ?now (Some (0x01, b)) (cp_file c) = Inr f"
          by (auto simp: Let_def split: sum.splits)
        define c2 where "c2 = c\<lparr>cp_ticks := stl (stl (cp_ticks c)),
            cp_next := (if py_lt (py_add (cp_next c) interval) ?now then py_add ?now interval else py_add (cp_next c) interval),
            cp_port := p', cp_file := f\<rparr>"
        have c2: "cp_port c2 = p'" "cp_file c2 = f" "loop port_read port_write start duration interval c2 = Some y"
          using body True now fin rw q(1) f by (simp_all add: Let_def c2_def)
        obtain fr where fr: "outpc_data fr = b" "frame_ok fr"
          "f = cp_file c\<lparr>written := written (cp_file c) @ frame_bytes fr, frame_count := frame_count (cp_file c) + 1\<rparr>"
          using capture_response_frame [OF f q(2)] by blast
        from ih [OF c2(3)] c2(1,2) q(3,5) fin obtain frs where "captured w' f (cp_file (snd y)) frs" by auto
        from captured_Cons [OF q(4) fr(1,2) this [unfolded fr(3)]] show ?thesis by blast
      qed
    qed
  qed
  with assms(2) show ?thesis by simp
qed

lemma capture_of_simulator:
  assumes p: "idle_simulator p" and "sig = signature (config (protocol (ecu p)))" and sig: "sig \<noteq> []"
    "list_all (\<lambda>c. of_char c < (128 :: nat)) sig" "last (encode sig) \<noteq> 0"
    and run: "capture_outpc port_read port_write (Some p) clk duration hz = Some (Inr True, f)"
  shows "\<exists>frs file. f = Some file \<and> inspect_load_capture file = Inr (sig, frs) \<and>
    map outpc_data frs = built (length frs) (world (ecu p))"
proof -
  have len: "length sig < 65534" using p assms(2) by (simp add: idle_simulator_def conn_ok_def)
  have q: "query_signature port_read port_write p = (Inr (Some sig), p)"
    by (rule query_signature_end_to_end) (use p assms(2) sig len in \<open>simp_all add: idle_simulator_def\<close>)
  let ?h = "encode ''MS2CAP02'' @ rev (be_bytes 4 (length sig)) @ encode sig"
  have h: "capture_header sig = Inr ?h" using capture_header_eq [of sig] len by simp
  let ?c = "\<lambda>interval. \<lparr>cp_port = p, cp_ticks = stl clk, cp_next = shd clk,
     cp_file = \<lparr>written = ?h, frame_count = 0, error_count = 0\<rparr>\<rparr>"
  from run obtain interval c where
    l: "capture_loop port_read port_write (shd clk) duration interval (?c interval) = Some (Inr (), c)"
    and f: "f = Some (written (cp_file c))"
    unfolding capture_outpc_def option.case q prod.case sum.case h Let_def if_not_P [OF sig(1)]
    by (simp split: sum.splits option.splits prod.splits del: be_bytes.simps)
  from capture_loop_records [OF l] p obtain frs where
    frs: "captured (world (ecu p)) \<lparr>written = ?h, frame_count = 0, error_count = 0\<rparr> (cp_file c) frs" by auto
  then have w: "written (cp_file c) = ?h @ concat (map frame_bytes frs)" and ok: "list_all frame_ok frs"
    by (simp_all add: captured_def del: be_bytes.simps)
  have "capture_frames (concat (map frame_bytes frs)) = frs"
    using capture_frames_cut [OF ok, of _ "[]"] by auto
  moreover have "length sig < 4294967296" using len by simp
  ultimately have "inspect_load_capture (written (cp_file c)) = Inr (sig, frs)"
    using inspect_load_header [of sig "concat (map frame_bytes frs)"] decode_encode_ascii [OF sig(2)]
    by (simp add: w del: be_bytes.simps)
  with frs f show ?thesis by (auto simp: captured_def)
qed

section \<open>Properties of a capture\<close>


definition counting :: "pyfloat stream" where
  "counting = smap (\<lambda>i. Fin (of_nat i)) nats"

lemma counting_passing: "passing counting"
proof -
  have "\<exists>k. \<forall>i\<ge>k. b \<le> (of_nat i :: rat)" for b
  proof -
    obtain k :: nat where k: "b \<le> of_nat k" using real_arch_simple [of b] by blast
    have "b \<le> of_nat i" if "k \<le> i" for i using order_trans [OF k of_nat_mono [OF that]] .
    then show ?thesis by blast
  qed
  then show ?thesis by (simp add: passing_def counting_def)
qed



text \<open>A capture of one second, of one block.\<close>

definition sample_port :: "ecu_world ecu_port" where
  "sample_port = \<lparr>ecu = conn sample_simulator, inbound = []\<rparr>"

definition one_second :: "pyfloat stream" where
  "one_second = Fin 0 ## Fin 0 ## Fin 0 ## sconst (Fin 1)"

lemma sample_port_idle: "idle_simulator sample_port"
  using sample_simulator_ok
  by (simp add: idle_simulator_def sample_port_def sim_ok_def) (simp add: sample_simulator_def ECUSimulator_fields)

lemma sample_port_signature: "signature (config (protocol (ecu sample_port))) = ''MS2Extra comms330NP''"
  by (simp add: sample_port_def sample_simulator_def ECUSimulator_fields init_pages_fields set_outpc_builder_def
      SerialProtocol_def ProtocolConfig_def sample_config_def INIConfig_def)

lemma sample_capture_runs:
  "\<exists>f st0. capture_outpc port_read port_write (Some sample_port) one_second (Fin 1) (Fin 1) = Some (Inr True, f) \<and>
     start_replay f True None = Inr (Some st0)"
proof -
  let ?sig = "''MS2Extra comms330NP''"
  let ?h = "encode ''MS2CAP02'' @ rev (be_bytes 4 (length ?sig)) @ encode ?sig"
  let ?st = "\<lparr>written = ?h, frame_count = 0, error_count = 0\<rparr>"
  have r: "rnd 1 = Fin 1" using representable_int [of 1] by (simp add: representable_def)
  obtain b w' p' where q: "query_outpc port_read port_write sample_port = (Inr (Some (0x01, b)), p')" "length b < 65535"
    using query_idle [OF sample_port_idle] by blast
  have "\<exists>st'. capture_response (Fin 0) (Fin 0) (Some (0x01, b)) ?st = Inr st'"
    using q(2) by (simp add: capture_response_def capture_poll_def py_sub_def rnd_zero PyFloat.truncate_def struct_pack_def
        in_fmt_def fmt_lo_def fmt_hi_def)
  then obtain st' where "capture_response (Fin 0) (Fin 0) (Some (0x01, b)) ?st = Inr st'" ..
  from capture_response_frame [OF this q(2)] this obtain fr where
    fr: "frame_ok fr" "capture_response (Fin 0) (Fin 0) (Some (0x01, b)) ?st =
      Inr \<lparr>written = ?h @ frame_bytes fr, frame_count = 1, error_count = 0\<rparr>" by auto
  let ?c = "\<lparr>cp_port = sample_port, cp_ticks = stl one_second, cp_next = Fin 0, cp_file = ?st\<rparr>"
  let ?c1 = "\<lparr>cp_port = p', cp_ticks = sconst (Fin 1), cp_next = Fin 1,
     cp_file = \<lparr>written = ?h @ frame_bytes fr, frame_count = 1, error_count = 0\<rparr>\<rparr>"
  have "capture_loop port_read port_write (Fin 0) (Fin 1) (Fin 1) ?c1 = Some (Inr (), ?c1)"
    by (subst capture_loop.simps) (simp add: py_sub_def r siterate.code [symmetric])
  then have loop: "capture_loop port_read port_write (Fin 0) (Fin 1) (Fin 1) ?c = Some (Inr (), ?c1)"
    using q(1) fr(2) by (subst capture_loop.simps) (simp add: one_second_def py_sub_def r rnd_zero Let_def del: be_bytes.simps)
  have sig: "query_signature port_read port_write sample_port = (Inr (Some ?sig), sample_port)"
    by (rule query_signature_end_to_end)
      (use sample_port_idle sample_port_signature in \<open>simp_all add: idle_simulator_def encode_def\<close>)
  have h: "capture_header ?sig = Inr ?h" using capture_header_eq [of ?sig] by simp
  have run: "capture_outpc port_read port_write (Some sample_port) one_second (Fin 1) (Fin 1) =
      Some (Inr True, Some (?h @ frame_bytes fr))"
    unfolding capture_outpc_def option.case sig prod.case sum.case h Let_def
    using loop py_float_small [of 1] by (simp add: one_second_def r py_sub_def del: be_bytes.simps)
  have "capture_frames (frame_bytes fr) = [fr]"
    using capture_frames_cut [of "[fr]" "frame_bytes fr" "[]"] fr(1) by auto
  then have "inspect_load_capture (?h @ frame_bytes fr) = Inr (?sig, [fr])"
    using inspect_load_header [of ?sig "frame_bytes fr"] decode_encode_ascii [of ?sig] by (simp del: be_bytes.simps)
  with run show ?thesis by (auto simp: start_replay_def load_capture_def Let_def simp del: be_bytes.simps)
qed


end
