(* ===== verification/ReplayPort.thy ===== *)
theory ReplayPort
  imports CaptureLoop DashSpec
begin

text \<open>
  The replay server at the end of a port: \<open>testingTools/replay_ecu_protocol.py\<close> with one of its clients.
  What a client writes meets one turn of the main loop, what the server writes waits to be read.
\<close>

section \<open>The port\<close>

record replay_port =
  rp_server :: replay_server
  rp_fd :: serial_fd
  rp_inbound :: bytes

definition replay_read :: "nat \<Rightarrow> replay_port \<Rightarrow> bytes \<times> replay_port" where
  "replay_read n p = (take n (rp_inbound p), p\<lparr>rp_inbound := drop n (rp_inbound p)\<rparr>)"

definition replay_write :: "bytes \<Rightarrow> replay_port \<Rightarrow> replay_port" where
  "replay_write data p =
     (let (rs, e, st, fd) = replay_turn False (rp_server p) ((rp_fd p)\<lparr>pending := pending (rp_fd p) @ data\<rparr>)
      in p\<lparr>rp_server := st, rp_fd := fd, rp_inbound := rp_inbound p @ concat rs\<rparr>)"

interpretation replay_source: byte_source replay_read rp_inbound
  by unfold_locales (simp_all add: replay_read_def)

section \<open>A server that serves\<close>

definition servable :: "replay_server \<Rightarrow> bool" where
  "servable st \<longleftrightarrow> replay_ok (frames st) st \<and>
     list_all (\<lambda>fr. length (outpc_data fr) < 65535) (frames st) \<and>
     length (sig_response st) < 65535 \<and> length (version_response st) < 65535"

definition serving :: "replay_server \<Rightarrow> bool" where
  "serving st \<longleftrightarrow> servable st \<and> read_buffer st = []"

definition quiet_fd :: serial_fd where
  "quiet_fd = \<lparr>pending = [], arrivals = []\<rparr>"

definition idle_replay :: "replay_port \<Rightarrow> bool" where
  "idle_replay p \<longleftrightarrow> serving (rp_server p) \<and> rp_fd p = quiet_fd \<and> rp_inbound p = []"

lemma serve_frame_servable: "servable st \<Longrightarrow> servable (snd (serve_frame view st))"
  using serve_frame_ok [of "frames st" st view]
  by (auto simp: servable_def serve_frame_def Let_def replay_ok_def split: sum.splits)

interpretation servers: replay_invariant servable
proof
  show buffered: "servable (st\<lparr>read_buffer := b\<rparr>)" if "servable st" for st b using that by (simp add: servable_def)
  show counted: "servable (st\<lparr>request_count := n\<rparr>)" if "servable st" for st n using that by (simp add: servable_def)
  show "servable (snd (handle_replay_request st req))" if "servable st" for st req
    using counted [OF that] by (simp add: handle_replay_request_def Let_def serve_frame_servable split: option.splits prod.splits)
qed

lemma handle_replay_request_serving: "serving st \<Longrightarrow> serving (snd (handle_replay_request st req))"
  by (simp add: serving_def servers.handled)

text \<open>The block the server stands at.\<close>

definition current_block :: "replay_server \<Rightarrow> bytes" where
  "current_block st = outpc_data (frames st ! frame_index st)"

lemma current_block_small: "serving st \<Longrightarrow> length (current_block st) < 65535"
  by (auto simp: serving_def servable_def current_block_def replay_ok_def list_all_length)

lemma serve_frame_served:
  "serving st \<Longrightarrow> length (view (current_block st)) < 65535 \<Longrightarrow>
     fst (serve_frame view st) = Inr (frame (0x01 # view (current_block st)))"
  by (auto simp: serving_def servable_def current_block_def replay_ok_def serve_frame_def build_response_eq Let_def)

text \<open>A response that its client can read.\<close>

definition readable :: "bytes result \<Rightarrow> bool" where
  "readable r \<longleftrightarrow> (\<exists>flag data. r = Inr (frame (flag # data)) \<and> length data < 65535)"

lemma readable_response: "length d < 65535 \<Longrightarrow> readable (build_response flag d)"
  by (auto simp: readable_def build_response_eq)

lemma handle_replay_request_served:
  assumes s: "serving st" and small: "\<And>c t a n. parse_r_command req = Some (c, t, a, n) \<Longrightarrow> n < 65535"
  shows "readable (fst (handle_replay_request st req))"
proof -
  let ?st = "st\<lparr>request_count := request_count st + 1\<rparr>"
  have s': "serving ?st" and b: "current_block ?st = current_block st"
    using s by (simp_all add: serving_def servable_def current_block_def)
  have served: "readable (fst (serve_frame view ?st))" if "length (view (current_block st)) < 65535" for view
    using serve_frame_served [OF s', of view] that b by (auto simp: readable_def)
  have cut: "length (slice xs a (a + n)) < 65535" if "n < 65535" for xs :: bytes and a n
    using that by (simp add: slice_def)
  have fixed: "readable (build_response flag (sig_response st))" "readable (build_response flag (version_response st))"
    "readable (build_response flag [])" for flag
    using s by (simp_all add: serving_def servable_def readable_response)
  have bounded: "readable (build_response flag (slice xs a (a + n)))" "readable (build_response flag (zeros n))"
    "readable (fst (serve_frame (\<lambda>d. slice d a (a + n)) ?st))"
    if "parse_r_command req = Some (c, t, a, n)" for flag xs c t a n
    using small [OF that] cut served by (simp_all add: readable_response zeros_def)
  show ?thesis
  proof (cases "parse_r_command req")
    case None
    with fixed served [of "\<lambda>d. d"] current_block_small [OF s] show ?thesis
      by (simp add: handle_replay_request_def Let_def del: encode_cmds)
  next
    case (Some r)
    then obtain c t a n where r: "parse_r_command req = Some (c, t, a, n)" by (cases r) auto
    from fixed served [of "\<lambda>d. d"] current_block_small [OF s] bounded [OF r] show ?thesis
      by (simp add: handle_replay_request_def Let_def r del: encode_cmds)
  qed
qed

section \<open>One exchange\<close>

lemma replay_turn_frame:
  assumes "read_buffer st = []" and p: "payload_ok p" and "length p \<le> 1018"
    and h: "handle_replay_request st p = (Inr r, st')"
  shows "replay_turn False st \<lparr>pending = frame p, arrivals = []\<rparr> = ([r], None, st', quiet_fd)"
proof -
  let ?f = "frame p"
  have f: "?f \<noteq> []" "length ?f \<le> 1024" using assms(3) by (auto dest: arg_cong [of _ _ length])
  then have poll: "poll_read 1024 \<lparr>pending = ?f, arrivals = []\<rparr> = (Some (Inr ?f), quiet_fd)"
    by (simp add: poll_read_def read_pending_def quiet_fd_def)
  have cmd: "slice ?f 0 1 \<noteq> encode ''F''" using frame_hd [OF p] f(1) by (cases ?f) (simp_all add: slice_def)
  have long: "\<not> length ?f < 2" "\<not> length ?f < 2 + length p + 4" by simp_all
  have size: "\<not> (length p = 0 \<or> 1024 < length p)" using p by (auto simp: payload_ok_def)
  have slices: "be_nat (slice ?f 0 2) = length p" "slice ?f 2 (2 + length p) = p"
    "slice ?f (2 + length p) (2 + length p + 4) = be_bytes 4 (unat (crc32 p))" "drop (2 + length p + 4) ?f = []"
    using slice_frame_size [OF p, of "[]"] slice_frame_payload [of p "[]"] slice_frame_crc [of p "[]"] drop_frame [of p "[]"] by simp_all
  have more: "read_more k (2 + length p + 4) ?f quiet_fd = (?f, quiet_fd)" for k
    by (cases k) simp_all
  have req: "read_framed_request quiet_fd ?f = (Some p, [], quiet_fd)"
    unfolding read_framed_request_def framed_request_def read_size_def if_not_P [OF long(1)] prod.case sum.case Let_def
      slices if_not_P [OF size] more if_not_P [OF long(2)]
    by (simp add: crc32_ms_def)
  have same: "st\<lparr>read_buffer := []\<rparr> = st" using assms(1) by simp
  have "read_buffer st' = []" using assms(1) h handle_replay_request_buffer [of st p] by simp
  then have idle: "replay_requests st' quiet_fd = ([], None, st', quiet_fd)" by (subst replay_requests.simps) simp
  have "replay_requests (st\<lparr>read_buffer := ?f\<rparr>) quiet_fd = ([r], None, st', quiet_fd)"
    using f(1) cmd by (subst replay_requests.simps) (simp add: req same h idle del: encode_cmds)
  with f(1) assms(1) show ?thesis by (simp add: replay_turn_def poll)
qed

lemma replay_turn_version:
  assumes "read_buffer st = []"
  shows "replay_turn False st \<lparr>pending = encode ''F'', arrivals = []\<rparr> =
    ([encode ''002''], None, st\<lparr>request_count := request_count st + 1\<rparr>, quiet_fd)"
proof -
  let ?st = "st\<lparr>request_count := request_count st + 1\<rparr>"
  have "?st\<lparr>read_buffer := []\<rparr> = ?st" using assms by simp
  moreover have "replay_requests ?st quiet_fd = ([], None, ?st, quiet_fd)"
    using assms by (subst replay_requests.simps) simp
  ultimately have "replay_requests (st\<lparr>read_buffer := [0x46]\<rparr>) quiet_fd = ([encode ''002''], None, ?st, quiet_fd)"
    by (subst replay_requests.simps) (simp add: slice_def)
  with assms show ?thesis by (simp add: replay_turn_def poll_read_def read_pending_def quiet_fd_def)
qed

text \<open>A client that writes a request finds the response behind the port, and the server idle again.\<close>

lemma replay_exchange:
  assumes "idle_replay p" and "payload_ok req" and "length req \<le> 1018"
    and "handle_replay_request (rp_server p) req = (Inr r, st')"
  shows "replay_write (frame req) p = p\<lparr>rp_server := st', rp_inbound := r\<rparr>"
    and "idle_replay (p\<lparr>rp_server := st', rp_inbound := []\<rparr>)"
proof -
  have p: "serving (rp_server p)" "rp_fd p = quiet_fd" "rp_inbound p = []" using assms(1) by (simp_all add: idle_replay_def)
  then have "read_buffer (rp_server p) = []" by (simp add: serving_def)
  from replay_turn_frame [OF this assms(2-4)] p show "replay_write (frame req) p = p\<lparr>rp_server := st', rp_inbound := r\<rparr>"
    by (simp add: replay_write_def quiet_fd_def)
  show "idle_replay (p\<lparr>rp_server := st', rp_inbound := []\<rparr>)"
    using handle_replay_request_serving [OF p(1), of req] assms(4) p by (simp add: idle_replay_def)
qed

lemma replay_version:
  assumes "idle_replay p"
  shows "\<exists>st'. replay_write (encode ''F'') p = p\<lparr>rp_server := st', rp_inbound := encode ''002''\<rparr> \<and>
    idle_replay (p\<lparr>rp_server := st', rp_inbound := []\<rparr>)"
proof -
  let ?st = "rp_server p"
  have p: "serving ?st" "rp_fd p = quiet_fd" "rp_inbound p = []" using assms by (simp_all add: idle_replay_def)
  then have "read_buffer ?st = []" by (simp add: serving_def)
  from replay_turn_version [OF this] p have
    "replay_write (encode ''F'') p = p\<lparr>rp_server := ?st\<lparr>request_count := request_count ?st + 1\<rparr>, rp_inbound := encode ''002''\<rparr>"
    by (simp add: replay_write_def quiet_fd_def del: encode_cmds)
  moreover have "serving (?st\<lparr>request_count := request_count ?st + 1\<rparr>)" using p(1) by (simp add: serving_def servable_def)
  ultimately show ?thesis using p by (auto simp: idle_replay_def)
qed

section \<open>The dashboard on a replay\<close>

lemma dash_poll_replay:
  assumes "idle_replay (link l)" and "prompt timeout (ticks l)"
    and "decode_outpc (current_block (rp_server (link l))) fs = Inr d"
  shows "\<exists>l'. dash_poll replay_read replay_write fs n timeout l =
    Some (\<lparr>rows = dash_rows d fs, payload_size = length (current_block (rp_server (link l))),
        status = if int (length (current_block (rp_server (link l)))) = n then StatusOk
          else SizeMismatch (length (current_block (rp_server (link l)))) n\<rparr>, l')"
proof -
  let ?st = "rp_server (link l)" let ?b = "current_block ?st" and ?st1 = "?st\<lparr>request_count := request_count ?st + 1\<rparr>"
  have s: "serving ?st" using assms(1) by (simp add: idle_replay_def)
  then have s1: "serving ?st1" "current_block ?st1 = ?b"
    by (simp_all add: serving_def servers.counted, simp add: current_block_def)
  have small: "length ?b < 65535" by (rule current_block_small [OF s])
  then obtain st' where "handle_replay_request ?st [0x41] = (Inr (frame (0x01 # ?b)), st')"
    using serve_frame_served [OF s1(1), of "\<lambda>d. d"] s1(2)
    by (cases "serve_frame (\<lambda>d. d) ?st1") (simp add: handle_replay_request_def Let_def)
  from replay_exchange(1) [OF assms(1) _ _ this] have
    "replay_write (frame [0x41]) (link l) = (link l)\<lparr>rp_server := st', rp_inbound := frame (0x01 # ?b)\<rparr>"
    by (simp add: payload_ok_def)
  then have "\<exists>l'. send_command replay_read replay_write [0x41] timeout l = Some (Inr (0x01 # ?b), l')"
    using replay_source.send_command_frame [of "[0x41]" replay_write l "0x01 # ?b" "[]" timeout] assms(2) small by auto
  with assms(3) show ?thesis by (auto simp: dash_poll_def dash_show_def Let_def)
qed

lemma built_small: "world_ok w \<Longrightarrow> b \<in> set (built n w) \<Longrightarrow> length b < 65535"
proof (induction n arbitrary: w)
  case (Suc n)
  from build_world_ok [OF Suc.prems(1)] obtain c where
    "build w = (Inr c, w\<lparr>clock := stl (clock w)\<rparr>)" "length c < 65535" "world_ok (w\<lparr>clock := stl (clock w)\<rparr>)" by blast
  with Suc.IH Suc.prems(2) show ?case by auto
qed simp

lemma start_replay_servable:
  assumes "start_replay file loop ov = Inr (Some st)" and "list_all (\<lambda>fr. length (outpc_data fr) < 65535) (frames st)"
  shows "servable st"
  using start_replay_ok [OF assms(1)] assms
  by (auto simp: servable_def start_replay_def ljust_def Let_def split: option.splits sum.splits prod.splits if_splits)



end
