(* ===== verification/ExampleSim.thy ===== *)
theory ExampleSim
  imports DashSpec Replay Simulator
begin

text \<open>
  \<open>exampleFiles/ms2_ecu_simulator.py\<close>: the stand-alone simulator the package of \<open>ecuSim\<close> grew out
  of. Its \<open>FieldDef\<close> is that of \<open>ms2_ini_dash.py\<close>, its \<open>split_respecting_quotes\<close> and
  \<open>parse_numeric\<close> are those of \<open>ini_parser.py\<close>, and its terminal is the one of \<open>Replay\<close>.
\<close>

section \<open>Parsing the INI file\<close>

record example_parser =
  xp_fields :: "(string, dash_field) dict"
  xp_block_size :: int
  xp_signature :: string
  xp_in_channels :: bool
  xp_conditions :: "bool list"

definition re_example_signature :: re where
  "re_example_signature = re_seq [Str ''signature'', spaces, Str ''='', spaces, Str [CHR 0x22],
     Grp 1 (Many1 (Cls (\<lambda>c. c \<noteq> CHR 0x22))), Str [CHR 0x22]]"

definition example_field_line :: "string \<Rightarrow> dash_field option result" where
  "example_field_line line =
     (case re_match re_field line of
        None \<Rightarrow> Inr None
      | Some (g, rest) \<Rightarrow>
          let n = group 1 g; parts = split_respecting_quotes (group 2 g) in
          if length parts < 3 then Inr None
          else let ft = lower (strip (parts ! 0)); dt = upper (strip (parts ! 1)) in
            case parse_int (strip (parts ! 2)) of
              Inl e \<Rightarrow> Inr None
            | Inr off \<Rightarrow>
                if ft = ''scalar'' then
                  bindE (numeric_part parts 4 (Fin 1)) (\<lambda>sc.
                  bindE (numeric_part parts 5 (Fin 0)) (\<lambda>tr.
                  Inr (Some \<lparr>df_name = n, df_type = ''scalar'', df_data = dt, df_offset = off,
                    df_units = units_part parts 3, df_scale = sc, df_translate = tr, df_bits = None\<rparr>)))
                else if ft = ''bits'' then
                  bindE (if length parts > 3 then
                           (case re_search re_bits (parts ! 3) of
                              Some (b, r) \<Rightarrow>
                                bindE (parse_int (group 1 b)) (\<lambda>lo.
                                bindE (parse_int (group 2 b)) (\<lambda>hi. Inr (Some (lo, hi))))
                            | None \<Rightarrow> Inr None)
                         else Inr None) (\<lambda>bits.
                  Inr (Some \<lparr>df_name = n, df_type = ''bits'', df_data = dt, df_offset = off,
                    df_units = [], df_scale = Fin 1, df_translate = Fin 0, df_bits = bits\<rparr>))
                else Inr None)"

definition example_line :: "string \<Rightarrow> example_parser \<Rightarrow> example_parser result" where
  "example_line line p0 =
     (if line = [] \<or> startswith line '';'' then Inr p0
      else if startswith line ''#if '' then
        (let cond = strip (drop 4 line)
         in Inr (p0\<lparr>xp_conditions := (cond \<notin> {''CELSIUS'', ''CAN_COMMANDS''}) # xp_conditions p0\<rparr>))
      else if line = ''#else'' then
        Inr (case xp_conditions p0 of c # cs \<Rightarrow> p0\<lparr>xp_conditions := (\<not> c) # cs\<rparr> | [] \<Rightarrow> p0)
      else if line = ''#endif'' then
        Inr (case xp_conditions p0 of c # cs \<Rightarrow> p0\<lparr>xp_conditions := cs\<rparr> | [] \<Rightarrow> p0)
      else if xp_conditions p0 \<noteq> [] \<and> \<not> list_all (\<lambda>c. c) (xp_conditions p0) then Inr p0
      else
        let p = (if contains line ''signature'' \<and> contains line ''='' then
                   (case re_search re_example_signature line of
                      Some (g, r) \<Rightarrow> p0\<lparr>xp_signature := group 1 g\<rparr>
                    | None \<Rightarrow> p0)
                 else p0)
        in if startswith line ''['' then
             Inr (p\<lparr>xp_in_channels := (strip_chars ''[]'' line = ''OutputChannels'')\<rparr>)
           else if \<not> xp_in_channels p then Inr p
           else if contains line ''ochBlockSize'' then
             (case re_search re_block_size line of
                Some (g, r) \<Rightarrow> bindE (parse_int (group 1 g)) (\<lambda>n. Inr (p\<lparr>xp_block_size := n\<rparr>))
              | None \<Rightarrow> Inr p)
           else if contains line ''{'' \<or> contains line ''ochGetCommand'' then Inr p
           else if contains line ''='' then
             bindE (example_field_line line) (\<lambda>fd. Inr
               (case fd of
                  Some f \<Rightarrow> p\<lparr>xp_fields := dict_set (df_name f) f (xp_fields p)\<rparr>
                | None \<Rightarrow> p))
           else Inr p)"

definition ExampleParser :: example_parser where
  "ExampleParser = \<lparr>xp_fields = [], xp_block_size = 209, xp_signature = ''MS2Extra comms330NP'',
     xp_in_channels = False, xp_conditions = []\<rparr>"

definition parse_example_ini :: "bytes \<Rightarrow> ((string, dash_field) dict \<times> int \<times> string) result" where
  "parse_example_ini file =
     bindE (foldE (\<lambda>line. example_line (strip line)) (splitlines (remove_line_prefixes (read_text file))) ExampleParser)
       (\<lambda>p. Inr (xp_fields p, xp_block_size p, xp_signature p))"

section \<open>The engine\<close>

record example_engine =
  x_rpm :: pyfloat
  x_target_rpm :: pyfloat
  x_map :: pyfloat
  x_tps :: pyfloat
  x_coolant :: pyfloat
  x_mat :: pyfloat
  x_afr :: pyfloat
  x_advance :: pyfloat
  x_pulse_width :: pyfloat
  x_dwell :: pyfloat
  x_battery :: pyfloat
  x_start_time :: pyfloat
  x_running :: bool
  x_cranking :: bool
  x_warmup :: bool
  x_mode :: string
  x_mode_timer :: pyfloat

definition ExampleEngine :: "pyfloat \<Rightarrow> example_engine" where
  "ExampleEngine now =
     \<lparr>x_rpm = Fin 850, x_target_rpm = Fin 850, x_map = Fin 35, x_tps = Fin 0, x_coolant = Fin 180,
      x_mat = Fin 85, x_afr = lit (147/10), x_advance = Fin 15, x_pulse_width = lit (25/10), x_dwell = Fin 3,
      x_battery = lit (141/10), x_start_time = now, x_running = True, x_cranking = False, x_warmup = False,
      x_mode = ''idle'', x_mode_timer = Fin 0\<rparr>"

definition example_change_mode :: "example_engine \<Rightarrow> example_engine gen" where
  "example_change_mode s =
     (let weights =
        (if py_lt (x_rpm s) (Fin 1000) then [lit (2/10), lit (3/10), lit (4/10), lit (1/10)]
         else if py_lt (Fin 5000) (x_rpm s) then [lit (1/10), lit (2/10), lit (1/10), lit (6/10)]
         else [lit (3/10), lit (35/100), lit (2/10), lit (15/100)])
      in bindG (choice modes weights) (\<lambda>m.
         bindG (uniform (Fin 2) (Fin 8)) (\<lambda>t.
         returnG (s\<lparr>x_mode := m, x_mode_timer := t\<rparr>))))"

definition example_idle :: "pyfloat \<Rightarrow> example_engine \<Rightarrow> example_engine gen" where
  "example_idle dt s =
     bindG (uniform (Fin (- 20)) (Fin 20)) (\<lambda>u1.
     bindG (uniform (Fin (- 2)) (Fin 2)) (\<lambda>u2.
     bindG (uniform (lit (- 3/10)) (lit (3/10))) (\<lambda>u3.
     bindG (uniform (Fin (- 1)) (Fin 1)) (\<lambda>u4.
     returnG (s\<lparr>x_target_rpm := py_add (Fin 850) u1,
       x_tps := py_max (Fin 0) (py_sub (x_tps s) (py_mul dt (Fin 50))),
       x_map := py_add (Fin 30) u2,
       x_afr := py_add (lit (147/10)) u3,
       x_advance := py_add (Fin 18) u4\<rparr>)))))"

definition example_cruise :: "example_engine \<Rightarrow> example_engine gen" where
  "example_cruise s =
     bindG (uniform (Fin (- 100)) (Fin 100)) (\<lambda>u1.
     bindG (uniform (Fin (- 3)) (Fin 3)) (\<lambda>u2.
     bindG (uniform (Fin (- 5)) (Fin 5)) (\<lambda>u3.
     bindG (uniform (lit (- 2/10)) (lit (2/10))) (\<lambda>u4.
     bindG (uniform (Fin (- 2)) (Fin 2)) (\<lambda>u5.
     returnG (s\<lparr>x_target_rpm := py_add (Fin 2800) u1,
       x_tps := py_add (Fin 25) u2,
       x_map := py_add (Fin 55) u3,
       x_afr := py_add (lit (145/10)) u4,
       x_advance := py_add (Fin 28) u5\<rparr>))))))"

definition example_accel :: "pyfloat \<Rightarrow> example_engine \<Rightarrow> example_engine gen" where
  "example_accel dt s =
     (let throttle = py_min (Fin 95) (py_add (x_tps s) (py_mul dt (Fin 100)));
          pressure = py_min (Fin 100) (py_add (Fin 40) (py_mul throttle (lit (6/10))))
      in bindG (uniform (lit (- 3/10)) (lit (3/10))) (\<lambda>u.
         returnG (s\<lparr>x_target_rpm := py_min (Fin 6500) (py_add (x_target_rpm s) (py_mul dt (Fin 2000))),
           x_tps := throttle, x_map := pressure,
           x_afr := py_add (lit (125/10)) u,
           x_advance := py_max (Fin 10) (py_sub (Fin 35) (py_mul pressure (lit (2/10))))\<rparr>)))"

definition example_decel :: "pyfloat \<Rightarrow> example_engine \<Rightarrow> example_engine gen" where
  "example_decel dt s =
     bindG (uniform (lit (- 2/10)) (lit (2/10))) (\<lambda>u1.
     bindG (uniform (Fin (- 2)) (Fin 2)) (\<lambda>u2.
     returnG (s\<lparr>x_target_rpm := py_max (Fin 1200) (py_sub (x_target_rpm s) (py_mul dt (Fin 1500))),
       x_tps := py_max (Fin 0) (py_sub (x_tps s) (py_mul dt (Fin 80))),
       x_map := py_max (Fin 20) (py_sub (x_map s) (py_mul dt (Fin 30))),
       x_afr := py_add (lit (155/10)) u1,
       x_advance := py_add (Fin 25) u2\<rparr>)))"

definition example_mode :: "pyfloat \<Rightarrow> example_engine \<Rightarrow> example_engine gen" where
  "example_mode dt s =
     (if x_mode s = ''idle'' then example_idle dt s
      else if x_mode s = ''cruise'' then example_cruise s
      else if x_mode s = ''accel'' then example_accel dt s
      else if x_mode s = ''decel'' then example_decel dt s
      else returnG s)"

text \<open>The part of a step after the mode: engine speed, injection, temperatures, battery, flags.\<close>

definition example_common :: "pyfloat \<Rightarrow> example_engine \<Rightarrow> example_engine gen" where
  "example_common dt s0 =
     (let s = s0\<lparr>x_rpm := py_max (Fin 0) (py_add (x_rpm s0)
            (py_mul (py_sub (x_target_rpm s0) (x_rpm s0)) (py_min (Fin 1) (py_mul dt (Fin 5)))))\<rparr>;
          target_coolant = (if py_lt (Fin 500) (x_rpm s) then Fin 190 else Fin 70) in
     bindG (liftG (py_div (x_map s) (Fin 100))) (\<lambda>load.
     bindG (uniform (lit (- 1/10)) (lit (1/10))) (\<lambda>u1.
     bindG (uniform (lit (- 1/10)) (lit (1/10))) (\<lambda>u2.
     bindG (uniform (lit (- 5/10)) (lit (5/10))) (\<lambda>u3.
     bindG (liftG (py_div (x_rpm s) (Fin 6500))) (\<lambda>flow.
     bindG (uniform (lit (- 2/10)) (lit (2/10))) (\<lambda>u4.
     bindG (uniform (lit (- 5/100)) (lit (5/100))) (\<lambda>u5.
     let c = py_add (approach target_coolant dt (lit (1/100)) (x_coolant s)) u3;
         target_mat = py_add (Fin 90) (py_mul flow (Fin 30)) in
     returnG (s\<lparr>x_pulse_width := py_add (py_add (lit (15/10)) (py_mul load (Fin 8))) u1,
       x_dwell := py_add (lit (25/10)) u2,
       x_coolant := c,
       x_mat := py_add (approach target_mat dt (lit (5/100)) (x_mat s)) u4,
       x_battery := py_add (py_sub (lit (141/10)) (py_mul flow (lit (3/10)))) u5,
       x_warmup := py_lt c (Fin 160), x_cranking := False\<rparr>)))))))))"

definition example_update :: "pyfloat \<Rightarrow> example_engine \<Rightarrow> example_engine gen" where
  "example_update dt s0 =
     (let s1 = s0\<lparr>x_mode_timer := py_sub (x_mode_timer s0) dt\<rparr> in
     bindG (if py_le (x_mode_timer s1) (Fin 0) then example_change_mode s1 else returnG s1) (\<lambda>s2.
     bindG (example_mode dt s2) (example_common dt)))"

definition example_seconds :: "pyfloat \<Rightarrow> example_engine \<Rightarrow> int result" where
  "example_seconds now s = py_int (py_sub now (x_start_time s))"

section \<open>The realtime block\<close>

definition example_encode_field :: "dash_field \<Rightarrow> pyfloat \<Rightarrow> bytes \<Rightarrow> bytes result" where
  "example_encode_field f v buf =
     (if df_offset f + int (dash_size f) > int (length buf) then Inr buf
      else bindE (if \<not> py_eq (df_scale f) (Fin 0)
                  then bindE (py_div v (df_scale f)) (\<lambda>q. Inr (py_sub q (df_translate f))) else Inr v) (\<lambda>raw.
           bindE (py_int raw) (\<lambda>k.
           pack_into (dash_format f) buf (df_offset f) (clamp (df_data f) k))))"

definition example_engine_bits :: "example_engine \<Rightarrow> int" where
  "example_engine_bits s =
     (let bits = (if x_running s then 0x01 else 0 :: int);
          bits = (if x_cranking s then or bits 0x02 else bits)
      in if x_warmup s then or bits 0x0C else bits)"

text \<open>The dictionary of \<open>build_outpc\<close>, in its order; \<open>now\<close> is what \<open>time.time()\<close> returns.\<close>

definition example_values :: "pyfloat \<Rightarrow> example_engine \<Rightarrow> (string \<times> pyfloat) list gen" where
  "example_values now s =
     bindG (liftG (example_seconds now s)) (\<lambda>secs.
     bindG (uniform (lit (- 2/10)) (lit (2/10))) (\<lambda>u1.
     bindG (uniform (Fin (- 3)) (Fin 3)) (\<lambda>u2.
     bindG (uniform (Fin (- 3)) (Fin 3)) (\<lambda>u3.
     bindG (liftG (py_div (x_map s) (Fin 100))) (\<lambda>load.
     bindG (uniform (Fin (- 5)) (Fin 5)) (\<lambda>u4.
     bindG (uniform (Fin (- 10)) (Fin 10)) (\<lambda>u5.
     let ve = py_add (Fin 75) (py_mul load (Fin 50));
         afr_tgt = (if py_lt (x_tps s) (Fin 80) then lit (147/10) else lit (125/10)) in
     returnG [
       (''seconds'', Fin (of_int secs)), (''rpm'', x_rpm s), (''advance'', x_advance s), (''map'', x_map s),
       (''tps'', x_tps s), (''coolant'', x_coolant s), (''mat'', x_mat s), (''batteryVoltage'', x_battery s),
       (''afr1'', x_afr s), (''afr2'', py_add (x_afr s) u1), (''pulseWidth1'', x_pulse_width s),
       (''pulseWidth2'', x_pulse_width s), (''dwell'', x_dwell s), (''barometer'', lit (1013/10)),
       (''knock'', Fin 0), (''egoCorrection1'', py_add (Fin 100) u2), (''egoCorrection2'', py_add (Fin 100) u3),
       (''airCorrection'', Fin 100), (''warmupEnrich'', if x_warmup s then Fin 120 else Fin 100),
       (''accelEnrich'', Fin 0), (''tpsfuelcut'', Fin 100), (''baroCorrection'', Fin 100),
       (''gammaEnrich'', if x_warmup s then Fin 110 else Fin 100), (''veCurr1'', ve), (''veCurr2'', ve),
       (''coldAdvDeg'', if x_warmup s then Fin 2 else Fin 0), (''TPSdot'', u4), (''MAPdot'', u5),
       (''fuelload'', x_map s), (''ignload'', x_map s), (''afrtgt1'', afr_tgt), (''afrtgt2'', afr_tgt),
       (''iacstep'', if py_lt (x_rpm s) (Fin 1000) then Fin 30 else Fin 0),
       (''idleDC'', if py_lt (x_rpm s) (Fin 1000) then Fin 35 else Fin 0),
       (''engine'', Fin (of_int (example_engine_bits s))), (''squirt'', if x_running s then Fin 0x28 else Fin 0)])))))))"

text \<open>The simulator as the requests see it: what was parsed, the engine, and its inputs.\<close>

record example_world =
  xw_fields :: "(string, dash_field) dict"
  xw_block_size :: int
  xw_signature :: string
  xw_engine :: example_engine
  xw_clock :: "pyfloat stream"
  xw_draws :: rng

definition example_encode_all :: "(string, dash_field) dict \<Rightarrow> (string \<times> pyfloat) list \<Rightarrow> bytes \<Rightarrow> bytes result" where
  "example_encode_all fs vals buf =
     foldE (\<lambda>(n, v) buf.
       case dict_get fs n of Some f \<Rightarrow> example_encode_field f v buf | None \<Rightarrow> Inr buf) vals buf"

definition build_example :: "example_world \<Rightarrow> bytes result \<times> example_world" where
  "build_example w =
     (if xw_block_size w < 0 then (Inl ValueError, w)
      else let (vals, g) = example_values (shd (xw_clock w)) (xw_engine w) (xw_draws w)
           in (bindE vals (\<lambda>vs. example_encode_all (xw_fields w) vs (zeros (nat (xw_block_size w)))),
               w\<lparr>xw_clock := stl (xw_clock w), xw_draws := g\<rparr>))"

section \<open>Requests\<close>

definition example_response :: "byte \<Rightarrow> bytes \<Rightarrow> bytes result" where
  "example_response flag payload =
     (let data = [flag] @ payload in
      bindE (struct_pack (BigEndian, FmtH) (int (length data))) (\<lambda>size.
      bindE (struct_pack (BigEndian, FmtI) (uint (crc32 data))) (\<lambda>crc.
      Inr (size @ data @ crc))))"

definition example_read_request :: "serial_fd \<Rightarrow> bytes \<Rightarrow> bytes option \<times> bytes \<times> serial_fd" where
  "example_read_request fd buf = framed_request 50 fd buf"

text \<open>The response written for a request, or the exception that ends the simulator.\<close>

definition example_handle :: "example_world \<Rightarrow> bytes \<Rightarrow> bytes result \<times> example_world" where
  "example_handle w request =
     (if request = encode ''Q'' then (example_response 0x00 (encode (xw_signature w) @ [0]), w)
      else if request = encode ''A'' then
        (let (outpc, w') = build_example w in (bindE outpc (example_response 0x01), w'))
      else if slice request 0 1 = encode ''r'' \<and> length request \<ge> 7 then
        (let table = unat (request ! 2); offset = be_nat (slice request 3 5); count = be_nat (slice request 5 7) in
         if table = 0x0F then
           (example_response 0x00 (slice (ljust 20 0 (encode (xw_signature w) @ [0])) offset (offset + count)), w)
         else if table = 0x0E then
           (example_response 0x00 (slice (ljust 60 0 (encode (xw_signature w) @ [0])) offset (offset + count)), w)
         else if table = 0x07 then
           (let (outpc, w') = build_example w
            in (bindE outpc (\<lambda>d. example_response 0x01 (slice d offset (offset + count))), w'))
         else if table \<in> {0x04, 0x05, 0x06, 0x08, 0x09, 0x0A, 0x0B, 0x0C, 0x0D} then
           (example_response 0x00 (zeros count), w)
         else (example_response 0x00 (zeros count), w))
      else (example_response 0x83 [], w))"

record example_sim =
  xs_world :: example_world
  xs_hz :: pyfloat
  xs_last_update :: pyfloat
  xs_last_stats :: pyfloat
  xs_request_count :: nat
  xs_buffer :: bytes

text \<open>The loop \<open>while read_buffer\<close>.\<close>

function example_requests ::
  "example_sim \<Rightarrow> serial_fd \<Rightarrow> bytes list \<times> py_error option \<times> example_sim \<times> serial_fd" where
  "example_requests st fd =
     (if xs_buffer st = [] then ([], None, st, fd)
      else if slice (xs_buffer st) 0 1 = encode ''F'' then
        (let (rs, e, st', fd') = example_requests
           (st\<lparr>xs_request_count := xs_request_count st + 1, xs_buffer := drop 1 (xs_buffer st)\<rparr>) fd
         in (encode ''002'' # rs, e, st', fd'))
      else (case example_read_request fd (xs_buffer st) of
          (None, r, fd') \<Rightarrow> ([], None, st\<lparr>xs_buffer := r\<rparr>, fd')
        | (Some request, r, fd') \<Rightarrow>
            (let st1 = st\<lparr>xs_request_count := xs_request_count st + 1, xs_buffer := r\<rparr> in
             case example_handle (xs_world st1) request of
               (Inl e, w) \<Rightarrow> ([], Some e, st1\<lparr>xs_world := w\<rparr>, fd')
             | (Inr response, w) \<Rightarrow>
                 (let (rs, e, st', fd'') = example_requests (st1\<lparr>xs_world := w\<rparr>) fd'
                  in (response # rs, e, st', fd'')))))"
  by pat_completeness auto
termination
  by (relation "measure (\<lambda>(st, fd). length (xs_buffer st) + length (stream fd))")
    (auto simp: example_read_request_def dest!: framed_request_shorter [OF sym])

declare example_requests.simps [simp del]

text \<open>One turn of the main loop, at the time \<open>now\<close>; \<open>later\<close> is what the clock shows afterwards.\<close>

definition example_turn ::
  "pyfloat \<Rightarrow> pyfloat stream \<Rightarrow> example_sim \<Rightarrow> serial_fd \<Rightarrow> bytes list \<times> py_error option \<times> example_sim \<times> serial_fd" where
  "example_turn now later st0 fd =
     (let dt = py_sub now (xs_last_update st0); st = st0\<lparr>xs_last_update := now\<rparr>; w = xs_world st in
      case example_update dt (xw_engine w) (xw_draws w) of
        (Inl e, g) \<Rightarrow> ([], Some e, st\<lparr>xs_world := w\<lparr>xw_draws := g\<rparr>\<rparr>, fd)
      | (Inr s, g) \<Rightarrow>
          let (x, fd1) = poll_read 1024 fd;
              raw_data = (case x of Some (Inr d) \<Rightarrow> d | _ \<Rightarrow> []);
              (rs, e, st1, fd2) = example_requests
                (st\<lparr>xs_world := w\<lparr>xw_engine := s, xw_draws := g, xw_clock := later\<rparr>, xs_buffer := xs_buffer st @ raw_data\<rparr>) fd1
          in case e of
               Some err \<Rightarrow> (rs, Some err, st1, fd2)
             | None \<Rightarrow>
                 (let st2 = (if py_lt (Fin 2) (py_sub now (xs_last_stats st1)) then st1\<lparr>xs_last_stats := now\<rparr> else st1)
                  in case loop_sleep (xs_hz st2) of
                       Inl err \<Rightarrow> (rs, Some err, st2, fd2)
                     | Inr u \<Rightarrow> (rs, None, st2, fd2)))"

end
