(* ===== verification/ExampleSpec.thy ===== *)
theory ExampleSpec
  imports ExampleSim
begin

text \<open>
  Properties of the stand-alone simulator: it answers the read requests as the package of \<open>ecuSim\<close>
  does, and the dashboards read its blocks as they were meant.
\<close>

section \<open>The blocks it builds\<close>

text \<open>The integer a value becomes, and a channel with a place in a block of \<open>n\<close> bytes.\<close>

definition example_raw :: "dash_field \<Rightarrow> pyfloat \<Rightarrow> int result" where
  "example_raw f v =
     bindE (if \<not> py_eq (df_scale f) (Fin 0)
            then bindE (py_div v (df_scale f)) (\<lambda>q. Inr (py_sub q (df_translate f))) else Inr v) (\<lambda>raw.
     bindE (py_int raw) (\<lambda>k. Inr (clamp (df_data f) k)))"

definition dash_placed :: "nat \<Rightarrow> dash_field \<Rightarrow> bool" where
  "dash_placed n f \<longleftrightarrow> 0 \<le> df_offset f \<and> df_offset f + int (dash_size f) \<le> int n"

definition dash_apart :: "dash_field \<Rightarrow> dash_field \<Rightarrow> bool" where
  "dash_apart f g \<longleftrightarrow> 0 \<le> df_offset g \<and>
     (df_offset f + int (dash_size f) \<le> df_offset g \<or> df_offset g + int (dash_size g) \<le> df_offset f)"

interpretation example_channels: channel_writer dash_format df_offset example_raw dash_placed example_encode_field
proof
  fix f v buf buf'
  assume "example_encode_field f v buf = Inr buf'"
  then show "buf' = buf \<or> (\<exists>k. example_raw f v = Inr k \<and> pack_into (dash_format f) buf (df_offset f) k = Inr buf')"
    by (auto simp: example_encode_field_def example_raw_def bindE_eq_Inr split: if_splits)
next
  fix f v buf buf'
  assume "example_encode_field f v buf = Inr buf'" "dash_placed (length buf) f"
  then show "\<exists>k. example_raw f v = Inr k \<and> pack_into (dash_format f) buf (df_offset f) k = Inr buf'"
    by (auto simp: example_encode_field_def example_raw_def dash_placed_def bindE_eq_Inr split: if_splits)
qed (simp add: dash_placed_def)

lemma example_encode_all_writes:
  "example_encode_all fs vals buf = example_channels.write_all (dict_get fs) vals buf"
  by (simp add: example_encode_all_def example_channels.write_all_def)

lemma example_encode_all_length: "example_encode_all fs vals buf = Inr buf' \<Longrightarrow> length buf' = length buf"
  unfolding example_encode_all_writes by (rule example_channels.write_all_length)

lemma dash_reads_example_aux:
  assumes "fst (build_example w) = Inr b"
    and "fst (example_values (shd (xw_clock w)) (xw_engine w) (xw_draws w)) = Inr vals"
    and "map_of (rev vals) n = Some v" and "dict_get (xw_fields w) n = Some f"
    and "dash_placed (nat (xw_block_size w)) f" and "df_type f = ''scalar''"
    and "\<And>m g. m \<noteq> n \<Longrightarrow> m \<in> fst ` set vals \<Longrightarrow> dict_get (xw_fields w) m = Some g \<Longrightarrow> dash_apart f g"
  shows "length b = nat (xw_block_size w) \<and>
    (\<exists>k. example_raw f v = Inr k \<and>
      decode_field b f = Inr (VFloat (py_mul (py_add (Fin (of_int k)) (df_translate f)) (df_scale f))))"
proof -
  have enc: "example_encode_all (xw_fields w) vals (zeros (nat (xw_block_size w))) = Inr b"
    using assms(1,2) by (auto simp: build_example_def case_prod_beta split: if_splits)
  have len: "length b = nat (xw_block_size w)" using example_encode_all_length [OF enc] by simp
  have "\<exists>k. example_raw f v = Inr k \<and> unpack_from (dash_format f) b (df_offset f) = Inr k"
    by (rule example_channels.write_all_value [OF enc [unfolded example_encode_all_writes] assms(3,4)])
      (use assms(5,7) in \<open>simp_all add: example_channels.disjoint_def dash_apart_def calcsize_dash_format\<close>)
  then obtain k where k: "example_raw f v = Inr k" "unpack_from (dash_format f) b (df_offset f) = Inr k" by blast
  from raw_float [OF k(2)] k(2) assms(5,6) len have
    "decode_field b f = Inr (VFloat (py_mul (py_add (Fin (of_int k)) (df_translate f)) (df_scale f)))"
    by (simp add: decode_field_def dash_placed_def)
  with k(1) len show ?thesis by blast
qed

definition example_world0 :: example_world where
  "example_world0 = \<lparr>xw_fields = [(''rpm'', rpm_field)], xw_block_size = 209, xw_signature = ''MS2'',
     xw_engine = ExampleEngine (Fin 5), xw_clock = sconst (Fin 5), xw_draws = sconst 0\<rparr>"

lemma safe_uniform_any: "safe (uniform a b) (\<lambda>x. True)"
  unfolding uniform_def by (rule safe_bind [OF safe_random]) (simp add: safe_return)

text \<open>A step of the engine never raises.\<close>

lemmas any_steps = safe_bind [OF safe_uniform_any] safe_bind [OF safe_lift] safe_return

lemma example_mode_total: "safe (example_mode dt s) (\<lambda>s. True)"
  unfolding example_mode_def example_idle_def example_cruise_def example_accel_def example_decel_def Let_def
  by (simp only: split: if_split) (intro impI conjI any_steps; simp)

lemma py_div_positive: "0 < d \<Longrightarrow> \<exists>x. py_div v (Fin d) = Inr x \<and> True"
  by (cases v) simp_all

lemma example_common_total: "safe (example_common dt s) (\<lambda>s. True)"
  unfolding example_common_def Let_def
  by (intro safe_bind [OF safe_uniform_any] safe_bind [OF safe_lift [OF py_div_positive]] safe_return; simp)

lemma example_change_mode_total: "safe (example_change_mode s) (\<lambda>s. True)"
proof -
  have "safe (choice modes (if py_lt (x_rpm s) (Fin 1000) then [lit (2/10), lit (3/10), lit (4/10), lit (1/10)]
      else if py_lt (Fin 5000) (x_rpm s) then [lit (1/10), lit (2/10), lit (1/10), lit (6/10)]
      else [lit (3/10), lit (35/100), lit (2/10), lit (15/100)])) (\<lambda>x. True)"
    by (rule safe_choice [OF _ _ _ weights_ok]) (simp_all add: modes_def)
  then show ?thesis
    unfolding example_change_mode_def Let_def
    by (rule safe_bind) (intro safe_bind [OF safe_uniform_any] safe_return; simp)
qed

lemma example_update_total: "safe (example_update dt s) (\<lambda>s. True)"
  unfolding example_update_def Let_def
  by (rule safe_bind [where Q = "\<lambda>s. True"])
    (auto intro: example_change_mode_total safe_return safe_bind [OF example_mode_total] example_common_total)

lemma example_values_rpm:
  assumes "example_seconds now s = Inr secs"
  shows "safe (example_values now s) (\<lambda>vals. map_of (rev vals) ''rpm'' = Some (x_rpm s) \<and>
    list_all (\<lambda>(m, u). m = ''rpm'' \<longrightarrow> u = x_rpm s) vals)"
  unfolding example_values_def Let_def assms
  by (intro safe_bind [OF safe_uniform_any] safe_bind [OF safe_lift [OF py_div_positive]]
      safe_bind [OF safe_lift [where P = "\<lambda>x. True"]] safe_return; simp)

section \<open>The requests it answers\<close>

lemma example_response_eq: "example_response = build_response"
  by (intro ext) (simp add: example_response_def build_response_def Let_def)

lemma page_tables: "t \<in> {0x04, 0x05, 0x06, 0x08, 0x09, 0x0A, 0x0B, 0x0C, 0x0D} \<longleftrightarrow> t \<in> set TABLE_PAGES"
  by (auto simp: TABLE_PAGES_def)

text \<open>The CAN-style reads.\<close>

lemma example_handle_read:
  assumes "hd req = 0x72" and "7 \<le> length req"
  shows "example_handle w req =
    (if req_table req = 0x0F then
       (build_response 0x00 (slice (ljust 20 0 (encode (xw_signature w) @ [0])) (req_offset req) (req_offset req + req_count req)), w)
     else if req_table req = 0x0E then
       (build_response 0x00 (slice (ljust 60 0 (encode (xw_signature w) @ [0])) (req_offset req) (req_offset req + req_count req)), w)
     else if req_table req = 0x07 then
       (bindE (fst (build_example w)) (\<lambda>d. build_response 0x01 (slice d (req_offset req) (req_offset req + req_count req))),
        snd (build_example w))
     else (build_response 0x00 (zeros (req_count req)), w))"
proof -
  have ne: "req \<noteq> []" "req \<noteq> [x]" for x using assms by auto
  have cmd: "slice req 0 1 = encode ''r'' \<and> length req \<ge> 7" "req \<noteq> encode ''Q''" "req \<noteq> encode ''A''"
    using assms ne slice_cmd [OF ne(1)] by (simp_all add: encode_def)
  show ?thesis
    unfolding example_handle_def if_not_P [OF cmd(2)] if_not_P [OF cmd(3)] if_P [OF cmd(1)] Let_def case_prod_beta
    by (simp only: if_cancel example_response_eq req_table_def req_offset_def req_count_def)
qed

text \<open>
  C33: to a client that only reads, the stand-alone simulator and the one of \<open>ecuSim\<close> are the same
  ECU. On the signature query, the realtime query and every complete CAN-style read, the
  stand-alone simulator writes the response, or raises the exception, of the protocol handler that
  has the same signature, no stored pages and the stand-alone simulator's block as its OUTPC
  builder, and goes on in the same state.
\<close>

theorem example_answers_as_simulator:
  assumes "req = encode ''Q'' \<or> req = encode ''A'' \<or> (hd req = 0x72 \<and> 7 \<le> length req)"
    and "p = set_outpc_builder build_example (SerialProtocol (Some (ProtocolConfig\<lparr>signature := xw_signature w\<rparr>)))"
  shows "handle_request p w req = (Some (fst (example_handle w req)), p, snd (example_handle w req))"
proof -
  have p: "config p = ProtocolConfig\<lparr>signature := xw_signature w\<rparr>" "page_data p = []" "outpc_builder p = Some build_example"
    by (simp_all add: assms(2) set_outpc_builder_def SerialProtocol_def)
  consider "req = encode ''Q''" | "req = encode ''A''" | "hd req = 0x72" "7 \<le> length req" using assms(1) by blast
  then show ?thesis
  proof cases
    case 1
    then show ?thesis
      by (simp add: handle_request_hd encode_def Let_def handle_signature_query_def example_handle_def p FLAG_OK_def
          example_response_eq)
  next
    case 2
    then show ?thesis
      by (simp add: handle_request_hd encode_def Let_def handle_realtime_query_def fetch_outpc_def example_handle_def
          p FLAG_REALTIME_def example_response_eq case_prod_beta)
  next
    case 3
    then have ne: "req \<noteq> []" "req \<noteq> [x]" for x by auto
    have h: "handle_request p w req = (Some (fst (handle_can_read p w req)), p, snd (handle_can_read p w req))"
      using 3 ne by (simp add: handle_request_hd Let_def case_prod_beta)
    note e = example_handle_read [OF 3]
    show ?thesis
      unfolding h e handle_can_read_def fetch_outpc_def p FLAG_OK_def FLAG_REALTIME_def Let_def option.case map_of.simps
        TABLE_SIGNATURE_def TABLE_VERSION_def TABLE_OUTPC_def case_prod_beta if_cancel
      by (cases "req_table req = 0x0F"; cases "req_table req = 0x0E"; cases "req_table req = 0x07")
        (simp_all only: if_True if_False refl fst_conv snd_conv, simp_all add: ProtocolConfig_def)
  qed
qed

theorem example_answers_as_simulator_witness:
  "fst (handle_request (set_outpc_builder build_example (SerialProtocol (Some (ProtocolConfig\<lparr>signature := ''MS2''\<rparr>))))
      example_world0 (encode ''Q'')) = Some (fst (example_handle example_world0 (encode ''Q'')))"
  by (subst example_answers_as_simulator) (simp_all add: example_world0_def)

end
