(* ===== verification/ExampleRealtime.thy ===== *)
theory ExampleRealtime
  imports ExampleSpec
begin

text \<open>
  The stand-alone simulators over a session: their engine stays in its envelope, and their blocks
  are always built.
\<close>

section \<open>The envelope of the engine\<close>

text \<open>The envelope without the mode timer, which a step breaks and repairs.\<close>

definition example_envelope :: "example_engine \<Rightarrow> bool" where
  "example_envelope s \<longleftrightarrow>
     inside 0 6501 (x_rpm s) \<and> inside 830 6500 (x_target_rpm s) \<and> inside 20 100 (x_map s) \<and>
     inside 0 95 (x_tps s) \<and> inside 12 16 (x_afr s) \<and> inside 10 35 (x_advance s) \<and>
     inside 1 11 (x_pulse_width s) \<and> inside 2 3 (x_dwell s) \<and> inside 13 15 (x_battery s) \<and>
     inside (- 2097152) 2097152 (x_coolant s) \<and> inside (- 2097152) 2097152 (x_mat s) \<and>
     inside 0 (2 ^ 40) (x_start_time s) \<and> x_mode s \<in> set modes"

definition example_engine_ok :: "example_engine \<Rightarrow> bool" where
  "example_engine_ok s \<longleftrightarrow> example_envelope s \<and> inside 0 999 (x_mode_timer s)"

lemma ExampleEngine_ok: "inside 0 (2 ^ 40) now \<Longrightarrow> example_engine_ok (ExampleEngine now)"
proof -
  have "inside 12 16 (lit (147/10))" "inside 1 11 (lit (25/10))" "inside 13 15 (lit (141/10))"
    by (rule inside_rnd; simp add: float_bounds)+
  then show "inside 0 (2 ^ 40) now \<Longrightarrow> example_engine_ok (ExampleEngine now)"
    by (simp add: example_engine_ok_def example_envelope_def ExampleEngine_def modes_def)
qed

lemma example_change_mode_safe:
  assumes s: "example_envelope s" shows "safe (example_change_mode s) example_engine_ok"
  unfolding example_change_mode_def Let_def
proof (rule safe_bind [OF safe_choice [where P = "\<lambda>m. m \<in> set modes", OF _ _ _ weights_ok]])
  fix m assume m: "m \<in> set modes"
  show "safe (bindG (uniform (Fin 2) (Fin 8)) (\<lambda>t. returnG (s\<lparr>x_mode := m, x_mode_timer := t\<rparr>))) example_engine_ok"
  proof (intro bind_uniform safe_return)
    fix t assume "inside 2 8 t"
    then have "inside 0 999 t" by (rule inside_mono) simp_all
    with m s show "example_engine_ok (s\<lparr>x_mode := m, x_mode_timer := t\<rparr>)"
      by (simp add: example_engine_ok_def example_envelope_def)
  qed (simp_all add: float_bounds)
qed (auto simp: modes_def)

lemma example_idle_safe:
  assumes s: "example_engine_ok s" and dt: "dt_ok dt" shows "safe (example_idle dt s) example_engine_ok"
  unfolding example_idle_def
proof (intro bind_uniform bind_uniform_half safe_return)
  fix u1 u2 u3 u4
  assume u1: "inside (- 20) 20 u1" and u2: "inside (- 2) 2 u2" and u3: "inside (- (1 / 2)) (3 / 4) u3" and u4: "inside (- 1) 1 u4"
  have "inside 830 6500 (py_add (Fin 850) u1)" by (rule add_Fin [OF u1]) (simp_all add: float_bounds)
  moreover have "inside 0 95 (py_max (Fin 0) (py_sub (x_tps s) (py_mul dt (Fin 50))))"
    by (rule decay [OF dt, of 0 95]) (use s in \<open>simp_all add: example_engine_ok_def example_envelope_def float_bounds\<close>)
  moreover have "inside 20 100 (py_add (Fin 30) u2)" by (rule add_Fin [OF u2]) (simp_all add: float_bounds)
  moreover have "inside 12 16 (py_add (lit (147/10)) u3)"
    by (rule add_lit [OF u3, of "29 / 2" _ 15]) (simp_all add: float_bounds)
  moreover have "inside 10 35 (py_add (Fin 18) u4)" by (rule add_Fin [OF u4]) (simp_all add: float_bounds)
  ultimately show "example_engine_ok (s\<lparr>x_target_rpm := py_add (Fin 850) u1,
       x_tps := py_max (Fin 0) (py_sub (x_tps s) (py_mul dt (Fin 50))), x_map := py_add (Fin 30) u2,
       x_afr := py_add (lit (147/10)) u3, x_advance := py_add (Fin 18) u4\<rparr>)"
    using s by (simp add: example_engine_ok_def example_envelope_def)
qed (simp_all add: float_bounds)

lemma example_cruise_safe:
  assumes s: "example_engine_ok s" shows "safe (example_cruise s) example_engine_ok"
  unfolding example_cruise_def
proof (intro bind_uniform bind_uniform_quarter safe_return)
  fix u1 u2 u3 u4 u5
  assume u1: "inside (- 100) 100 u1" and u2: "inside (- 3) 3 u2" and u3: "inside (- 5) 5 u3"
    and u4: "inside (- (1 / 4)) (1 / 2) u4" and u5: "inside (- 2) 2 u5"
  have "inside 830 6500 (py_add (Fin 2800) u1)" by (rule add_Fin [OF u1]) (simp_all add: float_bounds)
  moreover have "inside 0 95 (py_add (Fin 25) u2)" by (rule add_Fin [OF u2]) (simp_all add: float_bounds)
  moreover have "inside 20 100 (py_add (Fin 55) u3)" by (rule add_Fin [OF u3]) (simp_all add: float_bounds)
  moreover have "inside 12 16 (py_add (lit (145/10)) u4)"
    by (rule add_lit [OF u4, of "29 / 2" _ "29 / 2"]) (simp_all add: float_bounds)
  moreover have "inside 10 35 (py_add (Fin 28) u5)" by (rule add_Fin [OF u5]) (simp_all add: float_bounds)
  ultimately show "example_engine_ok (s\<lparr>x_target_rpm := py_add (Fin 2800) u1, x_tps := py_add (Fin 25) u2,
       x_map := py_add (Fin 55) u3, x_afr := py_add (lit (145/10)) u4, x_advance := py_add (Fin 28) u5\<rparr>)"
    using s by (simp add: example_engine_ok_def example_envelope_def)
qed (simp_all add: float_bounds)

lemma example_accel_safe:
  assumes s: "example_engine_ok s" and dt: "dt_ok dt" shows "safe (example_accel dt s) example_engine_ok"
  unfolding example_accel_def Let_def
proof (intro bind_uniform_half safe_return)
  let ?target = "py_min (Fin 6500) (py_add (x_target_rpm s) (py_mul dt (Fin 2000)))"
  let ?throttle = "py_min (Fin 95) (py_add (x_tps s) (py_mul dt (Fin 100)))"
  let ?pressure = "py_min (Fin 100) (py_add (Fin 40) (py_mul ?throttle (lit (6/10))))"
  fix u assume u: "inside (- (1 / 2)) (3 / 4) u"
  have "inside 830 6500 ?target"
    by (rule growth [OF dt, of 830 6500]) (use s in \<open>simp_all add: example_engine_ok_def example_envelope_def float_bounds\<close>)
  moreover have throttle: "inside 0 95 ?throttle"
    by (rule growth [OF dt, of 0 95]) (use s in \<open>simp_all add: example_engine_ok_def example_envelope_def float_bounds\<close>)
  note full_load [OF throttle]
  moreover from this(1) have "inside 20 100 ?pressure" by (rule inside_mono) simp_all
  moreover have "inside 12 16 (py_add (lit (125/10)) u)"
    by (rule add_lit [OF u, of "25 / 2" _ "25 / 2"]) (simp_all add: float_bounds)
  ultimately show "example_engine_ok (s\<lparr>x_target_rpm := ?target, x_tps := ?throttle, x_map := ?pressure,
      x_afr := py_add (lit (125/10)) u, x_advance := py_max (Fin 10) (py_sub (Fin 35) (py_mul ?pressure (lit (2/10))))\<rparr>)"
    using s throttle by (simp add: example_engine_ok_def example_envelope_def)
qed (simp_all add: float_bounds)

lemma example_decel_safe:
  assumes s: "example_engine_ok s" and dt: "dt_ok dt" shows "safe (example_decel dt s) example_engine_ok"
  unfolding example_decel_def
proof (intro bind_uniform bind_uniform_quarter safe_return)
  fix u1 u2 assume u1: "inside (- (1 / 4)) (1 / 2) u1" and u2: "inside (- 2) 2 u2"
  have "inside 1200 6500 (py_max (Fin 1200) (py_sub (x_target_rpm s) (py_mul dt (Fin 1500))))"
    by (rule decay [OF dt, of 830 6500]) (use s in \<open>simp_all add: example_engine_ok_def example_envelope_def float_bounds\<close>)
  then have "inside 830 6500 (py_max (Fin 1200) (py_sub (x_target_rpm s) (py_mul dt (Fin 1500))))"
    by (rule inside_mono) simp_all
  moreover have "inside 0 95 (py_max (Fin 0) (py_sub (x_tps s) (py_mul dt (Fin 80))))"
    by (rule decay [OF dt, of 0 95]) (use s in \<open>simp_all add: example_engine_ok_def example_envelope_def float_bounds\<close>)
  moreover have "inside 20 100 (py_max (Fin 20) (py_sub (x_map s) (py_mul dt (Fin 30))))"
    by (rule decay [OF dt, of 20 100]) (use s in \<open>simp_all add: example_engine_ok_def example_envelope_def float_bounds\<close>)
  moreover have "inside 12 16 (py_add (lit (155/10)) u1)"
    by (rule add_lit [OF u1, of "31 / 2" _ "31 / 2"]) (simp_all add: float_bounds)
  moreover have "inside 10 35 (py_add (Fin 25) u2)" by (rule add_Fin [OF u2]) (simp_all add: float_bounds)
  ultimately show "example_engine_ok (s\<lparr>x_target_rpm := py_max (Fin 1200) (py_sub (x_target_rpm s) (py_mul dt (Fin 1500))),
       x_tps := py_max (Fin 0) (py_sub (x_tps s) (py_mul dt (Fin 80))),
       x_map := py_max (Fin 20) (py_sub (x_map s) (py_mul dt (Fin 30))),
       x_afr := py_add (lit (155/10)) u1, x_advance := py_add (Fin 25) u2\<rparr>)"
    using s by (simp add: example_engine_ok_def example_envelope_def)
qed (simp_all add: float_bounds)

lemma example_mode_safe: "example_engine_ok s \<Longrightarrow> dt_ok dt \<Longrightarrow> safe (example_mode dt s) example_engine_ok"
  by (simp add: example_mode_def example_idle_safe example_cruise_safe example_accel_safe example_decel_safe safe_return)

lemma example_common_safe:
  assumes s0: "example_engine_ok s0" and dt: "dt_real dt" shows "safe (example_common dt s0) example_engine_ok"
proof -
  let ?rpm = "py_max (Fin 0) (py_add (x_rpm s0) (py_mul (py_sub (x_target_rpm s0) (x_rpm s0)) (py_min (Fin 1) (py_mul dt (Fin 5)))))"
  define s where "s = s0\<lparr>x_rpm := ?rpm\<rparr>"
  have "inside 0 6501 ?rpm"
    by (rule smoothed) (use s0 dt_real_ok [OF dt] in \<open>simp_all add: example_engine_ok_def example_envelope_def\<close>)
  with s0 have s: "example_engine_ok s" by (simp add: s_def example_engine_ok_def example_envelope_def)
  then have parts: "inside 0 6501 (x_rpm s)" "inside 20 100 (x_map s)" "inside (- 2097152) 2097152 (x_coolant s)"
    "inside (- 2097152) 2097152 (x_mat s)"
    by (simp_all add: example_engine_ok_def example_envelope_def)
  have load: "\<exists>x. py_div (x_map s) (Fin 100) = Inr x \<and> inside 0 1 x"
    by (rule inside_div [OF parts(2), of 100 100 100]) (simp_all add: float_bounds)
  have flow: "\<exists>x. py_div (x_rpm s) (Fin 6500) = Inr x \<and> inside 0 (3 / 2) x"
    by (rule inside_div [OF parts(1), of 6500 6500 6500]) (simp_all add: float_bounds)
  have k: "inside (1 / 128) (1 / 16) (lit (1/100))" "inside (1 / 128) (1 / 16) (lit (5/100))"
    using representable_frac [of 1 7] by (auto intro!: inside_rnd simp: float_bounds)
  show ?thesis
    unfolding example_common_def Let_def s_def [symmetric]
  proof (intro bind_lift [OF load] bind_lift [OF flow] safe_return bind_uniform_quarter [where x = "1/10"]
      bind_uniform_quarter [where x = "2/10"] bind_uniform_quarter [where x = "5/100"] bind_uniform_lit [where x = "5/10"])
    fix load flow u1 u2 u3 u4 u5
    assume l: "inside 0 1 load" and f: "inside 0 (3 / 2) flow" and u: "inside (- (1 / 4)) (1 / 2) u1" "inside (- (1 / 4)) (1 / 2) u2"
      "inside (- (1 / 2)) 1 u3" "inside (- (1 / 4)) (1 / 2) u4" "inside (- (1 / 4)) (1 / 2) u5"
    have u4: "inside (- (1 / 2)) 1 u4" using u(4) by (rule inside_mono) simp_all
    have "inside 0 45 (py_mul flow (Fin 30))"
      by (rule inside_mul [OF f, of 30 30]) (simp_all add: float_bounds)
    then have m: "inside 0 200 (py_add (Fin 90) (py_mul flow (Fin 30)))" by (rule add_Fin) (simp_all add: float_bounds)
    have c: "inside 0 200 (if py_lt (Fin 500) (x_rpm s) then Fin 190 else Fin 70)" by simp
    have dw: "inside 2 3 (py_add (lit (25/10)) u2)"
      by (rule add_lit [OF u(2), of "5 / 2" _ "5 / 2"]) (simp_all add: float_bounds)
    from approach_stays [OF parts(3) c dt k(1) u(3)] approach_stays [OF parts(4) m dt k(2) u4]
      inside_mono [OF pulse [OF l u(1)], of 1 11] volts [OF f u(5)] dw s
    show "example_engine_ok (s\<lparr>x_pulse_width := py_add (py_add (lit (15/10)) (py_mul load (Fin 8))) u1,
       x_dwell := py_add (lit (25/10)) u2,
       x_coolant := py_add (approach (if py_lt (Fin 500) (x_rpm s) then Fin 190 else Fin 70) dt (lit (1/100)) (x_coolant s)) u3,
       x_mat := py_add (approach (py_add (Fin 90) (py_mul flow (Fin 30))) dt (lit (5/100)) (x_mat s)) u4,
       x_battery := py_add (py_sub (lit (141/10)) (py_mul flow (lit (3/10)))) u5,
       x_warmup := py_lt (py_add (approach (if py_lt (Fin 500) (x_rpm s) then Fin 190 else Fin 70) dt (lit (1/100)) (x_coolant s)) u3) (Fin 160),
       x_cranking := False\<rparr>)"
      by (simp add: example_engine_ok_def example_envelope_def)
  qed simp_all
qed

lemma example_update_safe:
  assumes s: "example_engine_ok s" and dt: "dt_real dt" shows "safe (example_update dt s) example_engine_ok"
proof -
  let ?s1 = "s\<lparr>x_mode_timer := py_sub (x_mode_timer s) dt\<rparr>"
  have env: "example_envelope ?s1" and timer: "inside 0 999 (x_mode_timer s)"
    using s by (simp_all add: example_engine_ok_def example_envelope_def)
  have "inside (- 20) 999 (py_sub (x_mode_timer s) dt)"
    by (rule inside_sub [OF timer, of 0 20]) (use dt_real_ok [OF dt] in \<open>simp_all add: float_bounds\<close>)
  then have ok1: "example_engine_ok ?s1" if "\<not> py_le (x_mode_timer ?s1) (Fin 0)"
    using that env by (auto simp: example_engine_ok_def inside_def py_le_def)
  have 1: "safe (if py_le (x_mode_timer ?s1) (Fin 0) then example_change_mode ?s1 else returnG ?s1) example_engine_ok"
    using example_change_mode_safe [OF env] ok1 by (simp add: safe_return)
  show ?thesis
    unfolding example_update_def Let_def
    by (rule safe_bind [OF 1], rule safe_bind [OF example_mode_safe [OF _ dt_real_ok [OF dt]]], assumption,
        rule example_common_safe [OF _ dt])
qed

section \<open>Every block is built\<close>

text \<open>A channel that can be written: not before the block, and of moderate scaling.\<close>

definition dash_writable :: "dash_field \<Rightarrow> bool" where
  "dash_writable f \<longleftrightarrow> 0 \<le> df_offset f \<and> moderate (df_translate f) \<and>
     (\<exists>s. df_scale f = Fin s \<and> (s = 0 \<or> 1 \<le> \<bar>s\<bar> * 2 ^ 60))"

lemma quotient_finite:
  assumes "moderate v" and "1 \<le> \<bar>s\<bar> * 2 ^ 60"
  shows "\<exists>q. py_div v (Fin s) = Inr q \<and> inside (- (2 ^ 120)) (2 ^ 120) q"
proof -
  obtain u where u: "v = Fin u" "\<bar>u\<bar> \<le> 2 ^ 60" using assms(1) by (auto simp: moderate_def inside_def abs_le_iff)
  have s: "s \<noteq> 0" using assms(2) by auto
  have "\<bar>u\<bar> \<le> 2 ^ 60 * (\<bar>s\<bar> * 2 ^ 60)"
    using u(2) assms(2) mult_left_mono [of 1 "\<bar>s\<bar> * 2 ^ 60" "2 ^ 60 :: rat"] by simp
  then have "\<bar>u\<bar> / \<bar>s\<bar> \<le> 2 ^ 60 * 2 ^ 60" using s by (simp add: divide_le_eq mult.assoc)
  then have "\<bar>u / s\<bar> \<le> 2 ^ 120" by simp
  then have "- (2 ^ 120) \<le> u / s" "u / s \<le> 2 ^ 120" unfolding abs_le_iff by linarith+
  with representable_power [of 120] u(1) s show ?thesis by (auto intro: inside_rnd)
qed

lemma example_raw_total:
  assumes "moderate v" and "dash_writable f"
  shows "\<exists>k. example_raw f v = Inr (clamp (df_data f) k)"
proof -
  obtain s where s: "df_scale f = Fin s" "s = 0 \<or> 1 \<le> \<bar>s\<bar> * 2 ^ 60" and t: "moderate (df_translate f)"
    using assms(2) by (auto simp: dash_writable_def)
  show ?thesis
  proof (cases "s = 0")
    case True
    with s(1) assms(1) show ?thesis by (auto simp: example_raw_def moderate_def inside_def)
  next
    case False
    with s(2) quotient_finite [OF assms(1)] obtain q where q: "py_div v (Fin s) = Inr q" "inside (- (2 ^ 120)) (2 ^ 120) q" by blast
    have "representable (- (2 ^ 121))" "representable (2 ^ 121)" using representable_power [of 121] by simp_all
    from inside_sub [OF q(2) t [unfolded moderate_def] this] have "inside (- (2 ^ 121)) (2 ^ 121) (py_sub q (df_translate f))" by simp
    with q(1) s(1) False show ?thesis by (auto simp: example_raw_def inside_def)
  qed
qed

lemma dash_format_fmt_of: "snd (dash_format f) = fmt_of (df_data f)"
  by (simp add: dash_format_def fmt_of_def Let_def)

lemma example_encode_total: "moderate v \<Longrightarrow> dash_writable f \<Longrightarrow> \<exists>buf'. example_encode_field f v buf = Inr buf'"
proof -
  assume v: "moderate v" and f: "dash_writable f"
  from example_raw_total [OF this] obtain k where k: "example_raw f v = Inr (clamp (df_data f) k)" ..
  have fmt: "in_fmt (snd (dash_format f)) (clamp (df_data f) k)"
    using clamp_in_fmt [of "df_data f"] by (simp add: dash_format_fmt_of)
  show ?thesis
  proof (cases "df_offset f + int (dash_size f) > int (length buf)")
    case False
    with f fmt have "\<exists>b. pack_into (dash_format f) buf (df_offset f) (clamp (df_data f) k) = Inr b"
      by (intro pack_into_nonneg) (simp_all add: dash_writable_def calcsize_dash_format)
    with False k show ?thesis
      by (auto simp: example_encode_field_def example_raw_def bindE_eq_Inr)
  qed (simp add: example_encode_field_def)
qed

lemma example_encode_all_total:
  assumes "list_all (\<lambda>(n, v). moderate v) vals" and "list_all (\<lambda>(n, f). dash_writable f) fs"
  shows "\<exists>buf'. example_encode_all fs vals buf = Inr buf'"
proof -
  have "\<exists>b'. (case x of (n, v) \<Rightarrow> \<lambda>b. case dict_get fs n of Some f \<Rightarrow> example_encode_field f v b | None \<Rightarrow> Inr b) b = Inr b' \<and> True"
    if "x \<in> set vals" for x b
    using that assms example_encode_total
    by (fastforce simp: list_all_iff split: option.splits dest: map_of_SomeD)
  from foldE_total [of "\<lambda>_. True" buf vals, OF _ this] show ?thesis
    unfolding example_encode_all_def by auto
qed

lemma example_seconds_moderate:
  assumes "inside 0 (2 ^ 40) now" and "inside 0 (2 ^ 40) (x_start_time s)"
  shows "\<exists>k. example_seconds now s = Inr k \<and> moderate (Fin (of_int k))"
proof -
  have rep: "representable (2 ^ 40)" "representable (- (2 ^ 40))" using representable_power [of 40] by simp_all
  have "inside (- (2 ^ 40)) (2 ^ 40) (py_sub now (x_start_time s))"
    by (rule inside_sub [OF assms rep(2,1)]) simp_all
  then obtain k where k: "example_seconds now s = Inr k" "- (2 ^ 40) \<le> k" "k \<le> 2 ^ 40"
    using inside_py_int [of "- (2 ^ 40)" "2 ^ 40" "py_sub now (x_start_time s)"] by (auto simp: example_seconds_def)
  then have "(of_int (- (2 ^ 40)) :: rat) \<le> of_int k" "(of_int k :: rat) \<le> of_int (2 ^ 40)"
    by (simp_all only: of_int_le_iff)
  then have "moderate (Fin (of_int k))" by (simp add: moderate_def)
  with k(1) show ?thesis by blast
qed

lemma example_values_safe:
  assumes s: "example_engine_ok s" and now: "inside 0 (2 ^ 40) now"
  shows "safe (example_values now s) (list_all (\<lambda>(n, v). moderate v))"
proof -
  have start: "inside 0 (2 ^ 40) (x_start_time s)" and map: "inside 20 100 (x_map s)" and afr: "inside 12 16 (x_afr s)"
    using s by (simp_all add: example_engine_ok_def example_envelope_def)
  have load: "\<exists>x. py_div (x_map s) (Fin 100) = Inr x \<and> inside 0 1 x"
    by (rule inside_div [OF map, of 100 100 100]) (simp_all add: float_bounds)
  have eng: "list_all moderate [x_rpm s, x_advance s, x_map s, x_tps s, x_coolant s, x_mat s, x_battery s, x_afr s,
      x_pulse_width s, x_dwell s]"
    using s by (auto simp: example_engine_ok_def example_envelope_def intro: moderate_inside)
  have "inside 101 102 (lit (1013/10))" "inside 14 15 (lit (147/10))" "inside 12 13 (lit (125/10))"
    by (rule inside_rnd; simp add: float_bounds)+
  then have lits: "moderate (lit (1013/10))" "moderate (lit (147/10))" "moderate (lit (125/10))"
    by (auto intro: moderate_inside)
  have bits: "example_engine_bits s \<in> {0, 1, 2, 3, 0xC, 0xD, 0xE, 0xF}" by (auto simp: example_engine_bits_def Let_def)
  then have bits: "moderate (Fin (of_int (example_engine_bits s)))" by (auto simp: moderate_def)
  show ?thesis
    unfolding example_values_def Let_def
  proof (rule bind_lift [OF example_seconds_moderate [OF now start]],
      intro bind_lift [OF load] safe_return bind_uniform_quarter bind_uniform)
    fix secs load u1 u2 u3 u4 u5
    assume secs: "moderate (Fin (of_int secs))" and l: "inside 0 1 load" and u: "inside (- (1 / 4)) (1 / 2) u1" "inside (- 3) 3 u2" "inside (- 3) 3 u3"
      "inside (- 5) 5 u4" "inside (- 10) 10 u5"
    have "inside 0 50 (py_mul load (Fin 50))" by (rule inside_mul [OF l, of 50 50]) (simp_all add: float_bounds)
    then have "inside 75 125 (py_add (Fin 75) (py_mul load (Fin 50)))" by (rule add_Fin) (simp_all add: float_bounds)
    then have ve: "moderate (py_add (Fin 75) (py_mul load (Fin 50)))" by (rule moderate_inside) simp_all
    have "inside 11 17 (py_add (x_afr s) u1)" by (rule inside_add [OF afr u(1)]) (simp_all add: float_bounds)
    moreover have "inside 97 103 (py_add (Fin 100) u2)" "inside 97 103 (py_add (Fin 100) u3)"
      by (rule add_Fin [OF u(2)] add_Fin [OF u(3)]; simp add: float_bounds)+
    ultimately have "moderate (py_add (x_afr s) u1)" "moderate (py_add (Fin 100) u2)" "moderate (py_add (Fin 100) u3)"
      "moderate u4" "moderate u5"
      using u(4,5) by (auto intro: moderate_inside)
    with eng lits bits secs ve
    show "list_all (\<lambda>(n, v). moderate v) [
       (''seconds'', Fin (of_int secs)), (''rpm'', x_rpm s), (''advance'', x_advance s), (''map'', x_map s),
       (''tps'', x_tps s), (''coolant'', x_coolant s), (''mat'', x_mat s), (''batteryVoltage'', x_battery s),
       (''afr1'', x_afr s), (''afr2'', py_add (x_afr s) u1), (''pulseWidth1'', x_pulse_width s),
       (''pulseWidth2'', x_pulse_width s), (''dwell'', x_dwell s), (''barometer'', lit (1013/10)),
       (''knock'', Fin 0), (''egoCorrection1'', py_add (Fin 100) u2), (''egoCorrection2'', py_add (Fin 100) u3),
       (''airCorrection'', Fin 100), (''warmupEnrich'', if x_warmup s then Fin 120 else Fin 100),
       (''accelEnrich'', Fin 0), (''tpsfuelcut'', Fin 100), (''baroCorrection'', Fin 100),
       (''gammaEnrich'', if x_warmup s then Fin 110 else Fin 100), (''veCurr1'', py_add (Fin 75) (py_mul load (Fin 50))),
       (''veCurr2'', py_add (Fin 75) (py_mul load (Fin 50))),
       (''coldAdvDeg'', if x_warmup s then Fin 2 else Fin 0), (''TPSdot'', u4), (''MAPdot'', u5),
       (''fuelload'', x_map s), (''ignload'', x_map s), (''afrtgt1'', if py_lt (x_tps s) (Fin 80) then lit (147/10) else lit (125/10)),
       (''afrtgt2'', if py_lt (x_tps s) (Fin 80) then lit (147/10) else lit (125/10)),
       (''iacstep'', if py_lt (x_rpm s) (Fin 1000) then Fin 30 else Fin 0),
       (''idleDC'', if py_lt (x_rpm s) (Fin 1000) then Fin 35 else Fin 0),
       (''engine'', Fin (of_int (example_engine_bits s))), (''squirt'', if x_running s then Fin 0x28 else Fin 0)]"
      by simp
  qed (simp_all add: float_bounds)
qed

section \<open>Worlds that can serve\<close>

definition example_world_ok :: "example_world \<Rightarrow> bool" where
  "example_world_ok w \<longleftrightarrow> 0 \<le> xw_block_size w \<and> xw_block_size w < 65535 \<and> length (xw_signature w) < 65534 \<and>
     list_all (\<lambda>(n, f). dash_writable f) (xw_fields w) \<and> example_engine_ok (xw_engine w) \<and>
     clock_ok (xw_clock w) \<and> draws_ok (xw_draws w)"

lemma build_example_ok:
  assumes "example_world_ok w"
  shows "\<exists>b w'. build_example w = (Inr b, w') \<and> length b < 65535 \<and> example_world_ok w'"
proof -
  have "shd (xw_clock w) \<in> sset (xw_clock w)" "sset (stl (xw_clock w)) \<subseteq> sset (xw_clock w)"
    by (cases "xw_clock w"; auto)+
  with assms have c: "inside 0 (2 ^ 40) (shd (xw_clock w))" "clock_ok (stl (xw_clock w))"
    by (auto simp: example_world_ok_def clock_ok_def)
  from assms have w: "example_engine_ok (xw_engine w)" "draws_ok (xw_draws w)" "list_all (\<lambda>(n, f). dash_writable f) (xw_fields w)"
    "0 \<le> xw_block_size w" "xw_block_size w < 65535" by (simp_all add: example_world_ok_def)
  obtain vals g where v: "example_values (shd (xw_clock w)) (xw_engine w) (xw_draws w) = (Inr vals, g)" "draws_ok g"
    "list_all (\<lambda>(n, v). moderate v) vals"
    using safe_run [OF example_values_safe [OF w(1) c(1)] w(2)] by blast
  from example_encode_all_total [OF v(3) w(3)] obtain b where
    b: "example_encode_all (xw_fields w) vals (zeros (nat (xw_block_size w))) = Inr b" by blast
  have "length b < 65535" using example_encode_all_length [OF b] w(4,5) by simp
  with v b c assms show ?thesis by (auto simp: build_example_def example_world_ok_def)
qed

lemma example_response_ok: "length d < 65535 \<Longrightarrow> \<exists>r. example_response f d = Inr r"
  by (simp add: example_response_eq build_response_eq)

lemma rpm_field_writable: "dash_writable rpm_field"
  by (simp add: dash_writable_def rpm_field_def)

lemma example_world0_ok: "example_world_ok example_world0"
proof -
  have "example_engine_ok (ExampleEngine (Fin 5))" by (rule ExampleEngine_ok) simp
  with rpm_field_writable show ?thesis
    by (simp add: example_world_ok_def example_world0_def clock_ok_def draws_ok_def)
qed

end
