(* ===== verification/WorkSim.thy ===== *)
theory WorkSim
  imports ExampleRealtime
begin

text \<open>
  \<open>work-ms2d-daemon/ms2_ecu_simulator.py\<close>: an earlier version of the stand-alone simulator. Its
  parser, engine and block builder are the code of \<open>exampleFiles/ms2_ecu_simulator.py\<close>, line for line;
  its reader of requests keeps no buffer, and it only knows the two queries.
\<close>

section \<open>The parts shared with the later version\<close>

definition work_field_line :: "string \<Rightarrow> dash_field option result" where
  "work_field_line = example_field_line"

definition work_parse_ini :: "bytes \<Rightarrow> ((string, dash_field) dict \<times> int \<times> string) result" where
  "work_parse_ini = parse_example_ini"

definition work_engine :: "pyfloat \<Rightarrow> example_engine" where
  "work_engine = ExampleEngine"

definition work_change_mode :: "example_engine \<Rightarrow> example_engine gen" where
  "work_change_mode = example_change_mode"

definition work_update :: "pyfloat \<Rightarrow> example_engine \<Rightarrow> example_engine gen" where
  "work_update = example_update"

definition work_encode_field :: "dash_field \<Rightarrow> pyfloat \<Rightarrow> bytes \<Rightarrow> bytes result" where
  "work_encode_field = example_encode_field"

definition work_build :: "example_world \<Rightarrow> bytes result \<times> example_world" where
  "work_build = build_example"

definition work_response :: "byte \<Rightarrow> bytes \<Rightarrow> bytes result" where
  "work_response = example_response"

lemmas work_shared = work_field_line_def work_parse_ini_def work_engine_def work_change_mode_def
  work_update_def work_encode_field_def work_build_def work_response_def

section \<open>Reading a request\<close>

text \<open>
  The pseudo-terminal as two operations of the system: \<open>select\<close> with its time-out, and \<open>os.read(fd, n)\<close>,
  which gives at most \<open>n\<close> bytes, none at the end of the file, or raises.
\<close>

type_synonym 's tty_select = "'s \<Rightarrow> bool \<times> 's"
type_synonym 's tty_read = "nat \<Rightarrow> 's \<Rightarrow> bytes result \<times> 's"

text \<open>The loop \<open>while len(payload) < size\<close>.\<close>

lemma chunk_less: "c \<noteq> [] \<Longrightarrow> a < n \<Longrightarrow> n - (a + length c) < n - a"
  by (cases c) auto

function work_payload :: "'s tty_read \<Rightarrow> nat \<Rightarrow> bytes \<Rightarrow> 's \<Rightarrow> bytes result \<times> 's" where
  "work_payload rd want payload s =
     (if length payload < want then
        (case rd (want - length payload) s of
           (Inl e, s') \<Rightarrow> (Inl e, s')
         | (Inr chunk, s') \<Rightarrow>
             if chunk = [] then (Inr payload, s') else work_payload rd want (payload @ chunk) s')
      else (Inr payload, s))"
  by pat_completeness auto
termination
  by (relation "measure (\<lambda>(rd, want, payload, s). want - length payload)") (auto simp: chunk_less)

declare work_payload.simps [simp del]

text \<open>The statements after the \<open>select\<close>, each after the reads before it.\<close>

definition read_then :: "bytes result \<times> 's \<Rightarrow> (bytes \<Rightarrow> 's \<Rightarrow> 'a result \<times> 's) \<Rightarrow> 'a result \<times> 's" where
  "read_then m f = (case m of (Inl e, s) \<Rightarrow> (Inl e, s) | (Inr x, s) \<Rightarrow> f x s)"

definition work_frame :: "'s tty_read \<Rightarrow> 's \<Rightarrow> bytes option result \<times> 's" where
  "work_frame rd s0 =
     read_then (rd 2 s0) (\<lambda>size_bytes s1.
     if length size_bytes < 2 then (Inr None, s1)
     else read_then (work_payload rd (be_nat size_bytes) [] s1) (\<lambda>payload s2.
     read_then (rd 4 s2) (\<lambda>crc_bytes s3.
     if length crc_bytes < 4 then (Inr None, s3)
     else if be_nat crc_bytes \<noteq> unat (crc32_ms payload) then (Inr None, s3)
     else (Inr (Some payload), s3))))"

definition work_read_request :: "'s tty_select \<Rightarrow> 's tty_read \<Rightarrow> 's \<Rightarrow> bytes option result \<times> 's" where
  "work_read_request ready rd s0 =
     (let (r, s1) = ready s0 in
      if \<not> r then (Inr None, s1)
      else let (request, s2) = work_frame rd s1
           in (catchE request (\<lambda>e. e = OSError) (Inr None), s2))"

section \<open>The main loop\<close>

text \<open>The response written for a request, or the exception that ends the simulator.\<close>

definition work_handle :: "example_world \<Rightarrow> bytes \<Rightarrow> bytes result \<times> example_world" where
  "work_handle w request =
     (if request = encode ''Q'' then (work_response 0x00 (encode (xw_signature w) @ [0]), w)
      else if request = encode ''A'' then
        (let (outpc, w') = work_build w in (bindE outpc (work_response 0x01), w'))
      else (work_response 0x83 [], w))"

record work_sim =
  ws_world :: example_world
  ws_hz :: pyfloat
  ws_last_update :: pyfloat
  ws_last_stats :: pyfloat
  ws_request_count :: nat

text \<open>
  One turn at the time \<open>now\<close>; \<open>later\<close> is what the clock shows afterwards. A request of no bytes is
  none.
\<close>

definition work_turn ::
  "'s tty_select \<Rightarrow> 's tty_read \<Rightarrow> pyfloat \<Rightarrow> pyfloat stream \<Rightarrow> work_sim \<Rightarrow> 's \<Rightarrow>
     bytes option \<times> py_error option \<times> work_sim \<times> 's" where
  "work_turn ready rd now later st0 s0 =
     (let dt = py_sub now (ws_last_update st0); st = st0\<lparr>ws_last_update := now\<rparr>; w = ws_world st in
      case work_update dt (xw_engine w) (xw_draws w) of
        (Inl e, g) \<Rightarrow> (None, Some e, st\<lparr>ws_world := w\<lparr>xw_draws := g\<rparr>\<rparr>, s0)
      | (Inr eng, g) \<Rightarrow>
          let st1 = st\<lparr>ws_world := w\<lparr>xw_engine := eng, xw_draws := g, xw_clock := later\<rparr>\<rparr>;
              (r, s1) = work_read_request ready rd s0;
              (out, e, st2) =
                (case r of
                   Inl e \<Rightarrow> (None, Some e, st1)
                 | Inr None \<Rightarrow> (None, None, st1)
                 | Inr (Some request) \<Rightarrow>
                     if request = [] then (None, None, st1)
                     else (let st2 = st1\<lparr>ws_request_count := ws_request_count st1 + 1\<rparr> in
                           case work_handle (ws_world st2) request of
                             (Inl e, w') \<Rightarrow> (None, Some e, st2\<lparr>ws_world := w'\<rparr>)
                           | (Inr response, w') \<Rightarrow> (Some response, None, st2\<lparr>ws_world := w'\<rparr>)))
          in case e of
               Some err \<Rightarrow> (out, Some err, st2, s1)
             | None \<Rightarrow>
                 (let st3 = (if py_lt (Fin 2) (py_sub now (ws_last_stats st2)) then st2\<lparr>ws_last_stats := now\<rparr> else st2)
                  in case loop_sleep (ws_hz st3) of
                       Inl err \<Rightarrow> (out, Some err, st3, s1)
                     | Inr u \<Rightarrow> (out, None, st3, s1)))"

end
