(* ===== verification/PyFormat.thy ===== *)
theory PyFormat
  imports PyText
begin

text \<open>
  The text of numbers: \<open>str()\<close> of an integer, the formats \<open>d\<close>, \<open>,\<close> and \<open>.nf\<close> with a width, and the
  floor division of floats. A number shown with \<open>n\<close> decimals reads back as the multiple of
  \<open>1 / 10 ^ n\<close> nearest to it.
\<close>

section \<open>Digits\<close>

definition digit_char :: "nat \<Rightarrow> char" where
  "digit_char k = char_of (48 + k)"

fun show_nat :: "nat \<Rightarrow> string" where
  "show_nat n = (if n < 10 then [digit_char n] else show_nat (n div 10) @ [digit_char (n mod 10)])"

declare show_nat.simps [simp del]

definition show_int :: "int \<Rightarrow> string" where
  "show_int k = (if k < 0 then ''-'' else []) @ show_nat (nat \<bar>k\<bar>)"

definition rjust :: "nat \<Rightarrow> 'a \<Rightarrow> 'a list \<Rightarrow> 'a list" where
  "rjust n c xs = replicate (n - length xs) c @ xs"

text \<open>\<open>{n:,}\<close>: the digits in groups of three.\<close>

fun group_digits :: "string \<Rightarrow> string" where
  "group_digits (a # b # c # d # ds) = a # b # c # CHR '','' # group_digits (d # ds)"
| "group_digits ds = ds"

definition show_grouped :: "nat \<Rightarrow> string" where
  "show_grouped n = rev (group_digits (rev (show_nat n)))"

lemma digit_digit_char [simp]: "k < 10 \<Longrightarrow> digit (digit_char k) = k"
  by (simp add: digit_def digit_char_def)

lemma is_digit_digit_char [simp]: "k < 10 \<Longrightarrow> is_digit (digit_char k)"
  by (simp add: is_digit_def digit_char_def)

lemma show_nat_digits: "list_all is_digit (show_nat n)"
  by (induction n rule: show_nat.induct) (subst show_nat.simps, auto)

lemma show_nat_nonempty [simp]: "show_nat n \<noteq> []"
  by (subst show_nat.simps) simp

lemma digits_value_snoc: "digits_value (ds @ [c]) = digits_value ds * 10 + digit c"
  by (simp add: digits_value_def)

lemma digits_value_show_nat [simp]: "digits_value (show_nat n) = n"
proof (induction n rule: show_nat.induct)
  case (1 n)
  then show ?case by (subst show_nat.simps) (auto simp: digits_value_snoc, simp add: digits_value_def)
qed

lemma digits_value_zeros: "digits_value (replicate k CHR ''0'' @ ds) = digits_value ds"
  by (induction k) (simp_all add: digits_value_def digit_def)

section \<open>Decimals\<close>

text \<open>
  \<open>{x:.nf}\<close>: the exact value rounded to \<open>n\<close> decimals, half to even, with the sign of a negative
  number even where its digits are zeros.
\<close>

definition decimals :: "nat \<Rightarrow> rat \<Rightarrow> string" where
  "decimals n x =
     (let ds = rjust (Suc n) CHR ''0'' (show_nat (nat (round_even (\<bar>x\<bar> * 10 ^ n)))); k = length ds - n
      in if n = 0 then ds else take k ds @ CHR ''.'' # drop k ds)"

definition fixed :: "nat \<Rightarrow> pyfloat \<Rightarrow> string" where
  "fixed n v =
     (case v of
        Fin x \<Rightarrow> (if x < 0 then ''-'' else []) @ decimals n x
      | PInf \<Rightarrow> ''inf''
      | NInf \<Rightarrow> ''-inf''
      | NaN \<Rightarrow> ''nan'')"

definition show_fixed :: "nat \<Rightarrow> nat \<Rightarrow> pyfloat \<Rightarrow> string" where
  "show_fixed w n v = rjust w CHR '' '' (fixed n v)"

text \<open>\<open>{k:wd}\<close> of an integer.\<close>

definition show_wide :: "nat \<Rightarrow> int \<Rightarrow> string" where
  "show_wide w k = rjust w CHR '' '' (show_int k)"

text \<open>The number that is shown.\<close>

definition nearest :: "nat \<Rightarrow> rat \<Rightarrow> rat" where
  "nearest n x = of_int (round_even (x * 10 ^ n)) / 10 ^ n"

lemma nearest_error: "\<bar>nearest n x - x\<bar> \<le> 1 / (2 * 10 ^ n)"
proof -
  have "\<bar>of_int (round_even (x * 10 ^ n)) - x * 10 ^ n\<bar> \<le> 1 / 2"
    using round_even_near [of "x * 10 ^ n"] unfolding abs_le_iff by linarith
  then have "\<bar>of_int (round_even (x * 10 ^ n)) - x * 10 ^ n\<bar> / 10 ^ n \<le> 1 / 2 / 10 ^ n"
    by (rule divide_right_mono) simp
  moreover have "nearest n x - x = (of_int (round_even (x * 10 ^ n)) - x * 10 ^ n) / 10 ^ n"
    by (simp add: nearest_def diff_divide_distrib)
  ultimately show ?thesis by (simp add: abs_divide)
qed

lemma round_even_nonneg: "0 \<le> x \<Longrightarrow> 0 \<le> round_even x"
  using round_even_mono [of 0 x] round_even_of_int [of 0] by simp

lemma nearest_abs: "of_nat (nat (round_even (\<bar>x\<bar> * 10 ^ n))) / 10 ^ n = \<bar>nearest n x\<bar>"
proof -
  let ?r = "round_even (\<bar>x\<bar> * 10 ^ n)"
  have r: "0 \<le> ?r" by (rule round_even_nonneg) simp
  then have "of_nat (nat ?r) = (of_int ?r :: rat)" by simp
  moreover have "of_int ?r = \<bar>of_int (round_even (x * 10 ^ n)) :: rat\<bar>"
  proof (cases "0 \<le> x")
    case True
    with r show ?thesis by simp
  next
    case False
    then have "?r = - round_even (x * 10 ^ n)" using round_even_minus [of "x * 10 ^ n"] by simp
    with r show ?thesis by simp
  qed
  ultimately show ?thesis by (simp add: nearest_def abs_divide)
qed

section \<open>Reading back\<close>

lemma clean_text:
  assumes "list_all (\<lambda>c. \<not> is_space c \<and> c \<noteq> CHR ''_'') s"
  shows "drop_underscores (strip s) = Some s"
proof -
  have "dropWhile is_space s = s" using assms by (cases s) simp_all
  moreover have "dropWhile is_space (rev s) = rev s" using assms by (cases s rule: rev_cases) simp_all
  ultimately have "strip s = s" by (simp add: strip_def strip_by_def lstrip_by_def rstrip_by_def)
  moreover have "list_all (\<lambda>c. c \<noteq> CHR ''_'') s \<Longrightarrow> underscores_ok b s" for b
    by (induction s arbitrary: b) simp_all
  moreover have "list_all (\<lambda>c. c \<noteq> CHR ''_'') s" using assms by (simp add: list_all_iff)
  ultimately show ?thesis by (simp add: drop_underscores_def list_all_iff)
qed

lemma digit_classes:
  assumes "is_digit c"
  shows "\<not> is_space c" "c \<noteq> CHR ''_''" "c \<noteq> CHR ''-''" "c \<noteq> CHR ''+''" "c \<noteq> CHR ''.''" "c \<noteq> CHR '',''"
    "\<not> is_newline c" "to_lower c = c"
  using assms by (auto simp: char_classes is_newline_def to_lower_def)

lemma digits_all:
  assumes "list_all is_digit ds"
  shows "takeWhile is_digit ds = ds" "dropWhile is_digit ds = []"
  using assms by (simp_all add: list_all_iff)

lemma parse_decimal_point:
  assumes "list_all is_digit a" and "list_all is_digit b" and "a \<noteq> []"
  shows "parse_decimal (a @ CHR ''.'' # b) = Some (of_nat (digits_value (a @ b)) / 10 ^ length b)"
proof -
  have "\<not> is_digit CHR ''.''" by (simp add: is_digit_def)
  then have "takeWhile is_digit (a @ CHR ''.'' # b) = a" "dropWhile is_digit (a @ CHR ''.'' # b) = CHR ''.'' # b"
    using assms(1) by (simp_all add: list_all_iff)
  then show ?thesis
    using assms(3) digits_all [OF assms(2)]
    by (simp add: parse_decimal_def take_exponent_def power_int_minus divide_inverse
        del: takeWhile_eq_all_conv dropWhile_eq_Nil_conv)
qed

lemma parse_decimal_whole:
  assumes "list_all is_digit a" and "a \<noteq> []"
  shows "parse_decimal a = Some (of_nat (digits_value a))"
  using assms(2) digits_all [OF assms(1)]
  by (simp add: parse_decimal_def take_exponent_def del: takeWhile_eq_all_conv dropWhile_eq_Nil_conv)

lemma parse_decimal_decimals: "parse_decimal (decimals n x) = Some \<bar>nearest n x\<bar>"
proof -
  define ds where "ds = rjust (Suc n) CHR ''0'' (show_nat (nat (round_even (\<bar>x\<bar> * 10 ^ n))))"
  have ds: "list_all is_digit ds" "n < length ds" "digits_value ds = nat (round_even (\<bar>x\<bar> * 10 ^ n))"
    using show_nat_digits by (auto simp: ds_def rjust_def digits_value_zeros list_all_iff is_digit_def)
  then have nonempty: "ds \<noteq> []" by auto
  show ?thesis
  proof (cases "n = 0")
    case True
    with ds nonempty parse_decimal_whole [of ds] nearest_abs [of x 0] show ?thesis
      by (simp add: decimals_def ds_def)
  next
    case False
    let ?k = "length ds - n"
    have "list_all is_digit (take ?k ds)" "list_all is_digit (drop ?k ds)" "take ?k ds \<noteq> []" "length (drop ?k ds) = n"
      using ds(1,2) by (auto simp: list_all_iff dest: in_set_takeD in_set_dropD)
    with parse_decimal_point [of "take ?k ds" "drop ?k ds"] have
      "parse_decimal (take ?k ds @ CHR ''.'' # drop ?k ds) = Some \<bar>nearest n x\<bar>"
      by (simp add: ds(3) nearest_abs)
    with False show ?thesis by (simp add: decimals_def ds_def [symmetric] Let_def)
  qed
qed

text \<open>The characters of a shown number.\<close>

definition number_char :: "char \<Rightarrow> bool" where
  "number_char c \<longleftrightarrow> is_digit c \<or> c = CHR ''.''"

lemma decimals_chars: "list_all number_char (decimals n x)"
proof -
  have "list_all is_digit (rjust (Suc n) CHR ''0'' (show_nat m))" for m
    using show_nat_digits [of m] by (auto simp: rjust_def list_all_iff is_digit_def)
  then show ?thesis
    by (auto simp: decimals_def Let_def list_all_iff number_char_def dest!: in_set_takeD in_set_dropD)
qed

lemma decimals_nonempty: "decimals n x \<noteq> []"
  by (auto simp: decimals_def Let_def rjust_def)

lemma number_char_classes:
  assumes "number_char c"
  shows "\<not> is_space c" "c \<noteq> CHR ''_''" "c \<noteq> CHR ''-''" "c \<noteq> CHR ''+''" "c \<noteq> CHR '',''" "\<not> is_newline c"
    "c \<noteq> CHR ''n''" "c \<noteq> CHR ''i''" "to_lower c = c"
  using assms digit_classes [of c]
  by (auto simp: number_char_def char_classes is_newline_def to_lower_def)

lemma lower_decimals: "lower (decimals n x) = decimals n x"
proof -
  have "list_all number_char s \<Longrightarrow> List.map to_lower s = s" for s
    by (induction s) (simp_all add: number_char_classes)
  with decimals_chars show ?thesis by (simp add: lower_def)
qed

lemma first_number_char: "\<exists>c s. decimals n x = c # s \<and> number_char c"
  using decimals_chars [of n x] decimals_nonempty [of n x] by (cases "decimals n x") simp_all

lemma parse_float_signed:
  "parse_float ((if m then ''-'' else []) @ decimals n x) =
     Inr (rnd (if m then - \<bar>nearest n x\<bar> else \<bar>nearest n x\<bar>))"
proof -
  let ?s = "(if m then ''-'' else []) @ decimals n x"
  obtain c s where c: "decimals n x = c # s" "number_char c" using first_number_char by blast
  have "list_all (\<lambda>c. \<not> is_space c \<and> c \<noteq> CHR ''_'') ?s"
    using decimals_chars [of n x] number_char_classes by (auto simp: list_all_iff char_classes)
  note t = clean_text [OF this]
  have s: "take_sign ?s = (m, decimals n x)"
    using c number_char_classes [OF c(2)] by (simp add: take_sign_def)
  have "decimals n x \<noteq> ''inf''" "decimals n x \<noteq> ''infinity''" "decimals n x \<noteq> ''nan''"
    using c number_char_classes [OF c(2)] by auto
  with t s lower_decimals [of n x] parse_decimal_decimals [of n x] show ?thesis
    by (simp add: parse_float_def)
qed

text \<open>
  \<open>float()\<close> of a shown number is the nearest multiple of \<open>1 / 10 ^ n\<close>; infinities and NaN read back
  as they are.
\<close>

definition read_back :: "nat \<Rightarrow> pyfloat \<Rightarrow> pyfloat" where
  "read_back n v = (case v of Fin x \<Rightarrow> rnd (nearest n x) | _ \<Rightarrow> v)"

lemma nearest_sign: "x < 0 \<Longrightarrow> nearest n x \<le> 0" "0 \<le> x \<Longrightarrow> 0 \<le> nearest n x"
proof -
  assume "x < 0"
  then have "x * 10 ^ n \<le> 0" by (simp add: mult_nonneg_nonpos2)
  then have "round_even (x * 10 ^ n) \<le> 0" using round_even_mono [of "x * 10 ^ n" 0] round_even_of_int [of 0] by simp
  then show "nearest n x \<le> 0" by (simp add: nearest_def divide_le_0_iff)
next
  assume "0 \<le> x"
  then show "0 \<le> nearest n x" by (simp add: nearest_def round_even_nonneg)
qed

lemma parse_float_fixed: "parse_float (fixed n v) = Inr (read_back n v)"
proof (cases v)
  case (Fin x)
  have "(if x < 0 then - \<bar>nearest n x\<bar> else \<bar>nearest n x\<bar>) = nearest n x"
    using nearest_sign [of x n] by auto
  with parse_float_signed [of "x < 0" n x] Fin show ?thesis
    by (simp add: fixed_def read_back_def)
next
  case PInf
  have "parse_float ''inf'' = Inr PInf" by code_simp
  with PInf show ?thesis by (simp add: fixed_def read_back_def)
next
  case NInf
  have "parse_float ''-inf'' = Inr NInf" by code_simp
  with NInf show ?thesis by (simp add: fixed_def read_back_def)
next
  case NaN
  have "parse_float ''nan'' = Inr NaN" by code_simp
  with NaN show ?thesis by (simp add: fixed_def read_back_def)
qed

text \<open>Neither a comma nor a space nor the end of a line is in a shown number.\<close>

lemma fixed_chars: "c \<in> set (fixed n v) \<Longrightarrow> \<not> is_space c \<and> c \<noteq> CHR '','' \<and> \<not> is_newline c"
proof (cases v)
  case (Fin x)
  assume "c \<in> set (fixed n v)"
  with Fin decimals_chars [of n x] have "c = CHR ''-'' \<or> number_char c"
    by (auto simp: fixed_def list_all_iff split: if_splits)
  with number_char_classes [of c] show ?thesis by (auto simp: char_classes is_newline_def)
qed (auto simp: fixed_def char_classes is_newline_def)

lemma parse_float_rjust: "parse_float (rjust k CHR '' '' s) = parse_float s"
proof -
  have "dropWhile is_space (replicate m CHR '' '' @ s) = dropWhile is_space s" for m
    by (induction m) (simp_all add: is_space_def)
  then show ?thesis by (simp add: parse_float_def strip_def strip_by_def lstrip_by_def rjust_def)
qed

lemma parse_float_show_fixed: "parse_float (show_fixed w n v) = Inr (read_back n v)"
  by (simp add: show_fixed_def parse_float_rjust parse_float_fixed)

lemma length_rjust [simp]: "length (rjust n c xs) = max n (length xs)"
  by (simp add: rjust_def)

lemma set_rjust: "set (rjust n c xs) \<subseteq> insert c (set xs)"
  by (auto simp: rjust_def)

lemma show_int_chars: "c \<in> set (show_int k) \<Longrightarrow> is_digit c \<or> c = CHR ''-''"
  using show_nat_digits [of "nat \<bar>k\<bar>"] by (auto simp: show_int_def list_all_iff split: if_splits)

section \<open>Joining and splitting\<close>

text \<open>\<open>sep.join(xs)\<close>.\<close>

fun join :: "string \<Rightarrow> string list \<Rightarrow> string" where
  "join sep [] = []"
| "join sep [x] = x"
| "join sep (x # y # xs) = x @ sep @ join sep (y # xs)"

lemma split_on_plain: "c \<notin> set x \<Longrightarrow> split_on c x = [x]"
  by (induction x) auto

lemma split_on_append: "c \<notin> set x \<Longrightarrow> split_on c (x @ c # s) = x # split_on c s"
  by (induction x) auto

lemma split_on_join: "xs \<noteq> [] \<Longrightarrow> (\<And>x. x \<in> set xs \<Longrightarrow> c \<notin> set x) \<Longrightarrow> split_on c (join [c] xs) = xs"
  by (induction "[c]" xs rule: join.induct) (simp_all add: split_on_plain split_on_append)

section \<open>Floor division\<close>

text \<open>
  \<open>x // y\<close> for a finite \<open>y\<close>: the quotient without the remainder, floored, and one more where the
  division lost a unit. An infinite or undefined \<open>x\<close> gives NaN.
\<close>

definition py_floordiv :: "pyfloat \<Rightarrow> pyfloat \<Rightarrow> pyfloat result" where
  "py_floordiv a b =
     (case (a, b) of
        (Fin x, Fin y) \<Rightarrow>
          if y = 0 then Inl ZeroDivisionError
          else let m = x - y * of_int (PyFloat.truncate (x / y))
            in bindE (py_div (rnd (x - m)) b) (\<lambda>d0.
               let d = (if m \<noteq> 0 \<and> (y < 0) \<noteq> (m < 0) then py_sub d0 (Fin 1) else d0) in
               Inr (case d of
                      Fin q \<Rightarrow> if py_lt (Fin (1/2)) (rnd (q - of_int \<lfloor>q\<rfloor>)) then rnd (of_int \<lfloor>q\<rfloor> + 1) else Fin (of_int \<lfloor>q\<rfloor>)
                    | _ \<Rightarrow> d))
      | (x, Fin y) \<Rightarrow> if y = 0 then Inl ZeroDivisionError else Inr NaN
      | _ \<Rightarrow> Inr NaN)"

end
