(* ===== verification/DashScreen.thy ===== *)
theory DashScreen
  imports DashSpec PyFormat
begin

text \<open>
  What \<open>ms2_ini_dash.py\<close> writes to the terminal, and its \<open>main\<close>: the rows as text, the screen drawn
  over the one before, the signature query and the paced loop.
\<close>

section \<open>Formats\<close>

text \<open>The width and the decimals of a format \<open>{:w.pf}\<close>, the only kind in \<open>DASHBOARD_FIELDS\<close>.\<close>

definition number_format :: "string \<Rightarrow> (nat \<times> nat) option" where
  "number_format s =
     (case s of
        [a, b, w, c, p, f, d] \<Rightarrow>
          if a = CHR ''{'' \<and> b = CHR '':'' \<and> is_digit w \<and> c = CHR ''.'' \<and> is_digit p \<and> f = CHR ''f'' \<and> d = CHR ''}''
          then Some (digit w, digit p) else None
      | _ \<Rightarrow> None)"

text \<open>\<open>fmt.format(value)\<close>: an integer is converted to a float, which a huge one refuses.\<close>

definition format_value :: "string \<Rightarrow> dash_value \<Rightarrow> string result" where
  "format_value fmt v =
     (case number_format fmt of
        None \<Rightarrow> Inl ValueError
      | Some (w, p) \<Rightarrow>
          bindE (case v of VFloat x \<Rightarrow> Inr x | VInt k \<Rightarrow> py_float k) (\<lambda>x. Inr (show_fixed w p x)))"

lemma formats_known: "item \<in> set DASHBOARD_FIELDS \<Longrightarrow> \<exists>p. number_format (fst (snd (snd item))) = Some (6, p)"
  by (auto simp: DASHBOARD_FIELDS_def number_format_def is_digit_def digit_def)

section \<open>The screen\<close>

text \<open>
  A row. The formats of the table are all known, so \<open>format\<close> raises neither of the errors its handler
  replaces the text for.
\<close>

definition row_text :: "dash_line_shown \<Rightarrow> string result" where
  "row_text row =
     (let (display_name, fmt, value, units) = row in
      bindE (format_value fmt value) (\<lambda>formatted.
      Inr (''  '' @ ljust 12 CHR '' '' display_name @ '' '' @ formatted @ '' '' @ units)))"

text \<open>The text of the status; \<open>msg\<close> gives the messages of the exceptions.\<close>

definition status_text :: "(py_error \<Rightarrow> string) \<Rightarrow> dash_status \<Rightarrow> string" where
  "status_text msg st =
     (case st of
        StatusOk \<Rightarrow> ''OK''
      | SizeMismatch g e \<Rightarrow> ''Size mismatch: got '' @ show_nat g @ '', expected '' @ show_int e
      | Timeout \<Rightarrow> ''TIMEOUT: '' @ msg TimeoutError
      | Failed e \<Rightarrow> ''ERROR: '' @ msg e)"

definition screen_header :: "string list" where
  "screen_header = [[], ''================== MS2 LIVE DATA =================='', []]"

definition screen_footer :: "(py_error \<Rightarrow> string) \<Rightarrow> int \<Rightarrow> nat \<Rightarrow> dash_status \<Rightarrow> string list" where
  "screen_footer msg block_size actual_size st =
     [[],
      ''  '' @ ljust 12 CHR '' '' ''Payload'' @ '' '' @ show_nat actual_size @ '' bytes (expected '' @ show_int block_size @ '')'',
      ''  '' @ ljust 12 CHR '' '' ''Status'' @ '' '' @ status_text msg st,
      [],
      ''==================================================='',
      [],
      ''  Press Ctrl+C to exit'',
      []]"

definition screen_lines :: "(py_error \<Rightarrow> string) \<Rightarrow> int \<Rightarrow> dash_screen \<Rightarrow> string list result" where
  "screen_lines msg block_size scr =
     bindE (foldE (\<lambda>r ls. bindE (row_text r) (\<lambda>l. Inr (ls @ [l]))) (rows scr) []) (\<lambda>ls.
     Inr (screen_header @ ls @ screen_footer msg block_size (payload_size scr) (status scr)))"

text \<open>The terminal's \<open>home\<close> sequence and the end of a line.\<close>

definition newline :: char where "newline = CHR 0x0A"
definition home :: string where "home = [CHR 0x1B, CHR ''['', CHR ''H'']"

definition print_dashboard :: "(py_error \<Rightarrow> string) \<Rightarrow> int \<Rightarrow> dash_screen \<Rightarrow> string \<times> py_error option" where
  "print_dashboard msg block_size scr =
     (case screen_lines msg block_size scr of
        Inl e \<Rightarrow> (home, Some e)
      | Inr ls \<Rightarrow> (home @ join [newline] ls, None))"

text \<open>
  A turn of the loop, up to its sleep. \<open>print_dashboard\<close> is inside the \<open>try\<close>: what it raises is
  caught, and the screen of the error is printed.
\<close>

definition dash_turn ::
  "(nat \<Rightarrow> 's \<Rightarrow> bytes \<times> 's) \<Rightarrow> (bytes \<Rightarrow> 's \<Rightarrow> 's) \<Rightarrow> (py_error \<Rightarrow> string) \<Rightarrow> (string, dash_field) dict \<Rightarrow> int \<Rightarrow>
     pyfloat \<Rightarrow> 's dash_link \<Rightarrow> (string \<times> 's dash_link) option" where
  "dash_turn rd wr msg fs block_size timeout l =
     (case dash_poll rd wr fs block_size timeout l of
        None \<Rightarrow> None
      | Some (scr, l') \<Rightarrow> Some
          (case print_dashboard msg block_size scr of
             (out, None) \<Rightarrow> out
           | (out, Some e) \<Rightarrow> out @ fst (print_dashboard msg block_size (error_screen (Failed e))), l'))"

section \<open>The program\<close>

text \<open>\<open>--list-fields\<close>.\<close>

definition field_listing :: "dash_field \<times> string \<Rightarrow> string" where
  "field_listing = (\<lambda>(f, n).
     ''  '' @ show_wide 3 (df_offset f) @ ''  '' @ ljust 20 CHR '' '' n @ '' '' @ ljust 4 CHR '' '' (df_data f) @
     '' scale='' @ ljust 10 CHR '' '' (fixed 6 (df_scale f)) @ '' units='' @ df_units f)"

definition list_fields :: "(string, dash_field) dict \<Rightarrow> string list" where
  "list_fields fs =
     [[], ''Parsed OutputChannel fields:'', replicate 80 CHR ''-''] @
     List.map field_listing (sort_key (\<lambda>(f, n). df_offset f) (List.map (\<lambda>(n, f). (f, n)) fs))"

text \<open>The signature the ECU reports, \<open>None\<close> where the query fails, which only prints a warning.\<close>

definition rstrip_nul_text :: "string \<Rightarrow> string" where
  "rstrip_nul_text s = rstrip_by (\<lambda>c. c = CHR 0x00) s"

definition dash_connect ::
  "(nat \<Rightarrow> 's \<Rightarrow> bytes \<times> 's) \<Rightarrow> (bytes \<Rightarrow> 's \<Rightarrow> 's) \<Rightarrow> 's dash_link \<Rightarrow> (string option \<times> 's dash_link) option" where
  "dash_connect rd wr l =
     (case send_command rd wr (encode ''Q'') (Fin 2) l of
        None \<Rightarrow> None
      | Some (Inl e, l') \<Rightarrow> Some (None, l')
      | Some (Inr sig, l') \<Rightarrow> Some (Some (rstrip_nul_text (decode_replace (drop 1 sig))), l'))"

text \<open>The loop \<open>while True\<close>, for \<open>n\<close> turns: what each prints, and the exception that ended it.\<close>

fun dash_turns ::
  "(nat \<Rightarrow> 's \<Rightarrow> bytes \<times> 's) \<Rightarrow> (bytes \<Rightarrow> 's \<Rightarrow> 's) \<Rightarrow> (py_error \<Rightarrow> string) \<Rightarrow> (string, dash_field) dict \<Rightarrow> int \<Rightarrow>
     pyfloat \<Rightarrow> pyfloat \<Rightarrow> nat \<Rightarrow> 's dash_link \<Rightarrow> (string list \<times> py_error option \<times> 's dash_link) option" where
  "dash_turns rd wr msg fs block_size timeout delay 0 l = Some ([], None, l)"
| "dash_turns rd wr msg fs block_size timeout delay (Suc n) l =
     (case dash_turn rd wr msg fs block_size timeout l of
        None \<Rightarrow> None
      | Some (out, l') \<Rightarrow>
          (case py_sleep delay of
             Inl e \<Rightarrow> Some ([out], Some e, l')
           | Inr u \<Rightarrow>
               (case dash_turns rd wr msg fs block_size timeout delay n l' of
                  None \<Rightarrow> None
                | Some (outs, e, l'') \<Rightarrow> Some (out # outs, e, l''))))"

text \<open>
  \<open>main\<close> after its arguments: an exit with its status and what was printed before it, or the loop,
  entered with the port \<open>l\<close>, for \<open>n\<close> turns. \<open>ini_file\<close> is the INI file, \<open>None\<close> where there is none.
\<close>

datatype 's dash_run =
    DashExit int "string list"
  | DashRaised py_error
  | DashLoop "string option" "string list" "py_error option" "'s dash_link"

definition dash_main ::
  "(nat \<Rightarrow> 's \<Rightarrow> bytes \<times> 's) \<Rightarrow> (bytes \<Rightarrow> 's \<Rightarrow> 's) \<Rightarrow> (py_error \<Rightarrow> string) \<Rightarrow> bytes option \<Rightarrow> bool \<Rightarrow> int \<Rightarrow>
     pyfloat \<Rightarrow> nat \<Rightarrow> 's dash_link \<Rightarrow> 's dash_run option" where
  "dash_main rd wr msg ini_file listing timeout_ms hz n l =
     (case ini_file of
        None \<Rightarrow> Some (DashExit 1 [])
      | Some content \<Rightarrow>
          (case parse_ini_output_channels content of
             Inl e \<Rightarrow> Some (DashRaised e)
           | Inr (fs, block_size) \<Rightarrow>
               if listing then Some (DashExit 0 (list_fields fs))
               else (case bindE (bindE (py_float timeout_ms) (\<lambda>t. py_div t (Fin 1000))) (\<lambda>timeout_s.
                       bindE (py_div (Fin 1) (py_max hz (lit (1/10)))) (\<lambda>delay. Inr (timeout_s, delay))) of
                  Inl e \<Rightarrow> Some (DashRaised e)
                | Inr (timeout_s, delay) \<Rightarrow>
                    (case dash_connect rd wr l of
                       None \<Rightarrow> None
                     | Some (sig, l') \<Rightarrow>
                         (case dash_turns rd wr msg fs block_size timeout_s delay n l' of
                            None \<Rightarrow> None
                          | Some (outs, e, l'') \<Rightarrow> Some (DashLoop sig outs e l''))))))"

section \<open>The rows as text\<close>

lemma foldE_collects:
  "foldE (\<lambda>x ls. bindE (g x) (\<lambda>l. Inr (ls @ [l]))) xs acc = Inr out \<Longrightarrow>
     \<exists>ls. out = acc @ ls \<and> length ls = length xs \<and> (\<forall>i<length xs. g (xs ! i) = Inr (ls ! i))"
proof (induction xs arbitrary: acc)
  case (Cons x xs)
  then obtain l where l: "g x = Inr l"
    "foldE (\<lambda>x ls. bindE (g x) (\<lambda>l. Inr (ls @ [l]))) xs (acc @ [l]) = Inr out"
    by (auto simp: bindE_eq_Inr)
  from Cons.IH [OF l(2)] obtain ls where
    "out = acc @ l # ls" "length ls = length xs" "\<forall>i<length xs. g (xs ! i) = Inr (ls ! i)" by auto
  with l(1) show ?case by (intro exI [of _ "l # ls"]) (auto simp: nth_Cons split: nat.split)
qed simp

lemma screen_lines_shape:
  assumes "screen_lines msg b scr = Inr ls"
  shows "\<exists>rs. ls = screen_header @ rs @ screen_footer msg b (payload_size scr) (status scr) \<and>
    length rs = length (rows scr) \<and> (\<forall>j<length (rows scr). row_text (rows scr ! j) = Inr (rs ! j))"
  using assms foldE_collects [of row_text "rows scr" "[]"] by (auto simp: screen_lines_def bindE_eq_Inr)

lemma length_screen_header: "length screen_header = 3"
  by (simp add: screen_header_def)

lemma screen_line_row:
  assumes "screen_lines msg b scr = Inr ls" and "j < length (rows scr)"
  shows "3 + j < length ls \<and> row_text (rows scr ! j) = Inr (ls ! (3 + j))"
  using screen_lines_shape [OF assms(1)] assms(2)
  by (auto simp: length_screen_header nth_append)

lemma dash_rows_formats: "(title, fmt, v, units) \<in> set (dash_rows decoded fs) \<Longrightarrow> \<exists>p. number_format fmt = Some (6, p)"
  using formats_known by (fastforce simp: dash_rows_def dash_row_def Let_def split: option.splits)

text \<open>
  C38: what stands on the screen is the value. In every screen drawn of decoded channels, the line of
  a channel is its title, padded to twelve characters, a number at least six characters wide and
  the unit; \<open>float()\<close> of that number is the channel's value rounded to the decimals of its format,
  half a unit of the last decimal away from it at most.
\<close>

theorem dash_text_reads_back:
  assumes "screen_lines msg b scr = Inr ls" and "rows scr = dash_rows decoded fs"
    and "j < length (rows scr)" and "rows scr ! j = (title, fmt, VFloat v, units)"
  shows "\<exists>p num. number_format fmt = Some (6, p) \<and>
    ls ! (3 + j) = ''  '' @ ljust 12 CHR '' '' title @ '' '' @ num @ '' '' @ units \<and>
    6 \<le> length num \<and> parse_float num = Inr (read_back p v) \<and>
    (\<forall>x. v = Fin x \<longrightarrow> read_back p v = rnd (nearest p x) \<and> \<bar>nearest p x - x\<bar> \<le> 1 / (2 * 10 ^ p))"
proof -
  from assms(2-4) have "(title, fmt, VFloat v, units) \<in> set (dash_rows decoded fs)" by (metis nth_mem)
  with dash_rows_formats obtain p where p: "number_format fmt = Some (6, p)" by blast
  from screen_line_row [OF assms(1,3)] assms(4) p have
    "ls ! (3 + j) = ''  '' @ ljust 12 CHR '' '' title @ '' '' @ show_fixed 6 p v @ '' '' @ units"
    by (simp add: row_text_def format_value_def)
  moreover have "6 \<le> length (show_fixed 6 p v)" by (simp add: show_fixed_def)
  ultimately show ?thesis
    using p nearest_error by (intro exI [of _ p] exI [of _ "show_fixed 6 p v"])
      (simp add: parse_float_show_fixed read_back_def)
qed

definition sample_screen :: dash_screen where
  "sample_screen = \<lparr>rows = dash_rows [(''rpm'', VFloat (Fin 850))] [], payload_size = 209, status = StatusOk\<rparr>"

lemma sample_rows: "rows sample_screen = [(''RPM'', ''{:6.0f}'', VFloat (Fin 850), [])]"
  by (simp add: sample_screen_def dash_rows_def dash_row_def DASHBOARD_FIELDS_def)

theorem dash_text_reads_back_witness:
  "\<exists>ls num. screen_lines (\<lambda>e. []) 209 sample_screen = Inr ls \<and>
    ls ! 3 = ''  '' @ ljust 12 CHR '' '' ''RPM'' @ '' '' @ num @ '' '' \<and> parse_float num = Inr (rnd 850)"
proof -
  have f: "number_format ''{:6.0f}'' = Some (6, 0)" by (simp add: number_format_def is_digit_def digit_def)
  then have "row_text (''RPM'', ''{:6.0f}'', VFloat (Fin 850), []) =
      Inr (''  '' @ ljust 12 CHR '' '' ''RPM'' @ '' '' @ show_fixed 6 0 (Fin 850) @ '' '')"
    by (simp add: row_text_def format_value_def)
  then obtain ls where ls: "screen_lines (\<lambda>e. []) 209 sample_screen = Inr ls"
    by (simp add: screen_lines_def sample_rows)
  have "rows sample_screen = dash_rows [(''rpm'', VFloat (Fin 850))] []" by (simp add: sample_screen_def)
  note reads = dash_text_reads_back [OF ls this, of 0 "''RPM''" "''{:6.0f}''" "Fin 850" "[]"]
  have "read_back 0 (Fin 850) = rnd 850"
    using round_even_of_int [of 850] by (simp add: read_back_def nearest_def)
  with reads f ls show ?thesis unfolding sample_rows by auto
qed

section \<open>One screen over another\<close>

text \<open>
  A terminal as its lines. A text that starts at the home position replaces the characters it
  reaches and leaves the rest: the program clears the terminal once, before its first screen.
\<close>

fun draw_over :: "string list \<Rightarrow> string list \<Rightarrow> string list" where
  "draw_over [] t = t"
| "draw_over (l # ls) [] = l # draw_over ls []"
| "draw_over (l # ls) (x # t) = (l @ drop (length l) x) # draw_over ls t"

function drop_homes :: "string \<Rightarrow> string" where
  "drop_homes s = (if take 3 s = home then drop_homes (drop 3 s) else s)"
  by pat_completeness auto
termination
  by (relation "measure length") (simp, case_tac s, simp_all add: home_def)

declare drop_homes.simps [simp del]

definition on_terminal :: "string \<Rightarrow> string list \<Rightarrow> string list" where
  "on_terminal out t = draw_over (split_on newline (drop_homes out)) t"

lemma nth_draw_over:
  "i < length t \<Longrightarrow> draw_over ls t ! i = (if i < length ls then ls ! i @ drop (length (ls ! i)) (t ! i) else t ! i)"
  by (induction ls t arbitrary: i rule: draw_over.induct) (auto simp: nth_Cons split: nat.split)

lemma length_draw_over: "length (draw_over ls t) = max (length ls) (length t)"
  by (induction ls t rule: draw_over.induct) simp_all

lemma nth_draw_over_new: "i < length ls \<Longrightarrow> \<exists>rest. draw_over ls t ! i = ls ! i @ rest"
proof (induction ls t arbitrary: i rule: draw_over.induct)
  case (2 l ls)
  then show ?case by (cases i) auto
next
  case (3 l ls x t)
  then show ?case by (cases i) auto
qed simp

lemma drop_home: "take 3 s \<noteq> home \<Longrightarrow> drop_homes (home @ s) = s"
  by (subst drop_homes.simps) (simp add: home_def drop_homes.simps [of s])

lemma drop_home_home: "drop_homes (home @ s) = drop_homes s"
  by (subst drop_homes.simps) (simp add: home_def)

text \<open>A screen's text puts its lines on the terminal.\<close>

lemma print_on_terminal:
  assumes "screen_lines msg b scr = Inr ls" and "\<And>l. l \<in> set ls \<Longrightarrow> newline \<notin> set l"
  shows "print_dashboard msg b scr = (home @ join [newline] ls, None) \<and>
    on_terminal (home @ join [newline] ls) t = draw_over ls t"
proof -
  from screen_lines_shape [OF assms(1)] obtain rs where
    ls: "ls = screen_header @ rs @ screen_footer msg b (payload_size scr) (status scr)" by blast
  then have start: "\<exists>x xs. ls = [] # x # xs" by (simp add: screen_header_def)
  then have "take 3 (join [newline] ls) \<noteq> home" by (auto simp: newline_def home_def)
  moreover have "split_on newline (join [newline] ls) = ls" using start assms(2) by (intro split_on_join) auto
  ultimately show ?thesis using assms(1) by (simp add: print_dashboard_def on_terminal_def drop_home)
qed

lemma plain_digits: "newline \<notin> set (show_nat n)" "newline \<notin> set (show_int k)"
  using show_nat_digits [of n] show_int_chars [of newline k] by (auto simp: list_all_iff newline_def is_digit_def)

lemma error_lines:
  "screen_lines msg b (error_screen st) = Inr (screen_header @ screen_footer msg b 0 st)"
  by (simp add: screen_lines_def error_screen_def)

lemma error_lines_plain:
  assumes "newline \<notin> set (status_text msg st)" and "l \<in> set (screen_header @ screen_footer msg b n st)"
  shows "newline \<notin> set l"
proof -
  have lits: "newline \<notin> set ''================== MS2 LIVE DATA ==================''"
    "newline \<notin> set ''===================================================''" "newline \<notin> set ''  Press Ctrl+C to exit''"
    "newline \<notin> set ''  ''" "newline \<notin> set '' ''" "newline \<notin> set '' bytes (expected ''" "newline \<notin> set '')''"
    "newline \<notin> set (ljust 12 CHR '' '' ''Payload'')" "newline \<notin> set (ljust 12 CHR '' '' ''Status'')"
    by (simp_all add: newline_def ljust_def)
  from assms(2) consider "l = []" | "l = ''================== MS2 LIVE DATA ==================''"
    | "l = ''==================================================='' " | "l = ''  Press Ctrl+C to exit''"
    | "l = ''  '' @ ljust 12 CHR '' '' ''Payload'' @ '' '' @ show_nat n @ '' bytes (expected '' @ show_int b @ '')''"
    | "l = ''  '' @ ljust 12 CHR '' '' ''Status'' @ '' '' @ status_text msg st"
    by (auto simp: screen_header_def screen_footer_def)
  then show ?thesis using assms(1) lits plain_digits by cases (simp_all only: set_append Un_iff de_Morgan_disj list.set empty_iff, simp_all)
qed


text \<open>A port that stays silent until the timeout.\<close>

lemma silent_poll_fails:
  "\<exists>l'. send_command (\<lambda>n s. ([], s)) (\<lambda>data s. s) (encode ''A'') (Fin 1) silent_link = Some (Inl TimeoutError, l')"
proof -
  have dbg: "py_sub (Fin 2) (Fin 0) = Fin 2" "py_sub (Fin 1) (Fin 0) = Fin 1"
    using representable_int [of 2] representable_int [of 1] by (simp_all add: py_sub_def representable_def)
  have "DashIni.read_exact (\<lambda>n s. ([], s)) 2 (Fin 1) silent_link =
      Some (Inl TimeoutError, silent_link\<lparr>ticks := sdrop 3 (ticks silent_link)\<rparr>)"
    using dbg by (simp add: DashIni.read_exact_def silent_link_def read_until_more numeral_3_eq_3)
  then show ?thesis
    using build_request_eq [of "encode ''A''"]
    by (simp add: send_command_def after_def build_request_def crc32_ms_def silent_link_def)
qed


section \<open>The loop goes on\<close>

lemma dash_turn_returns:
  assumes "advancing (ticks l)" and "T \<le> 2 ^ 100"
  shows "\<exists>out l'. dash_turn rd wr msg fs b (Fin T) l = Some (out, l') \<and> advancing (ticks l')"
  using dash_poll_returns [OF assms, of rd wr fs b] by (auto simp: dash_turn_def)

lemma dash_turns_return:
  assumes "advancing (ticks l)" and "T \<le> 2 ^ 100" and "py_sleep delay = Inr ()"
  shows "\<exists>outs l'. dash_turns rd wr msg fs b (Fin T) delay n l = Some (outs, None, l') \<and> length outs = n"
  using assms(1)
proof (induction n arbitrary: l)
  case (Suc n)
  from dash_turn_returns [OF Suc.prems assms(2)] obtain out l' where
    turn: "dash_turn rd wr msg fs b (Fin T) l = Some (out, l')" "advancing (ticks l')" by blast
  from Suc.IH [OF turn(2)] turn(1) assms(3) show ?case by auto
qed simp

lemma dash_delay_ok:
  assumes "hz \<noteq> NaN"
  shows "\<exists>d. py_div (Fin 1) (py_max hz (lit (1/10))) = Inr d \<and> py_sleep d = Inr ()"
proof -
  have "inside (1/16) 1 (lit (1/10))" by (rule inside_rnd) (simp_all add: representable_simps)
  then obtain t where t: "lit (1/10) = Fin t" "1/16 \<le> t" by (auto simp: inside_def)
  show ?thesis
  proof (cases "py_max hz (lit (1/10)) = PInf")
    case True
    moreover have "inside 0 1024 (Fin 0)" by (simp add: inside_def)
    ultimately show ?thesis by (simp add: py_sleep_ok)
  next
    case False
    with t assms obtain h where h: "py_max hz (lit (1/10)) = Fin h" "1/16 \<le> h"
      by (cases hz) (auto simp: py_max_def split: if_splits)
    have "inside 0 16 (rnd (1 / h))"
      using h(2) by (intro inside_rnd) (simp_all add: representable_simps field_simps)
    then have "inside 0 1024 (rnd (1 / h))" by (rule inside_mono) simp_all
    then have "py_sleep (rnd (1 / h)) = Inr ()" by (rule py_sleep_ok)
    with h show ?thesis by auto
  qed
qed

lemma dash_timeout_ok:
  assumes "\<bar>ms\<bar> < 2 ^ 53"
  shows "\<exists>T. bindE (py_float ms) (\<lambda>t. py_div t (Fin 1000)) = Inr (Fin T) \<and> T \<le> 2 ^ 100"
proof -
  have r: "representable (2 ^ 53)" "representable (- (2 ^ 53))"
    using representable_dyadic [of 1 53] representable_dyadic [of "- 1" 53] by simp_all
  have "(of_int ms :: rat) \<le> of_int (2 ^ 53)" "of_int (- (2 ^ 53)) \<le> (of_int ms :: rat)"
    using assms by (simp_all only: of_int_le_iff)
  then have "inside (- (2 ^ 53)) (2 ^ 53) (rnd (of_int ms / 1000))"
    by (intro inside_rnd r) simp_all
  then obtain T where "rnd (of_int ms / 1000) = Fin T" "T \<le> 2 ^ 53" by (auto simp: inside_def)
  moreover have "(2 :: rat) ^ 53 \<le> 2 ^ 100" by simp
  ultimately show ?thesis using py_float_small [OF assms] by auto
qed


lemma sample_ini_parses: "\<exists>fs b. parse_ini_output_channels (encode ''[OutputChannels]'') = Inr (fs, b)"
proof -
  have "read_text (encode ''[OutputChannels]'') = ''[OutputChannels]''"
    "splitlines (remove_line_prefixes ''[OutputChannels]'') = [''[OutputChannels]'']"
    "strip ''[OutputChannels]'' = ''[OutputChannels]''"
    by code_simp+
  then show ?thesis by (simp add: parse_ini_output_channels_def dash_line_def startswith_def DashParser_def)
qed


end
