(* ===== verification/SerialDash.thy ===== *)
theory SerialDash
  imports DashScreen
begin

text \<open>
  \<open>exampleFiles/ms2_serial_dash.py\<close> (and its copy in \<open>work-ms2d-daemon\<close>): the dashboard with fixed
  offsets. Its \<open>read_exact\<close> is the one of \<open>ms2_ini_dash.py\<close>, line for line.
\<close>

section \<open>The command\<close>

definition send_newserial ::
  "(nat \<Rightarrow> 's \<Rightarrow> bytes \<times> 's) \<Rightarrow> (bytes \<Rightarrow> 's \<Rightarrow> 's) \<Rightarrow> bytes \<Rightarrow> pyfloat \<Rightarrow> 's dash_link \<Rightarrow>
     (bytes result \<times> 's dash_link) option" where
  "send_newserial rd wr payload timeout l =
     (case bindE (struct_pack (BigEndian, FmtH) (int (length payload))) (\<lambda>size.
           bindE (struct_pack (BigEndian, FmtI) (uint (crc32 payload))) (\<lambda>crc.
           Inr (size @ payload @ crc))) of
        Inl e \<Rightarrow> Some (Inl e, l)
      | Inr pkt \<Rightarrow>
          after (read_exact rd 2 timeout (l\<lparr>link := wr pkt (link l)\<rparr>)) (\<lambda>hdr l1.
          after (read_exact rd (be_nat hdr) timeout l1) (\<lambda>data l2.
          after (read_exact rd 4 timeout l2) (\<lambda>crc l3.
          if be_nat crc \<noteq> unat (crc32 data) then Some (Inl ValueError, l3) else Some (Inr data, l3)))))"

section \<open>Decoding\<close>

definition u16le :: "bytes \<Rightarrow> int \<Rightarrow> int result" where
  "u16le b off = unpack_from (LittleEndian, FmtH) b off"

definition s16le :: "bytes \<Rightarrow> int \<Rightarrow> int result" where
  "s16le b off = unpack_from (LittleEndian, FmtSh) b off"

definition serial_clamp :: "pyfloat \<Rightarrow> pyfloat \<Rightarrow> pyfloat \<Rightarrow> pyfloat" where
  "serial_clamp x lo hi = (if py_lt x lo then lo else if py_lt hi x then hi else x)"

record serial_values =
  sv_seconds :: int
  sv_rpm :: int
  sv_advance :: pyfloat
  sv_map :: pyfloat
  sv_tps :: pyfloat
  sv_clt :: pyfloat
  sv_mat :: pyfloat
  sv_batt :: pyfloat
  sv_afr1 :: pyfloat
  sv_len :: nat

text \<open>\<open>s16le(outpc, off) * 0.1\<close>.\<close>

definition tenths :: "bytes \<Rightarrow> int \<Rightarrow> pyfloat result" where
  "tenths b off = bindE (s16le b off) (\<lambda>k. bindE (py_float k) (\<lambda>x. Inr (py_mul x (lit (1/10)))))"

definition serial_decode :: "bytes \<Rightarrow> serial_values result" where
  "serial_decode outpc =
     bindE (unpack_from (BigEndian, FmtH) outpc 0) (\<lambda>secs.
     bindE (u16le outpc 6) (\<lambda>r.
     bindE (tenths outpc 8) (\<lambda>adv.
     bindE (tenths outpc 18) (\<lambda>kpa.
     bindE (tenths outpc 20) (\<lambda>mat_f.
     bindE (tenths outpc 22) (\<lambda>clt_f.
     bindE (tenths outpc 24) (\<lambda>tps_pct.
     bindE (tenths outpc 28) (\<lambda>batt_v.
     bindE (tenths outpc 30) (\<lambda>afr1.
     Inr \<lparr>sv_seconds = secs, sv_rpm = r, sv_advance = adv, sv_map = kpa,
       sv_tps = serial_clamp tps_pct (Fin 0) (Fin 100), sv_clt = clt_f, sv_mat = mat_f, sv_batt = batt_v,
       sv_afr1 = afr1, sv_len = length outpc\<rparr>)))))))))"

text \<open>What an error draws.\<close>

definition no_values :: serial_values where
  "no_values = \<lparr>sv_seconds = 0, sv_rpm = 0, sv_advance = Fin 0, sv_map = Fin 0, sv_tps = Fin 0,
     sv_clt = Fin 0, sv_mat = Fin 0, sv_batt = Fin 0, sv_afr1 = Fin 0, sv_len = 0\<rparr>"

text \<open>
  One turn of the main loop: the values, and the warning, \<open>None\<close> for \<open>OK\<close>, \<open>Inr\<close> the unexpected length,
  \<open>Inl\<close> the error.
\<close>

definition serial_poll ::
  "(nat \<Rightarrow> 's \<Rightarrow> bytes \<times> 's) \<Rightarrow> (bytes \<Rightarrow> 's \<Rightarrow> 's) \<Rightarrow> int \<Rightarrow> pyfloat \<Rightarrow> 's dash_link \<Rightarrow>
     ((serial_values \<times> nat result option) \<times> 's dash_link) option" where
  "serial_poll rd wr expect_len timeout l =
     (case send_newserial rd wr (encode ''A'') timeout l of
        None \<Rightarrow> None
      | Some (r, l') \<Rightarrow> Some
          (case bindE r (\<lambda>outpc. bindE (serial_decode outpc) (\<lambda>d.
                Inr (d, if int (length outpc) \<noteq> expect_len then Some (Inr (length outpc)) else None))) of
             Inr shown \<Rightarrow> shown
           | Inl e \<Rightarrow> (no_values, Some (Inl e)), l'))"

section \<open>The screen\<close>

text \<open>\<open>print_dashboard\<close>, whose text starts and ends with a newline.\<close>

definition serial_lines :: "serial_values \<Rightarrow> string \<Rightarrow> string list" where
  "serial_lines d st =
     [[],
      ''================ MS2PNP LIVE DATA ================='',
      [],
      ''RPM:        '' @ show_wide 6 (sv_rpm d),
      ''Advance:    '' @ show_fixed 6 1 (sv_advance d) @ '' deg'',
      ''MAP:        '' @ show_fixed 6 1 (sv_map d) @ '' kPa'',
      ''TPS:        '' @ show_fixed 6 1 (sv_tps d) @ '' '' @ [CHR 0x25],
      [],
      ''Coolant:    '' @ show_fixed 6 1 (sv_clt d) @ '' F'',
      ''MAT:        '' @ show_fixed 6 1 (sv_mat d) @ '' F'',
      [],
      ''Battery:    '' @ show_fixed 6 2 (sv_batt d) @ '' V'',
      ''AFR1:       '' @ show_fixed 6 2 (sv_afr1 d),
      [],
      ''ECU Sec:    '' @ show_wide 6 (sv_seconds d),
      ''Payload:    '' @ show_nat (sv_len d) @ '' bytes'',
      [],
      ''Status:     '' @ st,
      ''===================================================='',
      []]"

definition serial_status :: "(py_error \<Rightarrow> string) \<Rightarrow> int \<Rightarrow> nat result option \<Rightarrow> string" where
  "serial_status msg expect_len warn =
     (case warn of
        None \<Rightarrow> ''OK''
      | Some (Inr n) \<Rightarrow> ''A len '' @ show_nat n @ '' (expected '' @ show_int expect_len @ '')''
      | Some (Inl e) \<Rightarrow> ''ERROR: '' @ msg e)"

definition serial_print :: "(py_error \<Rightarrow> string) \<Rightarrow> int \<Rightarrow> serial_values \<times> nat result option \<Rightarrow> string" where
  "serial_print msg expect_len shown =
     home @ join [newline] (serial_lines (fst shown) (serial_status msg expect_len (snd shown)))"

section \<open>The program\<close>

fun serial_turns ::
  "(nat \<Rightarrow> 's \<Rightarrow> bytes \<times> 's) \<Rightarrow> (bytes \<Rightarrow> 's \<Rightarrow> 's) \<Rightarrow> (py_error \<Rightarrow> string) \<Rightarrow> int \<Rightarrow> pyfloat \<Rightarrow> pyfloat \<Rightarrow> nat \<Rightarrow>
     's dash_link \<Rightarrow> (string list \<times> py_error option \<times> 's dash_link) option" where
  "serial_turns rd wr msg expect_len timeout delay 0 l = Some ([], None, l)"
| "serial_turns rd wr msg expect_len timeout delay (Suc n) l =
     (case serial_poll rd wr expect_len timeout l of
        None \<Rightarrow> None
      | Some (shown, l') \<Rightarrow>
          (let out = serial_print msg expect_len shown in
           case py_sleep delay of
             Inl e \<Rightarrow> Some ([out], Some e, l')
           | Inr u \<Rightarrow>
               (case serial_turns rd wr msg expect_len timeout delay n l' of
                  None \<Rightarrow> None
                | Some (outs, e, l'') \<Rightarrow> Some (out # outs, e, l''))))"

text \<open>
  \<open>main\<close> after its arguments, for \<open>n\<close> turns: what is printed of the response to the signature query, the
  screens, and the exception that ended the program. The query stands outside the \<open>try\<close>.
\<close>

definition serial_main ::
  "(nat \<Rightarrow> 's \<Rightarrow> bytes \<times> 's) \<Rightarrow> (bytes \<Rightarrow> 's \<Rightarrow> 's) \<Rightarrow> (py_error \<Rightarrow> string) \<Rightarrow> int \<Rightarrow> pyfloat \<Rightarrow> int \<Rightarrow> nat \<Rightarrow>
     's dash_link \<Rightarrow> (string option \<times> string list \<times> py_error option) option" where
  "serial_main rd wr msg timeout_ms hz expect_len n l =
     (case bindE (bindE (py_float timeout_ms) (\<lambda>t. py_div t (Fin 1000))) (\<lambda>timeout_s.
             bindE (py_div (Fin 1) (py_max hz (lit (1/10)))) (\<lambda>delay. Inr (timeout_s, delay))) of
        Inl e \<Rightarrow> Some (None, [], Some e)
      | Inr (timeout_s, delay) \<Rightarrow>
          (case send_newserial rd wr (encode ''Q'') (Fin 1) l of
             None \<Rightarrow> None
           | Some (Inl e, l') \<Rightarrow> Some (None, [], Some e)
           | Some (Inr q, l') \<Rightarrow>
               (case serial_turns rd wr msg expect_len timeout_s delay n l' of
                  None \<Rightarrow> None
                | Some (outs, e, l'') \<Rightarrow> Some (Some (decode_replace (slice q 0 80)), outs, e))))"

section \<open>What it shows\<close>

lemma send_newserial_eq: "send_newserial rd wr payload timeout l = send_command rd wr payload timeout l"
  by (simp add: send_newserial_def send_command_def)

lemma unpack_16: "unpack_from (ord, c) b off = Inr k \<Longrightarrow> calcsize c = 2 \<Longrightarrow> py_float k = Inr (Fin (of_int k))"
proof -
  assume "unpack_from (ord, c) b off = Inr k" and c: "calcsize c = 2"
  then have "\<bar>k\<bar> < 256 ^ calcsize (snd (ord, c))" by (intro unpack_little_range)
  with c show ?thesis by (intro py_float_small) simp
qed

lemma unpack_from_fits:
  "0 \<le> off \<Longrightarrow> off + int (calcsize (snd f)) \<le> int (length b) \<Longrightarrow> \<exists>k. unpack_from f b off = Inr k"
  "0 \<le> off \<Longrightarrow> int (length b) < off + int (calcsize (snd f)) \<Longrightarrow> unpack_from f b off = Inl StructError"
  by (auto simp: unpack_from_def resolve_offset_def struct_unpack_def)

lemma tenths_fits:
  "0 \<le> off \<Longrightarrow> off + 2 \<le> int (length b) \<Longrightarrow> \<exists>x. tenths b off = Inr x"
  "0 \<le> off \<Longrightarrow> int (length b) < off + 2 \<Longrightarrow> tenths b off = Inl StructError"
proof -
  assume "0 \<le> off" "off + 2 \<le> int (length b)"
  with unpack_from_fits(1) [of off "(LittleEndian, FmtSh)" b] obtain k where k: "s16le b off = Inr k" by (auto simp: s16le_def)
  moreover have "py_float k = Inr (Fin (of_int k))" by (rule unpack_16 [OF k [unfolded s16le_def]]) simp
  ultimately show "\<exists>x. tenths b off = Inr x" by (simp add: tenths_def)
qed (simp add: tenths_def s16le_def unpack_from_fits(2))

text \<open>
  The decoder takes exactly the blocks of at least 32 bytes; a shorter one is an error, which the
  loop turns into a screen of zeros.
\<close>

lemma serial_decode_iff: "(\<exists>d. serial_decode outpc = Inr d) \<longleftrightarrow> 32 \<le> length outpc"
proof
  assume "\<exists>d. serial_decode outpc = Inr d"
  then obtain x where "tenths outpc 30 = Inr x" by (auto simp: serial_decode_def bindE_eq_Inr)
  with tenths_fits(2) [of 30 outpc] show "32 \<le> length outpc" by (cases "32 \<le> length outpc") auto
next
  assume len: "32 \<le> length outpc"
  then have "\<exists>x. tenths outpc i = Inr x" if "i \<in> {8, 18, 20, 22, 24, 28, 30}" for i
    using that by (intro tenths_fits(1)) auto
  then obtain t where t: "\<And>i. i \<in> {8, 18, 20, 22, 24, 28, 30} \<Longrightarrow> tenths outpc i = Inr (t i)" by metis
  obtain k j where kj: "unpack_from (BigEndian, FmtH) outpc 0 = Inr k" "u16le outpc 6 = Inr j"
    using len unpack_from_fits(1) [of 0 "(BigEndian, FmtH)" outpc] unpack_from_fits(1) [of 6 "(LittleEndian, FmtH)" outpc]
    by (auto simp: u16le_def)
  show "\<exists>d. serial_decode outpc = Inr d" by (simp add: serial_decode_def kj t)
qed

text \<open>The throttle it shows lies between 0 and 100.\<close>

lemma tenths_finite: "tenths b off = Inr x \<Longrightarrow> inside (- 65536) 65536 x"
proof -
  assume "tenths b off = Inr x"
  then obtain k where k: "s16le b off = Inr k" and x: "bindE (py_float k) (\<lambda>x. Inr (py_mul x (lit (1/10)))) = Inr x"
    by (auto simp: tenths_def bindE_eq_Inr)
  have f: "py_float k = Inr (Fin (of_int k))" by (rule unpack_16 [OF k [unfolded s16le_def]]) simp
  have "\<bar>k\<bar> < 256 ^ calcsize (snd (LittleEndian, FmtSh))" using k unfolding s16le_def by (rule unpack_little_range)
  then have "- 65536 \<le> k" "k \<le> 65536" by simp_all
  then have "(of_int (- 65536) :: rat) \<le> of_int k" "(of_int k :: rat) \<le> of_int 65536" by (simp_all only: of_int_le_iff)
  then have kb: "\<bar>of_int k :: rat\<bar> \<le> 65536" by (simp add: abs_le_iff)
  have "inside 0 1 (lit (1/10))" by (rule inside_rnd) (simp_all add: float_bounds)
  then obtain y where y: "lit (1/10) = Fin y" "\<bar>y\<bar> \<le> 1" by (auto simp: inside_def)
  have "\<bar>of_int k * y\<bar> \<le> 65536 * 1" unfolding abs_mult using kb y(2) by (intro mult_mono) simp_all
  then have "- 65536 \<le> of_int k * y" "of_int k * y \<le> 65536" by (simp_all add: abs_le_iff)
  then have "inside (- 65536) 65536 (rnd (of_int k * y))"
    using representable_int [of 65536] representable_int [of "- 65536"] by (intro inside_rnd) simp_all
  then show ?thesis using x by (simp add: f y(1))
qed

lemma serial_tps_clamped: "serial_decode outpc = Inr d \<Longrightarrow> inside 0 100 (sv_tps d)"
proof -
  have "inside a b x \<Longrightarrow> inside 0 100 (serial_clamp x (Fin 0) (Fin 100))" for a b x
    by (cases x) (auto simp: serial_clamp_def inside_def)
  then show "serial_decode outpc = Inr d \<Longrightarrow> inside 0 100 (sv_tps d)"
    by (auto simp: serial_decode_def bindE_eq_Inr dest!: tenths_finite)
qed

text \<open>
  The loop goes on whatever the port returns; but the program does not come to it when the ECU
  does not answer the signature query.
\<close>

lemma serial_turns_return:
  assumes "advancing (ticks l)" and "T \<le> 2 ^ 100" and "py_sleep delay = Inr ()"
  shows "\<exists>outs l'. serial_turns rd wr msg expect_len (Fin T) delay n l = Some (outs, None, l') \<and> length outs = n"
  using assms(1)
proof (induction n arbitrary: l)
  case (Suc n)
  have "length (encode ''A'') \<le> 65535" by simp
  from send_command_returns [OF Suc.prems assms(2) this, of rd wr] obtain r l' where
    r: "send_command rd wr (encode ''A'') (Fin T) l = Some (r, l')" "advancing (ticks l')" by blast
  from Suc.IH [OF r(2)] r(1) assms(3) show ?case by (auto simp: serial_poll_def send_newserial_eq)
qed simp

lemma serial_needs_signature:
  assumes "send_command rd wr (encode ''Q'') (Fin 1) l = Some (Inl e, l')"
    and "\<bar>timeout_ms\<bar> < 2 ^ 53" and "hz \<noteq> NaN"
  shows "serial_main rd wr msg timeout_ms hz expect_len n l = Some (None, [], Some e)"
  using dash_timeout_ok [OF assms(2)] dash_delay_ok [OF assms(3)] assms(1)
  by (auto simp: serial_main_def send_newserial_eq)

end
