(* ===== verification/WorkDash.thy ===== *)
theory WorkDash
  imports SerialDash
begin

text \<open>
  The two dashboards of \<open>work-ms2d-daemon\<close>. \<open>ms2_ini_dash.py\<close> and \<open>ms2_serial_dash.py\<close> there are byte for
  byte the files of \<open>exampleFiles\<close>; their functions are those of \<open>DashIni\<close>, \<open>DashScreen\<close> and
  \<open>SerialDash\<close>, under names of their own for what is said of the programs in that directory.
\<close>

section \<open>\<open>ms2_ini_dash.py\<close>\<close>

definition work_dash_parse :: "bytes \<Rightarrow> ((string, dash_field) dict \<times> int) result" where
  "work_dash_parse = parse_ini_output_channels"

definition work_dash_field_line :: "string \<Rightarrow> dash_field option result" where
  "work_dash_field_line = dash_field_line"

definition work_dash_split :: "string \<Rightarrow> string list" where
  "work_dash_split = dash_split_quotes"

definition work_dash_numeric :: "string \<Rightarrow> pyfloat" where
  "work_dash_numeric = parse_numeric_or_expr"

definition work_dash_send ::
  "(nat \<Rightarrow> 's \<Rightarrow> bytes \<times> 's) \<Rightarrow> (bytes \<Rightarrow> 's \<Rightarrow> 's) \<Rightarrow> bytes \<Rightarrow> pyfloat \<Rightarrow> 's dash_link \<Rightarrow>
     (bytes result \<times> 's dash_link) option" where
  "work_dash_send = send_command"

definition work_dash_decode :: "bytes \<Rightarrow> (string, dash_field) dict \<Rightarrow> (string, dash_value) dict result" where
  "work_dash_decode = decode_outpc"

definition work_dash_print :: "(py_error \<Rightarrow> string) \<Rightarrow> int \<Rightarrow> dash_screen \<Rightarrow> string \<times> py_error option" where
  "work_dash_print = print_dashboard"

definition work_dash_poll ::
  "(nat \<Rightarrow> 's \<Rightarrow> bytes \<times> 's) \<Rightarrow> (bytes \<Rightarrow> 's \<Rightarrow> 's) \<Rightarrow> (string, dash_field) dict \<Rightarrow> int \<Rightarrow> pyfloat \<Rightarrow>
     's dash_link \<Rightarrow> (dash_screen \<times> 's dash_link) option" where
  "work_dash_poll = dash_poll"

definition work_dash_main ::
  "(nat \<Rightarrow> 's \<Rightarrow> bytes \<times> 's) \<Rightarrow> (bytes \<Rightarrow> 's \<Rightarrow> 's) \<Rightarrow> (py_error \<Rightarrow> string) \<Rightarrow> bytes option \<Rightarrow> bool \<Rightarrow> int \<Rightarrow>
     pyfloat \<Rightarrow> nat \<Rightarrow> 's dash_link \<Rightarrow> 's dash_run option" where
  "work_dash_main = dash_main"

section \<open>\<open>ms2_serial_dash.py\<close>\<close>

definition work_serial_send ::
  "(nat \<Rightarrow> 's \<Rightarrow> bytes \<times> 's) \<Rightarrow> (bytes \<Rightarrow> 's \<Rightarrow> 's) \<Rightarrow> bytes \<Rightarrow> pyfloat \<Rightarrow> 's dash_link \<Rightarrow>
     (bytes result \<times> 's dash_link) option" where
  "work_serial_send = send_newserial"

definition work_serial_decode :: "bytes \<Rightarrow> serial_values result" where
  "work_serial_decode = serial_decode"

definition work_serial_print :: "(py_error \<Rightarrow> string) \<Rightarrow> int \<Rightarrow> serial_values \<times> nat result option \<Rightarrow> string" where
  "work_serial_print = serial_print"

definition work_serial_main ::
  "(nat \<Rightarrow> 's \<Rightarrow> bytes \<times> 's) \<Rightarrow> (bytes \<Rightarrow> 's \<Rightarrow> 's) \<Rightarrow> (py_error \<Rightarrow> string) \<Rightarrow> int \<Rightarrow> pyfloat \<Rightarrow> int \<Rightarrow> nat \<Rightarrow>
     's dash_link \<Rightarrow> (string option \<times> string list \<times> py_error option) option" where
  "work_serial_main = serial_main"

lemmas work_dash_shared = work_dash_parse_def work_dash_field_line_def work_dash_split_def work_dash_numeric_def
  work_dash_send_def work_dash_decode_def work_dash_print_def work_dash_poll_def work_dash_main_def
  work_serial_send_def work_serial_decode_def work_serial_print_def work_serial_main_def

end
