(* ===== verification/WorkSpec.thy ===== *)
theory WorkSpec
  imports WorkSim WorkDash
begin

text \<open>
  Properties of the earlier stand-alone simulator: when its reader takes a request, and what a
  dashboard shows of its engine.
\<close>

section \<open>Reads that may be short\<close>

text \<open>
  A read of a terminal gives some of the bytes that arrive, in order, at least one where there
  is any.
\<close>

definition got :: "bytes result \<times> 's \<Rightarrow> bytes" where
  "got m = (case fst m of Inr c \<Rightarrow> c | Inl e \<Rightarrow> [])"

text \<open>The size of a frame with payload \<open>p\<close> arrives in one read, and so does its checksum.\<close>

definition arrives_whole :: "'s tty_read \<Rightarrow> bytes \<Rightarrow> 's \<Rightarrow> bool" where
  "arrives_whole rd p s \<longleftrightarrow> length (got (rd 2 s)) = 2 \<and>
     length (got (rd 4 (snd (work_payload rd (length p) [] (snd (rd 2 s)))))) = 4"

locale short_reads =
  fixes rd :: "'s tty_read"
    and avail :: "'s \<Rightarrow> bytes"
  assumes rd_takes: "rd n s = (Inr c, s') \<Longrightarrow> avail s = c @ avail s' \<and> length c \<le> n"
    and rd_gives: "0 < n \<Longrightarrow> avail s \<noteq> [] \<Longrightarrow> \<exists>c s'. rd n s = (Inr c, s') \<and> c \<noteq> []"
begin

lemma payload_collects:
  assumes "length payload \<le> want" and "want - length payload \<le> length (avail s)"
  shows "\<exists>s'. work_payload rd want payload s = (Inr (payload @ take (want - length payload) (avail s)), s') \<and>
    avail s' = drop (want - length payload) (avail s)"
  using assms
proof (induction "want - length payload" arbitrary: payload s rule: less_induct)
  case less
  show ?case
  proof (cases "length payload < want")
    case True
    let ?n = "want - length payload"
    have "0 < ?n" "avail s \<noteq> []" using True less.prems by auto
    from rd_gives [OF this] obtain c s1 where c: "rd ?n s = (Inr c, s1)" "c \<noteq> []" by blast
    from rd_takes [OF c(1)] have t: "avail s = c @ avail s1" "length c \<le> ?n" by simp_all
    have "\<exists>s'. work_payload rd want (payload @ c) s1 =
        (Inr ((payload @ c) @ take (want - length (payload @ c)) (avail s1)), s') \<and>
      avail s' = drop (want - length (payload @ c)) (avail s1)"
      using less.prems True c(2) t by (intro less.hyps) (auto simp: length_greater_0_conv [symmetric] simp del: length_greater_0_conv)
    with True c t show ?thesis by (subst work_payload.simps) auto
  next
    case False
    with less.prems show ?thesis by (subst work_payload.simps) auto
  qed
qed

text \<open>
  The outcome of reading a size, a payload and any four bytes is that of the two reads that are not
  repeated, and of the comparison of the checksum.
\<close>

lemma request_outcome:
  assumes a: "avail s = be_bytes 2 (length p) @ p @ c @ rest" and p: "length p < 65536" and c: "length c = 4"
  shows "fst (work_frame rd s) = Inr (if arrives_whole rd p s \<and> be_nat c = unat (crc32 p) then Some p else None) \<and>
    (arrives_whole rd p s \<longrightarrow> avail (snd (work_frame rd s)) = rest)"
proof -
  let ?h = "be_bytes 2 (length p)"
  have "length ?h = 2" by (rule length_be_bytes)
  then have ne: "?h \<noteq> []" "c \<noteq> []" using c by force+
  with a obtain h s1 where h: "rd 2 s = (Inr h, s1)" "h \<noteq> []" using rd_gives [of 2 s] by auto
  from rd_takes [OF h(1)] have h': "?h @ p @ c @ rest = h @ avail s1" "length h \<le> 2" using a by auto
  show ?thesis
  proof (cases "length h = 2")
    case True
    then have hh: "h = ?h" "avail s1 = p @ c @ rest" using h'(1) by (simp_all add: append_eq_append_conv del: be_bytes.simps)
    have size: "be_nat h = length p" using p unfolding hh(1) by (simp add: be_nat_be_bytes del: be_bytes.simps)
    obtain s2 where pl: "work_payload rd (length p) [] s1 = (Inr p, s2)" "avail s2 = c @ rest"
      using payload_collects [of "[]" "length p" s1] hh(2) by auto
    obtain t s3 where t: "rd 4 s2 = (Inr t, s3)" "t \<noteq> []" using rd_gives [of 4 s2] pl(2) ne(2) by auto
    from rd_takes [OF t(1)] have t': "c @ rest = t @ avail s3" "length t \<le> 4" using pl(2) by simp_all
    have whole: "arrives_whole rd p s \<longleftrightarrow> length t = 4" using h t pl True by (simp add: arrives_whole_def got_def)
    show ?thesis
    proof (cases "length t = 4")
      case True
      then have "t = c" "avail s3 = rest" using t'(1) c by (simp_all add: append_eq_append_conv)
      with whole True \<open>length h = 2\<close> h t pl show ?thesis
        by (simp add: work_frame_def read_then_def size crc32_ms_def)
    next
      case False
      with whole t'(2) \<open>length h = 2\<close> h t pl show ?thesis by (simp add: work_frame_def read_then_def size)
    qed
  next
    case False
    with h h'(2) show ?thesis by (simp add: work_frame_def read_then_def arrives_whole_def got_def)
  qed
qed

lemma frame_outcome:
  assumes "avail s = frame p @ rest" and "length p < 65536"
  shows "fst (work_frame rd s) = Inr (if arrives_whole rd p s then Some p else None)"
  using request_outcome [of s p "be_bytes 4 (unat (crc32 p))" rest] assms crc_unat_bound [of "crc32 p"]
  by (simp add: frame_def be_nat_be_bytes del: be_bytes.simps)

end

section \<open>The pseudo-terminal\<close>

text \<open>
  The terminal of \<open>Replay\<close>, where \<open>select\<close> and the read are two calls, and a read waits for bytes.
  The other side hangs up at the end of the arrivals.
\<close>

definition tty_ready :: "serial_fd tty_select" where
  "tty_ready fd =
     (case arrivals fd of
        [] \<Rightarrow> (pending fd \<noteq> [], fd)
      | Quiet # as \<Rightarrow> (pending fd \<noteq> [], fd\<lparr>arrivals := as\<rparr>)
      | Data bs # as \<Rightarrow> (pending fd @ bs \<noteq> [], fd\<lparr>pending := pending fd @ bs, arrivals := as\<rparr>)
      | Broken # as \<Rightarrow> (True, fd))"

fun next_data :: "poll list \<Rightarrow> (bytes \<times> poll list) option" where
  "next_data [] = None"
| "next_data (Quiet # as) = next_data as"
| "next_data (Data bs # as) = (if bs = [] then next_data as else Some (bs, as))"
| "next_data (Broken # as) = None"

definition tty_read :: "serial_fd tty_read" where
  "tty_read n fd =
     (if pending fd \<noteq> [] then (Inr (take n (pending fd)), fd\<lparr>pending := drop n (pending fd)\<rparr>)
      else case next_data (arrivals fd) of
             Some (bs, as) \<Rightarrow> (Inr (take n bs), \<lparr>pending = drop n bs, arrivals = as\<rparr>)
           | None \<Rightarrow> (Inl OSError, fd))"

text \<open>The bytes that arrive before the other side hangs up.\<close>

fun before_break :: "poll list \<Rightarrow> bytes" where
  "before_break [] = []"
| "before_break (Quiet # as) = before_break as"
| "before_break (Data bs # as) = bs @ before_break as"
| "before_break (Broken # as) = []"

lemma next_data_bytes:
  "next_data as = Some (bs, as') \<Longrightarrow> before_break as = bs @ before_break as' \<and> bs \<noteq> []"
  "next_data as = None \<Longrightarrow> before_break as = []"
  by (induction as rule: next_data.induct) (auto split: if_splits)

interpretation tty: short_reads tty_read "\<lambda>fd. pending fd @ before_break (arrivals fd)"
proof
  fix n :: nat and c and fd fd' :: serial_fd
  assume "tty_read n fd = (Inr c, fd')"
  then show "pending fd @ before_break (arrivals fd) = c @ pending fd' @ before_break (arrivals fd') \<and> length c \<le> n"
    by (auto simp: tty_read_def next_data_bytes split: if_splits option.splits)
next
  fix n :: nat and fd :: serial_fd
  assume "0 < n" "pending fd @ before_break (arrivals fd) \<noteq> []"
  then show "\<exists>c fd'. tty_read n fd = (Inr c, fd') \<and> c \<noteq> []"
    by (cases "next_data (arrivals fd)") (auto simp: tty_read_def next_data_bytes)
qed

lemma trailer_nonempty: "be_bytes 4 v \<noteq> []"
  using length_be_bytes [of 4 v] by force

section \<open>Properties of the reader\<close>

text \<open>
  C31: the earlier simulator takes a request exactly when its size and its checksum arrive whole and
  the checksum is that of the payload. On a terminal that has a size, a payload of that size of up to
  65535 bytes and four bytes more to deliver, in pieces of any size, the reader returns the payload if
  one read gives both bytes of the size, one read all four of the checksum, and they are the payload's
  checksum; otherwise it returns nothing. When the reads are whole it has taken these bytes and no more,
  whether the checksum agrees or not.
\<close>

theorem work_reads_whole_frames:
  assumes "tty_ready fd0 = (True, fd)"
    and "pending fd @ before_break (arrivals fd) = be_bytes 2 (length p) @ p @ c @ rest"
    and "length p < 65536" and "length c = 4"
  shows "fst (work_read_request tty_ready tty_read fd0) =
      Inr (if arrives_whole tty_read p fd \<and> be_nat c = unat (crc32 p) then Some p else None) \<and>
    (arrives_whole tty_read p fd \<longrightarrow>
      (let fd' = snd (work_read_request tty_ready tty_read fd0) in pending fd' @ before_break (arrivals fd') = rest))"
  using tty.request_outcome [OF assms(2,3,4)] assms(1)
  by (simp add: work_read_request_def Let_def case_prod_beta)

text \<open>
  Here the first byte of the size arrives alone: the request is lost, and its rest stays as a false
  start. A request that arrives whole is taken, and one whose checksum is not the payload's is not.
\<close>

theorem work_reads_whole_frames_witness:
  "fst (work_read_request tty_ready tty_read \<lparr>pending = [], arrivals = [Data [0], Data (drop 1 (frame [0x51]))]\<rparr>) = Inr None \<and>
   fst (work_read_request tty_ready tty_read \<lparr>pending = [], arrivals = [Data (frame [0x51])]\<rparr>) = Inr (Some [0x51]) \<and>
   fst (work_read_request tty_ready tty_read \<lparr>pending = [], arrivals = [Data [0, 0, 0, 0, 0, 1]]\<rparr>) = Inr None"
proof (intro conjI)
  let ?t = "be_bytes 4 (unat (crc32 [0x51]))"
  have f: "frame [0x51] = [0, 1, 0x51] @ ?t"
    by (simp add: frame_def be_bytes_2 del: be_bytes.simps)
  have h: "be_bytes 2 (Suc 0) = [0, 1]" by (simp add: be_bytes_2 del: be_bytes.simps)
  have t: "length ?t = 4" by (rule length_be_bytes)
  have crc: "be_nat ?t = unat (crc32 [0x51])"
    using crc_unat_bound [of "crc32 [0x51]"] by (simp add: be_nat_be_bytes del: be_bytes.simps)
  have "\<not> arrives_whole tty_read [0x51] \<lparr>pending = [0], arrivals = [Data (drop 1 (frame [0x51]))]\<rparr>"
    by (simp add: arrives_whole_def got_def tty_read_def)
  with work_reads_whole_frames [of "\<lparr>pending = [], arrivals = [Data [0], Data (drop 1 (frame [0x51]))]\<rparr>"
      "\<lparr>pending = [0], arrivals = [Data (drop 1 (frame [0x51]))]\<rparr>" "[0x51]" ?t "[]"]
  show "fst (work_read_request tty_ready tty_read \<lparr>pending = [], arrivals = [Data [0], Data (drop 1 (frame [0x51]))]\<rparr>) = Inr None"
    by (simp add: tty_ready_def f h t del: be_bytes.simps)
  have "arrives_whole tty_read [0x51] \<lparr>pending = frame [0x51], arrivals = []\<rparr>"
    by (simp add: f arrives_whole_def got_def tty_read_def work_payload.simps numeral_2_eq_2 trailer_nonempty del: be_bytes.simps)
  with work_reads_whole_frames [of "\<lparr>pending = [], arrivals = [Data (frame [0x51])]\<rparr>"
      "\<lparr>pending = frame [0x51], arrivals = []\<rparr>" "[0x51]" ?t "[]"]
  show "fst (work_read_request tty_ready tty_read \<lparr>pending = [], arrivals = [Data (frame [0x51])]\<rparr>) = Inr (Some [0x51])"
    by (simp add: tty_ready_def f h t crc del: be_bytes.simps)
  have e: "be_bytes 2 0 = [0, 0]" "crc32 [] = 0" by (simp_all add: be_bytes_2 crc32_def del: be_bytes.simps)
  from work_reads_whole_frames [of "\<lparr>pending = [], arrivals = [Data [0, 0, 0, 0, 0, 1]]\<rparr>"
      "\<lparr>pending = [0, 0, 0, 0, 0, 1], arrivals = []\<rparr>" "[]" "[0, 0, 0, 1]" "[]"]
  show "fst (work_read_request tty_ready tty_read \<lparr>pending = [], arrivals = [Data [0, 0, 0, 0, 0, 1]]\<rparr>) = Inr None"
    by (simp add: tty_ready_def e be_nat_def del: be_bytes.simps)
qed

section \<open>The dashboard on the simulator\<close>

text \<open>Each channel of a decoded block is decoded from the block.\<close>

lemma decode_outpc_step:
  "foldE (\<lambda>(n, f) res. bindE (decode_field data f) (\<lambda>v. Inr (dict_set n v res))) fs res = Inr d \<Longrightarrow> dict_ok fs \<Longrightarrow>
     (case dict_get fs n of
        Some f \<Rightarrow> \<exists>v. decode_field data f = Inr v \<and> dict_get d n = Some v
      | None \<Rightarrow> dict_get d n = dict_get res n)"
proof (induction fs arbitrary: res)
  case (Cons x fs)
  obtain m f where x: "x = (m, f)" by (cases x)
  with Cons.prems(1) obtain v where v: "decode_field data f = Inr v"
    "foldE (\<lambda>(n, f) res. bindE (decode_field data f) (\<lambda>v. Inr (dict_set n v res))) fs (dict_set m v res) = Inr d"
    by (auto simp: bindE_eq_Inr)
  have new: "dict_get fs m = None" using Cons.prems(2) x by (simp add: map_of_eq_None_iff)
  have ih: "case dict_get fs n of
      Some f \<Rightarrow> \<exists>v. decode_field data f = Inr v \<and> dict_get d n = Some v
    | None \<Rightarrow> dict_get d n = dict_get (dict_set m v res) n"
    by (rule Cons.IH [OF v(2)]) (use Cons.prems(2) x in simp)
  show ?case
  proof (cases "n = m")
    case True
    with ih new x v(1) show ?thesis by (simp add: dict_get_set)
  next
    case False
    with ih x show ?thesis by (simp add: dict_get_set split: option.split option.split_asm)
  qed
qed simp

lemma decode_outpc_get:
  "decode_outpc data fs = Inr d \<Longrightarrow> dict_ok fs \<Longrightarrow> dict_get fs n = Some f \<Longrightarrow>
     \<exists>v. decode_field data f = Inr v \<and> dict_get d n = Some v"
  using decode_outpc_step [of data fs "[]" d n] by (simp add: decode_outpc_def)

text \<open>
  The terminal between the two: what the dashboard writes meets one turn of the simulator, at the
  time the port shows; what the simulator writes waits to be read.
\<close>

record work_port =
  wp_sim :: work_sim
  wp_inbound :: bytes
  wp_now :: pyfloat
  wp_later :: "pyfloat stream"

definition work_port_read :: "nat \<Rightarrow> work_port \<Rightarrow> bytes \<times> work_port" where
  "work_port_read n p = (take n (wp_inbound p), p\<lparr>wp_inbound := drop n (wp_inbound p)\<rparr>)"

definition work_port_write :: "bytes \<Rightarrow> work_port \<Rightarrow> work_port" where
  "work_port_write data p =
     (let (out, e, sim, fd) = work_turn tty_ready tty_read (wp_now p) (wp_later p) (wp_sim p)
            \<lparr>pending = data, arrivals = []\<rparr>
      in p\<lparr>wp_sim := sim, wp_inbound := wp_inbound p @ (case out of Some r \<Rightarrow> r | None \<Rightarrow> [])\<rparr>)"

interpretation work_source: byte_source work_port_read wp_inbound
  by unfold_locales (simp_all add: work_port_read_def)

lemma read_pending_frame:
  assumes "length p < 65536"
  shows "fst (work_read_request tty_ready tty_read \<lparr>pending = frame p, arrivals = []\<rparr>) = Inr (Some p)"
proof -
  let ?fd = "\<lparr>pending = frame p, arrivals = []\<rparr>"
  have "tty_ready ?fd = (True, ?fd)" by (simp add: tty_ready_def)
  moreover have "arrives_whole tty_read p ?fd"
  proof -
    let ?t = "be_bytes 4 (unat (crc32 p))"
    have "be_bytes 2 (length p) \<noteq> []" using length_be_bytes [of 2 "length p"] by force
    then have h: "tty_read 2 ?fd = (Inr (be_bytes 2 (length p)), \<lparr>pending = p @ ?t, arrivals = []\<rparr>)"
      by (simp add: tty_read_def frame_def del: be_bytes.simps)
    have "work_payload tty_read (length p) [] \<lparr>pending = p @ ?t, arrivals = []\<rparr> = (Inr p, \<lparr>pending = ?t, arrivals = []\<rparr>)"
      by (cases p) (simp_all add: work_payload.simps tty_read_def del: be_bytes.simps)
    with h show ?thesis
      by (simp add: arrives_whole_def got_def tty_read_def trailer_nonempty del: be_bytes.simps)
  qed
  ultimately show ?thesis
    using tty.frame_outcome [of ?fd p "[]"] assms by (simp add: work_read_request_def case_prod_beta)
qed

text \<open>
  C32: the dashboard shows the engine of the simulator. A turn of \<open>ms2_ini_dash.py\<close> on the port of an
  idle simulator, both with the same channel definitions, while the clock stays within the
  time-out: the simulator takes a step of its engine, builds the block of that state and answers; the
  dashboard shows no error, and every scalar channel the simulator values that no other of its
  channels overlaps has the value \<open>(k + translate) * scale\<close>, for the integer \<open>k\<close> that the simulator
  packed for it.
\<close>

theorem work_dash_shows_engine:
  assumes "wp_inbound (link l) = []"
    and "example_update (py_sub (wp_now (link l)) (ws_last_update (wp_sim (link l)))) (xw_engine w) (xw_draws w) = (Inr eng, g)"
    and "w = ws_world (wp_sim (link l))"
    and "fst (build_example (w\<lparr>xw_engine := eng, xw_draws := g, xw_clock := wp_later (link l)\<rparr>)) = Inr b"
    and "fst (example_values (shd (wp_later (link l))) eng g) = Inr vals"
    and "map_of (rev vals) n = Some v" and "dict_get (xw_fields w) n = Some f"
    and "dash_placed (nat (xw_block_size w)) f" and "df_type f = ''scalar''"
    and "\<And>m h. m \<noteq> n \<Longrightarrow> m \<in> fst ` set vals \<Longrightarrow> dict_get (xw_fields w) m = Some h \<Longrightarrow> dash_apart f h"
    and "0 \<le> xw_block_size w" and "xw_block_size w < 65535"
    and "dict_ok (xw_fields w)" and "list_all (\<lambda>(n, f). bits_ok f) (xw_fields w)" and "prompt timeout (ticks l)"
  shows "\<exists>d k l'. work_dash_poll work_port_read work_port_write (xw_fields w) (xw_block_size w) timeout l =
      Some (\<lparr>rows = dash_rows d (xw_fields w), payload_size = nat (xw_block_size w), status = StatusOk\<rparr>, l') \<and>
    example_raw f v = Inr k \<and>
    dict_get d n = Some (VFloat (py_mul (py_add (Fin (of_int k)) (df_translate f)) (df_scale f)))"
proof -
  let ?w1 = "w\<lparr>xw_engine := eng, xw_draws := g, xw_clock := wp_later (link l)\<rparr>"
  let ?p = "link l" and ?resp = "0x01 # b"
  have b: "length b = nat (xw_block_size w) \<and> (\<exists>k. example_raw f v = Inr k \<and>
      decode_field b f = Inr (VFloat (py_mul (py_add (Fin (of_int k)) (df_translate f)) (df_scale f))))"
    using dash_reads_example_aux [of ?w1 b vals n v f] assms(4-10) by simp
  obtain w2 where w2: "build_example ?w1 = (Inr b, w2)" using assms(4) by (cases "build_example ?w1") simp
  have resp: "work_response 0x01 b = Inr (frame ?resp)"
    using b assms(11,12) by (simp add: work_response_def example_response_eq build_response_eq)
  have handle: "work_handle ?w1 [0x41] = (Inr (frame ?resp), w2)"
    using w2 resp by (simp add: work_handle_def encode_def work_build_def)
  obtain fd where read: "work_read_request tty_ready tty_read \<lparr>pending = frame [0x41], arrivals = []\<rparr> = (Inr (Some [0x41]), fd)"
    using read_pending_frame [of "[0x41]"]
    by (cases "work_read_request tty_ready tty_read \<lparr>pending = frame [0x41], arrivals = []\<rparr>") simp
  have "fst (work_turn tty_ready tty_read (wp_now ?p) (wp_later ?p) (wp_sim ?p) \<lparr>pending = frame [0x41], arrivals = []\<rparr>) =
      Some (frame ?resp)"
    using assms(2,3) handle
    by (simp add: work_turn_def work_update_def read Let_def split: sum.split)
  then obtain e sim fd' where turn: "work_turn tty_ready tty_read (wp_now ?p) (wp_later ?p) (wp_sim ?p)
      \<lparr>pending = frame [0x41], arrivals = []\<rparr> = (Some (frame ?resp), e, sim, fd')"
    by (metis fst_conv prod_cases4)
  let ?q = "?p\<lparr>wp_sim := sim, wp_inbound := frame ?resp\<rparr>"
  have wr: "work_port_write (frame [0x41]) ?p = ?q"
    using assms(1) by (simp add: work_port_write_def turn)
  have "\<exists>l'. send_command work_port_read work_port_write [0x41] timeout l = Some (Inr ?resp, l')"
    using work_source.send_command_frame [of "[0x41]" work_port_write l ?resp "[]" timeout] b assms(11,12,15) wr by auto
  then obtain l' where sent: "send_command work_port_read work_port_write [0x41] timeout l = Some (Inr ?resp, l')" ..
  obtain d where d: "decode_outpc b (xw_fields w) = Inr d"
    using decode_outpc_total [OF assms(14,13)] by blast
  from decode_outpc_get [OF d assms(13,7)] b obtain k where "example_raw f v = Inr k"
    "dict_get d n = Some (VFloat (py_mul (py_add (Fin (of_int k)) (df_translate f)) (df_scale f)))" by auto
  with sent d b assms(11) show ?thesis
    by (auto simp: work_dash_poll_def dash_poll_def encode_def dash_show_def Let_def)
qed

definition sample_work_link :: "work_port dash_link" where
  "sample_work_link = \<lparr>link = \<lparr>wp_sim = \<lparr>ws_world = example_world0, ws_hz = Fin 64, ws_last_update = Fin 5,
       ws_last_stats = Fin 5, ws_request_count = 0\<rparr>, wp_inbound = [], wp_now = Fin 6, wp_later = sconst (Fin 6)\<rparr>,
     ticks = sconst (Fin 5)\<rparr>"

theorem work_dash_shows_engine_witness:
  "\<exists>d l' x. work_dash_poll work_port_read work_port_write [(''rpm'', rpm_field)] 209 (Fin (1/2)) sample_work_link =
      Some (\<lparr>rows = dash_rows d [(''rpm'', rpm_field)], payload_size = 209, status = StatusOk\<rparr>, l') \<and>
    dict_get d ''rpm'' = Some (VFloat x)"
proof -
  let ?w = example_world0
  have w: "example_world_ok ?w" by (rule example_world0_ok)
  have parts: "example_engine_ok (xw_engine ?w)" "draws_ok (xw_draws ?w)" "xw_fields ?w = [(''rpm'', rpm_field)]"
    "xw_block_size ?w = 209"
    using w by (simp_all add: example_world_ok_def, simp_all add: example_world0_def)
  have r1: "rnd 1 = Fin 1" using representable_int [of 1] by (simp add: representable_def)
  then have dt: "dt_real (py_sub (Fin 6) (Fin 5))" by (simp add: dt_real_def py_sub_def)
  obtain eng g where u: "example_update (py_sub (Fin 6) (Fin 5)) (xw_engine ?w) (xw_draws ?w) = (Inr eng, g)"
    "draws_ok g" "example_engine_ok eng"
    using safe_run [OF example_update_safe [OF parts(1) dt] parts(2)] by blast
  let ?w1 = "?w\<lparr>xw_engine := eng, xw_draws := g, xw_clock := sconst (Fin 6)\<rparr>"
  have "example_world_ok ?w1" using w u(2,3) by (simp add: example_world_ok_def clock_ok_def)
  from build_example_ok [OF this] obtain b where b: "fst (build_example ?w1) = Inr b" by force
  have start: "inside 0 (2 ^ 40) (x_start_time eng)" using u(3) by (simp add: example_engine_ok_def example_envelope_def)
  obtain secs where "example_seconds (Fin 6) eng = Inr secs"
    using example_seconds_moderate [OF _ start, of "Fin 6"] by auto
  from safe_run [OF example_values_rpm [OF this] u(2)] obtain vals where
    v: "fst (example_values (Fin 6) eng g) = Inr vals" "map_of (rev vals) ''rpm'' = Some (x_rpm eng)" by force
  have p: "prompt (Fin (1/2)) (ticks sample_work_link)"
    by (simp add: prompt_def py_sub_def rnd_zero sample_work_link_def)
  have "\<exists>d k l'. work_dash_poll work_port_read work_port_write (xw_fields ?w) (xw_block_size ?w) (Fin (1/2)) sample_work_link =
      Some (\<lparr>rows = dash_rows d (xw_fields ?w), payload_size = nat (xw_block_size ?w), status = StatusOk\<rparr>, l') \<and>
    example_raw rpm_field (x_rpm eng) = Inr k \<and>
    dict_get d ''rpm'' = Some (VFloat (py_mul (py_add (Fin (of_int k)) (df_translate rpm_field)) (df_scale rpm_field)))"
    by (rule work_dash_shows_engine [OF _ _ _ _ _ v(2), where g = g and b = b])
      (use u(1) b v(1) p in \<open>simp_all add: sample_work_link_def parts(3,4), simp_all add: dash_placed_def
         rpm_field_def dash_size_def bits_ok_def split: if_splits\<close>)
  then show ?thesis unfolding parts(3,4) by auto
qed

end
