(* ===== verification/ConnectionTest.thy ===== *)
theory ConnectionTest
  imports ReplayPort WorkSpec
begin

text \<open>
  The two test programs of \<open>testingTools\<close>: \<open>test_replay_connection.py\<close>, which asks a server the queries
  of a client and times polls, and \<open>test_f_command.py\<close>, which goes through the connection sequence of
  TunerStudio; what they conclude of a simulator, and of a server that refuses everything.
\<close>

section \<open>\<open>test_replay_connection.py\<close>\<close>

text \<open>
  Its \<open>build_request\<close> and \<open>read_response\<close> are those of the capture tool. One test: the request, and
  whether a response came; of a realtime block of eight bytes or more the speed is unpacked.
\<close>

definition test_query ::
  "(nat \<Rightarrow> 's \<Rightarrow> bytes \<times> 's) \<Rightarrow> (bytes \<Rightarrow> 's \<Rightarrow> 's) \<Rightarrow> bool \<Rightarrow> bytes \<Rightarrow> 's \<Rightarrow> bool result \<times> 's" where
  "test_query rd wr realtime payload s =
     (case build_request payload of
        Inl e \<Rightarrow> (Inl e, s)
      | Inr req \<Rightarrow>
          (let (resp, s') = read_response rd (wr req s)
           in (bindE resp (\<lambda>r.
                 case r of
                   None \<Rightarrow> Inr False
                 | Some (flag, data) \<Rightarrow>
                     if realtime \<and> 8 \<le> length data then bindE (unpack_from (LittleEndian, FmtH) data 6) (\<lambda>rpm. Inr True)
                     else Inr True), s')))"

text \<open>Tests one after the other; an exception ends them.\<close>

fun test_queries ::
  "(nat \<Rightarrow> 's \<Rightarrow> bytes \<times> 's) \<Rightarrow> (bytes \<Rightarrow> 's \<Rightarrow> 's) \<Rightarrow> (bool \<times> bytes) list \<Rightarrow> 's \<Rightarrow> bool list result \<times> 's" where
  "test_queries rd wr [] s = (Inr [], s)"
| "test_queries rd wr ((realtime, payload) # qs) s =
     (case test_query rd wr realtime payload s of
        (Inl e, s') \<Rightarrow> (Inl e, s')
      | (Inr ok, s') \<Rightarrow>
          (case test_queries rd wr qs s' of
             (Inl e, s'') \<Rightarrow> (Inl e, s'')
           | (Inr oks, s'') \<Rightarrow> (Inr (ok # oks), s'')))"

definition read_command :: "byte \<Rightarrow> nat \<Rightarrow> bytes" where
  "read_command table count = [0x72, 0, table] @ be_bytes 2 0 @ be_bytes 2 count"

definition test_simple_commands ::
  "(nat \<Rightarrow> 's \<Rightarrow> bytes \<times> 's) \<Rightarrow> (bytes \<Rightarrow> 's \<Rightarrow> 's) \<Rightarrow> 's \<Rightarrow> bool result \<times> 's" where
  "test_simple_commands rd wr s =
     (let (oks, s') = test_queries rd wr [(False, encode ''Q''), (True, encode ''A'')] s
      in (bindE oks (\<lambda>l. Inr (list_all (\<lambda>ok. ok) l)), s'))"

definition test_can_commands ::
  "(nat \<Rightarrow> 's \<Rightarrow> bytes \<times> 's) \<Rightarrow> (bytes \<Rightarrow> 's \<Rightarrow> 's) \<Rightarrow> 's \<Rightarrow> bool result \<times> 's" where
  "test_can_commands rd wr s =
     (let (oks, s') = test_queries rd wr
        [(False, read_command 0x0F 20), (False, read_command 0x0E 60), (True, read_command 0x07 209)] s
      in (bindE oks (\<lambda>l. Inr (list_all (\<lambda>ok. ok) l)), s'))"

definition test_rapid_polling ::
  "(nat \<Rightarrow> 's \<Rightarrow> bytes \<times> 's) \<Rightarrow> (bytes \<Rightarrow> 's \<Rightarrow> 's) \<Rightarrow> bool \<Rightarrow> 's \<Rightarrow> bool result \<times> 's" where
  "test_rapid_polling rd wr use_can s =
     (let payload = (if use_can then read_command 0x07 209 else encode ''A'');
          (oks, s') = test_queries rd wr (replicate 10 (False, payload)) s
      in (bindE oks (\<lambda>l. Inr (5 < length (filter (\<lambda>ok. ok) l))), s'))"

text \<open>\<open>main\<close>: the exit status. \<open>opened\<close> is the port, \<open>None\<close> where opening it raises \<open>SerialException\<close>.\<close>

definition run_test ::
  "bool \<Rightarrow> ('s \<Rightarrow> bool result \<times> 's) \<Rightarrow> bool list result \<times> 's \<Rightarrow> bool list result \<times> 's" where
  "run_test wanted test r =
     (case r of
        (Inl e, s) \<Rightarrow> (Inl e, s)
      | (Inr oks, s) \<Rightarrow> if wanted then (let (ok, s') = test s in (bindE ok (\<lambda>b. Inr (oks @ [b])), s')) else r)"

definition connection_test ::
  "(nat \<Rightarrow> 's \<Rightarrow> bytes \<times> 's) \<Rightarrow> (bytes \<Rightarrow> 's \<Rightarrow> 's) \<Rightarrow> 's option \<Rightarrow> bool \<Rightarrow> bool \<Rightarrow> int result" where
  "connection_test rd wr opened can_only simple_only =
     (case opened of
        None \<Rightarrow> Inr 1
      | Some s \<Rightarrow>
          bindE (fst (run_test (\<not> simple_only) (test_rapid_polling rd wr True)
                 (run_test (\<not> simple_only) (test_can_commands rd wr)
                 (run_test (\<not> can_only) (test_rapid_polling rd wr False)
                 (run_test (\<not> can_only) (test_simple_commands rd wr) (Inr [], s))))))
            (\<lambda>oks. Inr (if list_all (\<lambda>ok. ok) oks then 0 else 1)))"

section \<open>\<open>test_f_command.py\<close>\<close>

text \<open>
  Its reader works on the descriptor, with the loop of \<open>read_request\<close> of the earlier simulator for the
  payload. It takes what comes: the checksum is read and not compared, and a payload cut short by the
  end of the file counts.
\<close>

definition fd_response :: "'s tty_select \<Rightarrow> 's tty_read \<Rightarrow> 's \<Rightarrow> bytes option result \<times> 's" where
  "fd_response ready rd s0 =
     (let (r, s1) = ready s0 in
      if \<not> r then (Inr None, s1)
      else
        (let (x, s') =
           read_then (rd 2 s1) (\<lambda>size_bytes s2.
             if length size_bytes < 2 then (Inr None, s2)
             else read_then (work_payload rd (be_nat size_bytes) [] s2) (\<lambda>payload s3.
               read_then (rd 4 s3) (\<lambda>crc_bytes s4. (Inr (Some payload), s4))))
         in (catchE x (\<lambda>e. e = OSError) (Inr None), s')))"

text \<open>
  A step: a framed request and a response that is not empty; of a block longer than eight bytes the
  speed is unpacked.
\<close>

definition fd_query ::
  "'s tty_select \<Rightarrow> 's tty_read \<Rightarrow> (bytes \<Rightarrow> 's \<Rightarrow> 's) \<Rightarrow> bool \<Rightarrow> bytes \<Rightarrow> 's \<Rightarrow>
     bool result \<times> 's" where
  "fd_query ready rd wr realtime payload s =
     (case build_request payload of
        Inl e \<Rightarrow> (Inl e, s)
      | Inr req \<Rightarrow>
          (let (resp, s') = fd_response ready rd (wr req s)
           in (bindE resp (\<lambda>r.
                 case r of
                   None \<Rightarrow> Inr False
                 | Some [] \<Rightarrow> Inr False
                 | Some (flag # data) \<Rightarrow>
                     if realtime \<and> 8 < length data
                     then bindE (struct_unpack (LittleEndian, FmtH) (slice data 6 8)) (\<lambda>rpm. Inr True)
                     else Inr True), s')))"

text \<open>\<open>test_connection\<close> on an open port: whether all three steps succeeded.\<close>

definition f_command_test ::
  "'s tty_select \<Rightarrow> 's tty_read \<Rightarrow> (bytes \<Rightarrow> 's \<Rightarrow> 's) \<Rightarrow> 's \<Rightarrow> bool result" where
  "f_command_test ready rd wr s =
     (let (r, s1) = ready (wr (encode ''F'') s);
          (first, s2) = (if r then (let (x, s') = rd 10 s1 in (bindE x (\<lambda>resp. Inr (resp = encode ''002'')), s'))
                         else (Inr False, s1))
      in bindE first (\<lambda>a.
         let (second, s3) = fd_query ready rd wr False (read_command 0x0F 20) s2
         in bindE second (\<lambda>b.
            let (third, s4) = fd_query ready rd wr True (read_command 0x07 209) s3
            in bindE third (\<lambda>c. Inr (a \<and> b \<and> c)))))"

section \<open>Ports that answer\<close>

definition test_requests :: "bytes list" where
  "test_requests = [encode ''Q'', encode ''A'', read_command 0x0F 20, read_command 0x0E 60, read_command 0x07 209]"

lemma test_requests_ok: "req \<in> set test_requests \<Longrightarrow> payload_ok req \<and> build_request req = Inr (frame req)"
  by (auto simp: test_requests_def read_command_def payload_ok_def build_request_eq)

text \<open>
  A port that answers each request of the tests with some response, and goes on doing so: what the
  test programs conclude depends on nothing else.
\<close>

locale answering_port =
  fixes rd :: "nat \<Rightarrow> 's \<Rightarrow> bytes \<times> 's" and wr :: "bytes \<Rightarrow> 's \<Rightarrow> 's" and answering :: "'s \<Rightarrow> bool"
  assumes answers: "answering s \<Longrightarrow> req \<in> set test_requests \<Longrightarrow>
    \<exists>flag data s'. read_response rd (wr (frame req) s) = (Inr (Some (flag, data)), s') \<and> answering s'"
begin

lemma query_answered:
  assumes "answering s" and "req \<in> set test_requests"
  shows "\<exists>s'. test_query rd wr realtime req s = (Inr True, s') \<and> answering s'"
proof -
  from answers [OF assms] obtain flag data s' where
    r: "read_response rd (wr (frame req) s) = (Inr (Some (flag, data)), s')" "answering s'" by blast
  have "8 \<le> length data \<Longrightarrow> \<exists>k. unpack_from (LittleEndian, FmtH) data 6 = Inr k"
    by (rule unpack_from_fits) simp_all
  with r test_requests_ok [OF assms(2)] show ?thesis by (auto simp: test_query_def)
qed

lemma queries_answered:
  "answering s \<Longrightarrow> snd ` set qs \<subseteq> set test_requests \<Longrightarrow>
     \<exists>s'. test_queries rd wr qs s = (Inr (replicate (length qs) True), s') \<and> answering s'"
proof (induction qs arbitrary: s)
  case (Cons q qs)
  then have "snd q \<in> set test_requests" by auto
  from query_answered [OF Cons.prems(1) this, of "fst q"] obtain s' where
    s': "test_query rd wr (fst q) (snd q) s = (Inr True, s')" "answering s'" by blast
  from Cons.IH [OF s'(2)] Cons.prems(2) obtain s'' where
    "test_queries rd wr qs s' = (Inr (replicate (length qs) True), s'')" "answering s''" by auto
  with s' show ?case by (cases q) auto
qed simp

lemma tests_pass:
  assumes "answering s"
  shows "\<exists>s'. test_simple_commands rd wr s = (Inr True, s') \<and> answering s'"
    and "\<exists>s'. test_can_commands rd wr s = (Inr True, s') \<and> answering s'"
    and "\<exists>s'. test_rapid_polling rd wr use_can s = (Inr True, s') \<and> answering s'"
proof -
  show "\<exists>s'. test_simple_commands rd wr s = (Inr True, s') \<and> answering s'"
    using queries_answered [OF assms, of "[(False, encode ''Q''), (True, encode ''A'')]"]
    by (auto simp: test_simple_commands_def test_requests_def list_all_iff)
  show "\<exists>s'. test_can_commands rd wr s = (Inr True, s') \<and> answering s'"
    using queries_answered [OF assms, of "[(False, read_command 0x0F 20), (False, read_command 0x0E 60), (True, read_command 0x07 209)]"]
    by (auto simp: test_can_commands_def test_requests_def list_all_iff)
  have "(if use_can then read_command 0x07 209 else encode ''A'') \<in> set test_requests" by (simp add: test_requests_def)
  with queries_answered [OF assms, of "replicate 10 (False, if use_can then read_command 0x07 209 else encode ''A'')"]
  show "\<exists>s'. test_rapid_polling rd wr use_can s = (Inr True, s') \<and> answering s'"
    by (auto simp: test_rapid_polling_def filter_replicate)
qed

lemma connection_test_passes:
  assumes "answering s"
  shows "connection_test rd wr (Some s) can_only simple_only = Inr 0"
proof -
  have step: "\<exists>s2. run_test wanted test (Inr oks, s1) = (Inr (oks @ (if wanted then [True] else [])), s2) \<and> answering s2"
    if "answering s1" "\<And>s. answering s \<Longrightarrow> \<exists>s'. test s = (Inr True, s') \<and> answering s'" for wanted test oks s1
    using that by (fastforce simp: run_test_def)
  obtain s1 where 1: "run_test (\<not> can_only) (test_simple_commands rd wr) (Inr [], s) =
      (Inr ([] @ (if \<not> can_only then [True] else [])), s1)" "answering s1"
    using step [where ?s1.0 = s and test = "test_simple_commands rd wr"] tests_pass(1) assms by blast
  obtain s2 where 2: "run_test (\<not> can_only) (test_rapid_polling rd wr False) (Inr ([] @ (if \<not> can_only then [True] else [])), s1) =
      (Inr (([] @ (if \<not> can_only then [True] else [])) @ (if \<not> can_only then [True] else [])), s2)" "answering s2"
    using step [where ?s1.0 = s1 and test = "test_rapid_polling rd wr False"] tests_pass(3) 1(2) by blast
  let ?l = "([] @ (if \<not> can_only then [True] else [])) @ (if \<not> can_only then [True] else [])"
  obtain s3 where 3: "run_test (\<not> simple_only) (test_can_commands rd wr) (Inr ?l, s2) =
      (Inr (?l @ (if \<not> simple_only then [True] else [])), s3)" "answering s3"
    using step [where ?s1.0 = s2 and test = "test_can_commands rd wr"] tests_pass(2) 2(2) by blast
  obtain s4 where 4: "run_test (\<not> simple_only) (test_rapid_polling rd wr True)
      (Inr (?l @ (if \<not> simple_only then [True] else [])), s3) =
      (Inr ((?l @ (if \<not> simple_only then [True] else [])) @ (if \<not> simple_only then [True] else [])), s4)"
    using step [where ?s1.0 = s3 and test = "test_rapid_polling rd wr True"] tests_pass(3) 3(2) by blast
  show ?thesis unfolding connection_test_def option.case 1(1) 2(1) 3(1) 4 by simp
qed

end

section \<open>Terminals that answer\<close>

text \<open>A terminal from which reads take what is there, as a descriptor.\<close>

definition fd_ready :: "('s \<Rightarrow> bytes) \<Rightarrow> 's tty_select" where
  "fd_ready avail s = (avail s \<noteq> [], s)"

definition fd_read :: "(nat \<Rightarrow> 's \<Rightarrow> bytes \<times> 's) \<Rightarrow> 's tty_read" where
  "fd_read rd n s = (let (d, s') = rd n s in (Inr d, s'))"

lemma fd_read_eq [simp]: "rd n s = (d, s') \<Longrightarrow> fd_read rd n s = (Inr d, s')"
  by (simp add: fd_read_def)

lemma read_response_keeps:
  "(\<And>n s. P s \<Longrightarrow> P (snd (rd n s))) \<Longrightarrow> P s \<Longrightarrow> P (snd (read_response rd s))"
  by (auto simp: read_response_def Let_def split: prod.splits list.splits if_splits) (metis snd_conv)+

text \<open>
  A server behind such a terminal that answers a request with one frame, and the version query with its
  three bytes, and is ready for the next once the answer is taken.
\<close>

locale answering_terminal = byte_source +
  fixes wr :: "bytes \<Rightarrow> 's \<Rightarrow> 's" and answering :: "'s \<Rightarrow> bool" and underway :: "'s \<Rightarrow> bool"
  assumes answers_request: "answering s \<Longrightarrow> req \<in> set test_requests \<Longrightarrow> underway (wr (frame req) s) \<and>
      (\<exists>flag data. avail (wr (frame req) s) = frame (flag # data) \<and> length data < 65535)"
    and answers_version: "answering s \<Longrightarrow> underway (wr (encode ''F'') s) \<and> avail (wr (encode ''F'') s) = encode ''002''"
    and read_underway: "underway s \<Longrightarrow> underway (snd (read n s))"
    and drained: "underway s \<Longrightarrow> avail s = [] \<Longrightarrow> answering s"
begin

lemma read_part:
  assumes "avail s = xs @ rest" and "underway s"
  shows "\<exists>s'. read (length xs) s = (xs, s') \<and> avail s' = rest \<and> underway s'"
  using read_exact [OF assms(1) refl] read_underway [OF assms(2), of "length xs"] by auto

lemma fd_response_frame:
  assumes "avail s = frame p" and "p \<noteq> []" and "length p < 65536" and "underway s"
  shows "\<exists>s'. fd_response (fd_ready avail) (fd_read read) s = (Inr (Some p), s') \<and> answering s'"
proof -
  let ?h = "be_bytes 2 (length p)" and ?c = "be_bytes 4 (unat (crc32 p))"
  have len: "length ?h = 2" "length ?c = 4" by (rule length_be_bytes)+
  have av: "avail s = ?h @ p @ ?c" using assms(1) by (simp add: frame_def)
  from read_part [OF av assms(4)] obtain s1 where
    s1: "read 2 s = (?h, s1)" "avail s1 = p @ ?c" "underway s1" by (auto simp del: be_bytes.simps)
  from read_part [OF s1(2,3)] obtain s2 where s2: "read (length p) s1 = (p, s2)" "avail s2 = ?c @ []" "underway s2" by auto
  from read_part [OF s2(2,3)] obtain s3 where
    s3: "read 4 s2 = (?c, s3)" "avail s3 = []" "underway s3" by (auto simp del: be_bytes.simps)
  have size: "be_nat ?h = length p" using assms(3) by (simp add: be_nat_be_bytes del: be_bytes.simps)
  have "work_payload (fd_read read) (length p) [] s1 = (Inr p, s2)"
    using assms(2) s2(1) by (simp add: work_payload.simps)
  moreover have "frame p \<noteq> []" by (auto dest: arg_cong [of _ _ length])
  ultimately have "fd_response (fd_ready avail) (fd_read read) s = (Inr (Some p), s3)"
    using s1(1) s3(1) len(1) assms(1)
    by (simp add: fd_response_def fd_ready_def read_then_def size del: be_bytes.simps)
  with drained [OF s3(3,2)] show ?thesis by blast
qed

lemma fd_query_answered:
  assumes "answering s" and "req \<in> set test_requests"
  shows "\<exists>s'. fd_query (fd_ready avail) (fd_read read) wr realtime req s = (Inr True, s') \<and> answering s'"
proof -
  from answers_request [OF assms] obtain flag data where
    r: "underway (wr (frame req) s)" "avail (wr (frame req) s) = frame (flag # data)" "length data < 65535" by blast
  from fd_response_frame [OF r(2) _ _ r(1)] r(3) obtain s' where
    s': "fd_response (fd_ready avail) (fd_read read) (wr (frame req) s) = (Inr (Some (flag # data)), s')" "answering s'" by auto
  have "8 < length data \<Longrightarrow> \<exists>k. struct_unpack (LittleEndian, FmtH) (slice data 6 8) = Inr k"
    by (simp add: struct_unpack_def slice_def)
  with s' test_requests_ok [OF assms(2)] show ?thesis by (auto simp: fd_query_def)
qed

lemma f_command_passes:
  assumes "answering s"
  shows "f_command_test (fd_ready avail) (fd_read read) wr s = Inr True"
proof -
  let ?w = "wr (encode ''F'') s"
  have v: "underway ?w" "avail ?w = encode ''002''" using answers_version [OF assms] by simp_all
  obtain s1 where s1: "read 10 ?w = (encode ''002'', s1)" "avail s1 = []"
    using read_bytes [of 10 ?w] read_avail [of 10 ?w] v(2) by (cases "read 10 ?w") (simp add: encode_def)
  with read_underway [OF v(1), of 10] drained have a1: "answering s1" by simp
  obtain s2 where s2: "fd_query (fd_ready avail) (fd_read read) wr False (read_command 0x0F 20) s1 = (Inr True, s2)" "answering s2"
    using fd_query_answered [OF a1] by (force simp: test_requests_def)
  obtain s3 where s3: "fd_query (fd_ready avail) (fd_read read) wr True (read_command 0x07 209) s2 = (Inr True, s3)"
    using fd_query_answered [OF s2(2)] by (force simp: test_requests_def)
  have "fd_ready avail ?w = (True, ?w)" using v(2) by (simp add: fd_ready_def encode_def)
  then show ?thesis using s1(1) s2(1) s3 by (simp add: f_command_test_def)
qed

end

sublocale answering_terminal \<subseteq> answering_port read wr answering
proof
  fix s req assume a: "answering s" "req \<in> set test_requests"
  from answers_request [OF this] obtain flag data where
    r: "underway (wr (frame req) s)" "avail (wr (frame req) s) = frame (flag # data) @ []" "length data < 65535" by auto
  from read_response_frame [OF r(2,3)] obtain s' where
    s': "read_response read (wr (frame req) s) = (Inr (Some (flag, data)), s')" "avail s' = []" by blast
  with read_response_keeps [of underway read, OF read_underway r(1)] drained
  show "\<exists>flag data s'. read_response read (wr (frame req) s) = (Inr (Some (flag, data)), s') \<and> answering s'" by auto
qed

section \<open>The servers answer\<close>

lemma idle_exchange:
  assumes p: "idle_simulator p" and req: "payload_ok req" and small: "\<And>t a. command_of req \<noteq> Read t a 65535"
  shows "\<exists>flag data p' w'. handle_request (protocol (ecu p)) (world (ecu p)) req = (Some (Inr (frame (flag # data))), p', w') \<and>
    length data < 65535 \<and> idle_simulator (p\<lparr>ecu := (ecu p)\<lparr>protocol := p', world := w'\<rparr>\<rparr>) \<and> config p' = config (protocol (ecu p))"
proof -
  let ?p = "protocol (ecu p)" and ?w = "world (ecu p)"
  have c: "conn_ok (ecu p)" and b: "buffer (ecu p) = []" "inbound p = []" using p by (simp_all add: idle_simulator_def)
  obtain out where out: "build ?w = (Inr out, ?w\<lparr>clock := stl (clock ?w)\<rparr>)"
    using build_world_ok [of ?w] c by (auto simp: conn_ok_def)
  have f: "fetch_outpc ?p ?w = (Inr out, ?w\<lparr>clock := stl (clock ?w)\<rparr>)"
    using out c by (simp add: fetch_outpc_def conn_ok_def)
  have ne: "req \<noteq> []" using req by (auto simp: payload_ok_def)
  obtain flag data where reply: "spec_reply (encode (signature (config ?p))) out (protocol_memory ?p) (command_of req) = (flag, data)"
    by (cases "spec_reply (encode (signature (config ?p))) out (protocol_memory ?p) (command_of req)")
  from handle_request_refines_aux [OF ne f] obtain p' w' where
    h: "handle_request ?p ?w req = (Some (build_response flag data), p', w')" "config p' = config ?p" unfolding reply by auto
  from handle_request_conn [OF c ne h(1)] have ok: "conn_ok ((ecu p)\<lparr>protocol := p', world := w', buffer := []\<rparr>)"
    and "build_response flag data \<noteq> Inl StructError"
    using small by (auto simp: oversized_read_def)
  then have "length data < 65535" "build_response flag data = Inr (frame (flag # data))"
    by (auto simp: build_response_eq split: if_splits)
  moreover have same: "(ecu p)\<lparr>protocol := p', world := w', buffer := []\<rparr> = (ecu p)\<lparr>protocol := p', world := w'\<rparr>"
    using b(1) by simp
  have "idle_simulator (p\<lparr>ecu := (ecu p)\<lparr>protocol := p', world := w'\<rparr>\<rparr>)"
    using ok b unfolding same by (simp add: idle_simulator_def)
  ultimately show ?thesis using h by metis
qed

lemma test_requests_small: "req \<in> set test_requests \<Longrightarrow> command_of req \<noteq> Read t a 65535"
proof -
  have c: "read_command tb n = can_request 0x72 0 tb 0 n" for tb n by (simp add: read_command_def can_request_def)
  assume "req \<in> set test_requests"
  then show ?thesis
    by (auto simp: test_requests_def c command_of_can_request, simp_all add: command_of_def encode_def)
qed

lemma simulator_writes:
  assumes "idle_simulator p" and "req \<in> set test_requests"
  shows "\<exists>flag data p'. port_write (frame req) p = p'\<lparr>inbound := frame (flag # data)\<rparr> \<and> length data < 65535 \<and>
    idle_simulator p' \<and> config (protocol (ecu p')) = config (protocol (ecu p))"
proof -
  have req: "payload_ok req" using test_requests_ok [OF assms(2)] by simp
  have b: "buffer (ecu p) = []" "inbound p = []" using assms(1) by (simp_all add: idle_simulator_def)
  from idle_exchange [OF assms(1) req] test_requests_small [OF assms(2)] obtain flag data pr w where
    h: "handle_request (protocol (ecu p)) (world (ecu p)) req = (Some (Inr (frame (flag # data))), pr, w)"
      "length data < 65535" "idle_simulator (p\<lparr>ecu := (ecu p)\<lparr>protocol := pr, world := w\<rparr>\<rparr>)"
      "config pr = config (protocol (ecu p))" by blast
  have "process_requests (add_data (frame req) (ecu p)) =
      ([frame (flag # data)], None, (ecu p)\<lparr>buffer := [], protocol := pr, world := w\<rparr>)"
    using process_one [of req "add_data (frame req) (ecu p)", OF req(1) _ ] b h(1) by (simp add: add_data_def)
  then have "port_write (frame req) p =
      (p\<lparr>ecu := (ecu p)\<lparr>protocol := pr, world := w\<rparr>\<rparr>)\<lparr>inbound := frame (flag # data)\<rparr>"
    using b by (simp add: port_write_def)
  moreover have "config (protocol (ecu (p\<lparr>ecu := (ecu p)\<lparr>protocol := pr, world := w\<rparr>\<rparr>))) = config (protocol (ecu p))"
    using h(4) by simp
  ultimately show ?thesis using h(2,3) by blast
qed

lemma simulator_version:
  assumes "idle_simulator p" and "protocol_version (config (protocol (ecu p))) = ''002''"
  shows "port_write (encode ''F'') p = p\<lparr>inbound := encode ''002''\<rparr>"
proof -
  have b: "buffer (ecu p) = []" "inbound p = []" using assms(1) by (simp_all add: idle_simulator_def)
  have "waiting []" by (simp add: waiting_def)
  moreover have "answers (add_data (encode ''F'') (ecu p)) [VersionQuery] =
      ([encode ''002''], None, add_data (encode ''F'') (ecu p))"
    using assms(2) by (simp add: add_data_def)
  ultimately have "process_requests (add_data (encode ''F'') (ecu p)) = ([encode ''002''], None, ecu p)"
    using process_stream [of "[VersionQuery]" "add_data (encode ''F'') (ecu p)" "[]"] b(1)
    by (auto simp: add_data_def encode_def)
  with b show ?thesis by (simp add: port_write_def)
qed

lemma parse_read_command: "n < 65536 \<Longrightarrow> parse_r_command (read_command t n) = Some (0, unat t, 0, n)"
  by (simp add: read_command_def parse_r_command_def slice_def be_bytes_2 be_nat_2 be_nat_def [of "[0, 0]"] del: be_nat_pair be_bytes.simps)

lemma test_requests_counts: "req \<in> set test_requests \<Longrightarrow> parse_r_command req = Some (c, t, a, n) \<Longrightarrow> n < 65535"
  by (auto simp: test_requests_def parse_read_command) (simp_all add: parse_r_command_def)

definition current_simulator :: "ecu_world ecu_port \<Rightarrow> bool" where
  "current_simulator p \<longleftrightarrow> idle_simulator p \<and> protocol_version (config (protocol (ecu p))) = ''002''"

interpretation simulators: answering_terminal port_read inbound port_write current_simulator
  "\<lambda>p. current_simulator (p\<lparr>inbound := []\<rparr>)"
proof
  fix p :: "ecu_world ecu_port" and req assume p: "current_simulator p" and r: "req \<in> set test_requests"
  from simulator_writes [OF _ r, of p] p obtain flag data p' where
    w: "port_write (frame req) p = p'\<lparr>inbound := frame (flag # data)\<rparr>" "length data < 65535" "current_simulator p'"
    by (auto simp: current_simulator_def)
  then have "p'\<lparr>inbound := []\<rparr> = p'" by (simp add: current_simulator_def idle_simulator_def)
  with w show "current_simulator ((port_write (frame req) p)\<lparr>inbound := []\<rparr>) \<and>
      (\<exists>flag data. inbound (port_write (frame req) p) = frame (flag # data) \<and> length data < 65535)" by auto
next
  fix p :: "ecu_world ecu_port" assume p: "current_simulator p"
  then have "p\<lparr>inbound := []\<rparr> = p" by (simp add: current_simulator_def idle_simulator_def)
  with p simulator_version [of p] show "current_simulator ((port_write (encode ''F'') p)\<lparr>inbound := []\<rparr>) \<and>
      inbound (port_write (encode ''F'') p) = encode ''002''" by (simp add: current_simulator_def del: encode_cmds)
next
  fix p :: "ecu_world ecu_port" assume "current_simulator (p\<lparr>inbound := []\<rparr>)" "inbound p = []"
  moreover from this(2) have "p\<lparr>inbound := []\<rparr> = p" by simp
  ultimately show "current_simulator p" by simp
qed (simp_all add: port_read_def)

interpretation replays: answering_terminal replay_read rp_inbound replay_write idle_replay
  "\<lambda>p. idle_replay (p\<lparr>rp_inbound := []\<rparr>)"
proof
  fix p req assume p: "idle_replay p" and r: "req \<in> set test_requests"
  have "serving (rp_server p)" using p by (simp add: idle_replay_def)
  from handle_replay_request_served [OF this, of req] test_requests_counts [OF r] obtain flag data where
    d: "fst (handle_replay_request (rp_server p) req) = Inr (frame (flag # data))" "length data < 65535"
    by (auto simp: readable_def)
  then obtain st where h: "handle_replay_request (rp_server p) req = (Inr (frame (flag # data)), st)"
    by (cases "handle_replay_request (rp_server p) req") simp
  have "payload_ok req" "length req \<le> 1018" using test_requests_ok [OF r] r by (auto simp: test_requests_def read_command_def)
  from replay_exchange [OF p this h] d(2)
  show "idle_replay ((replay_write (frame req) p)\<lparr>rp_inbound := []\<rparr>) \<and>
      (\<exists>flag data. rp_inbound (replay_write (frame req) p) = frame (flag # data) \<and> length data < 65535)" by auto
next
  fix p assume "idle_replay p"
  from replay_version [OF this]
  show "idle_replay ((replay_write (encode ''F'') p)\<lparr>rp_inbound := []\<rparr>) \<and>
      rp_inbound (replay_write (encode ''F'') p) = encode ''002''" by auto
next
  fix p assume "idle_replay (p\<lparr>rp_inbound := []\<rparr>)" "rp_inbound p = []"
  moreover from this(2) have "p\<lparr>rp_inbound := []\<rparr> = p" by simp
  ultimately show "idle_replay p" by simp
qed (simp_all add: replay_read_def)

section \<open>A server that refuses answers too\<close>

text \<open>A server that answers every request, whatever it is, with the error \<open>0x83\<close>.\<close>

definition refusing_read :: "nat \<Rightarrow> bytes \<Rightarrow> bytes \<times> bytes" where
  "refusing_read n s = (take n s, drop n s)"

definition refusing_write :: "bytes \<Rightarrow> bytes \<Rightarrow> bytes" where
  "refusing_write data s = s @ frame [0x83]"

interpretation refusing: answering_port refusing_read refusing_write "\<lambda>s. s = []"
proof
  fix s :: bytes and req assume "s = []"
  have f: "frame [0x83] = be_bytes 2 1 @ [0x83] @ be_bytes 4 (unat (crc32 [0x83]))" by (simp add: frame_def)
  have "be_nat (be_bytes 2 1) = 1" by (simp add: be_nat_be_bytes del: be_bytes.simps)
  then show "\<exists>flag data s'. read_response refusing_read (refusing_write (frame req) s) = (Inr (Some (flag, data)), s') \<and> s' = []"
    using \<open>s = []\<close> by (simp add: read_response_def refusing_read_def refusing_write_def f crc32_ms_def del: be_bytes.simps)
qed

text \<open>
  The verdict of \<open>test_replay_connection.py\<close> says nothing of the flags: the test of the server that
  refuses every request ends with "All tests PASSED".
\<close>

lemma refusals_pass: "connection_test refusing_read refusing_write (Some []) can_only simple_only = Inr 0"
  by (rule refusing.connection_test_passes) simp

section \<open>The servers pass the tests\<close>

text \<open>
  C28: the simulator and the replay server pass the repository's tests of a server. On the port of an
  idle simulator that serves the protocol version 002, and on that of an idle replay server, with blocks
  that fit a frame, \<open>test_replay_connection.py\<close> exits with 0, whichever of its parts are selected, and
  \<open>test_f_command.py\<close> finds all three steps successful: the version query without a frame, the
  signature and the realtime block.
\<close>

theorem servers_pass_tests:
  assumes "idle_simulator p" and "protocol_version (config (protocol (ecu p))) = ''002''" and "idle_replay q"
  shows "connection_test port_read port_write (Some p) can_only simple_only = Inr 0 \<and>
    f_command_test (fd_ready inbound) (fd_read port_read) port_write p = Inr True \<and>
    connection_test replay_read replay_write (Some q) can_only simple_only = Inr 0 \<and>
    f_command_test (fd_ready rp_inbound) (fd_read replay_read) replay_write q = Inr True"
  using assms simulators.connection_test_passes simulators.f_command_passes
    replays.connection_test_passes replays.f_command_passes
  by (simp add: current_simulator_def)

text \<open>The replay of a capture of two blocks of one byte passes too.\<close>

theorem servers_pass_tests_witness:
  "connection_test port_read port_write (Some sample_port) False False = Inr 0 \<and>
    f_command_test (fd_ready inbound) (fd_read port_read) port_write sample_port = Inr True \<and>
    f_command_test (fd_ready rp_inbound) (fd_read replay_read) replay_write
      \<lparr>rp_server = sample_replay True, rp_fd = quiet_fd, rp_inbound = []\<rparr> = Inr True"
proof -
  have v: "protocol_version (config (protocol (ecu sample_port))) = ''002''"
    by (simp add: sample_port_def sample_simulator_def ECUSimulator_fields init_pages_fields set_outpc_builder_def
        SerialProtocol_def ProtocolConfig_def)
  have "idle_replay \<lparr>rp_server = sample_replay True, rp_fd = quiet_fd, rp_inbound = []\<rparr>"
    by (simp add: idle_replay_def serving_def servable_def replay_ok_def sample_replay_def sample_frames_def encode_def)
  from servers_pass_tests [OF sample_port_idle v this] show ?thesis by blast
qed

end
