(* ===== verification/ProjectLoader.thy ===== *)
theory ProjectLoader
  imports PageBuilder PagesFile
begin

text \<open>
  \<open>ecuSim/src/project_loader.py\<close>: the project directory of TunerStudio, and the parts of
  \<open>ecuSim/simulator.py\<close> that choose the configuration and the tune. The file system is a record
  of functions: which paths exist, what a read gives (\<open>None\<close> where it raises \<open>OSError\<close>), the real
  path, and the tune files of a directory with their modification times.
\<close>

section \<open>Paths\<close>

text \<open>Whether the path is absolute, and its components.\<close>

type_synonym path = "bool \<times> string list"

definition path_parts :: "string \<Rightarrow> string list" where
  "path_parts s = List.filter (\<lambda>c. c \<noteq> [] \<and> c \<noteq> ''.'') (split_on CHR ''/'' s)"

definition Path :: "string \<Rightarrow> path" where
  "Path s = (startswith s ''/'', path_parts s)"

text \<open>\<open>p / name\<close>, \<open>p.parent\<close> and \<open>p.parents\<close>.\<close>

definition join_path :: "path \<Rightarrow> string \<Rightarrow> path" where
  "join_path p s = (if startswith s ''/'' then Path s else (fst p, snd p @ path_parts s))"

definition parent_path :: "path \<Rightarrow> path" where
  "parent_path p = (fst p, butlast (snd p))"

definition parent_paths :: "path \<Rightarrow> path list" where
  "parent_paths p = List.map (\<lambda>k. (fst p, take k (snd p))) (rev [0..<length (snd p)])"

record file_system =
  path_exists :: "path \<Rightarrow> bool"
  file_bytes :: "path \<Rightarrow> bytes option"
  real_path :: "path \<Rightarrow> path"
  msq_files :: "path \<Rightarrow> (path \<times> rat) list"

definition read_bytes :: "file_system \<Rightarrow> path \<Rightarrow> bytes result" where
  "read_bytes fs p = (case file_bytes fs p of Some b \<Rightarrow> Inr b | None \<Rightarrow> Inl OSError)"

section \<open>Properties files\<close>

text \<open>The scan for the first \<open>=\<close> that no backslash escapes; 0 if there is none.\<close>

fun key_end :: "nat \<Rightarrow> string \<Rightarrow> nat" where
  "key_end i [] = 0"
| "key_end i (c # s) =
     (if c = CHR 0x5C \<and> s \<noteq> [] then key_end (i + 2) (tl s)
      else if c = CHR ''='' then i
      else key_end (i + 1) s)"

text \<open>\<open>key.replace("\\ ", " ")\<close>.\<close>

fun unescape_spaces :: "string \<Rightarrow> string" where
  "unescape_spaces [] = []"
| "unescape_spaces (c # s) =
     (if c = CHR 0x5C \<and> s \<noteq> [] \<and> hd s = CHR '' '' then CHR '' '' # unescape_spaces (tl s)
      else c # unescape_spaces s)"

definition parse_property :: "string \<Rightarrow> (string, string) dict \<Rightarrow> (string, string) dict" where
  "parse_property line props =
     (if line = [] \<or> startswith line ''#'' then props
      else if contains line ''='' then
        (let k = key_end 0 line in
         if k > 0 then dict_set (strip (unescape_spaces (take k line))) (strip (drop (k + 1) line)) props
         else props)
      else props)"

definition parse_properties :: "string \<Rightarrow> (string, string) dict" where
  "parse_properties content = fold (\<lambda>line. parse_property (strip line)) (splitlines content) []"

definition parse_properties_file :: "file_system \<Rightarrow> path \<Rightarrow> (string, string) dict result" where
  "parse_properties_file fs p =
     (if \<not> path_exists fs p then Inr []
      else bindE (read_bytes fs p) (\<lambda>b. Inr (parse_properties (read_text b))))"

section \<open>Projects\<close>

record project_config =
  project_name :: string
  project_path :: path
  com_port :: string
  baud_rate :: int
  ini_file :: "path option"
  tune_file :: "path option"
  project_can_id :: int
  firmware_description :: string
  project_ini :: "ini_config option"

definition ProjectConfig :: "path \<Rightarrow> project_config" where
  "ProjectConfig p = \<lparr>project_name = [], project_path = p, com_port = ''/dev/ttyUSB0'', baud_rate = 115200,
     ini_file = None, tune_file = None, project_can_id = 0, firmware_description = [], project_ini = None\<rparr>"

definition get_or :: "(string, string) dict \<Rightarrow> string \<Rightarrow> string \<Rightarrow> string" where
  "get_or d k v = (case dict_get d k of Some x \<Rightarrow> x | None \<Rightarrow> v)"

definition port_keys :: "string list" where
  "port_keys = [''commPort'', ''CommSettingCom Port'',
     ''CommSettingMSCommDriver.RS232 Serial InterfaceCom Port'',
     ''CommSettingbarfCommDriver.RS232 Serial InterfaceCom Port'']"

definition find_port :: "(string, string) dict \<Rightarrow> string \<Rightarrow> string" where
  "find_port props port =
     (case List.find (\<lambda>k. get_or props k [] \<noteq> []) port_keys of Some k \<Rightarrow> get_or props k [] | None \<Rightarrow> port)"

text \<open>\<open>re.sub(r"^Modified - ", "", name)\<close>.\<close>

definition drop_modified :: "string \<Rightarrow> string" where
  "drop_modified s = (if startswith s ''Modified - '' then drop 11 s else s)"

definition find_tune :: "file_system \<Rightarrow> path \<Rightarrow> string \<Rightarrow> path option" where
  "find_tune fs p tune_name =
     (if tune_name = [] then None
      else List.find (path_exists fs) [join_path p (drop_modified tune_name), join_path (parent_path p) (drop_modified tune_name)])"

definition load_properties :: "file_system \<Rightarrow> path \<Rightarrow> project_config \<Rightarrow> project_config result" where
  "load_properties fs p cfg =
     bindE (parse_properties_file fs (join_path p ''project.properties'')) (\<lambda>props.
     bindE (parse_int (get_or props ''baudRate'' ''115200'')) (\<lambda>baud.
     bindE (parse_int (get_or props ''canId'' ''0'')) (\<lambda>can.
     Inr (cfg\<lparr>project_name := get_or props ''projectName'' [], com_port := find_port props (com_port cfg),
       baud_rate := baud, ini_file := Some (join_path p (get_or props ''ecuConfigFile'' ''mainController.ini'')),
       tune_file := find_tune fs p (get_or props ''lastDisplayedTuneFile'' []),
       project_can_id := can, firmware_description := get_or props ''firmwareDescription'' []\<rparr>))))"

text \<open>\<open>INIParser(path).parse()\<close>.\<close>

definition load_ini :: "file_system \<Rightarrow> path \<Rightarrow> ini_config result" where
  "load_ini fs p = bindE (read_bytes fs p) parse_ini"

definition load_project :: "file_system \<Rightarrow> path \<Rightarrow> project_config result" where
  "load_project fs p =
     bindE (if path_exists fs (join_path p ''project.properties'') then load_properties fs p (ProjectConfig p)
            else Inr (ProjectConfig p)) (\<lambda>cfg.
     case ini_file cfg of
       Some f \<Rightarrow>
         if path_exists fs f then bindE (load_ini fs f) (\<lambda>c. Inr (cfg\<lparr>project_ini := Some c\<rparr>))
         else if path_exists fs (join_path p ''mainController.ini'') then
           bindE (load_ini fs (join_path p ''mainController.ini'')) (\<lambda>c.
             Inr (cfg\<lparr>ini_file := Some (join_path p ''mainController.ini''), project_ini := Some c\<rparr>))
         else Inr cfg
     | None \<Rightarrow>
         if path_exists fs (join_path p ''mainController.ini'') then
           bindE (load_ini fs (join_path p ''mainController.ini'')) (\<lambda>c.
             Inr (cfg\<lparr>ini_file := Some (join_path p ''mainController.ini''), project_ini := Some c\<rparr>))
         else Inr cfg)"

definition has_properties :: "file_system \<Rightarrow> path \<Rightarrow> bool" where
  "has_properties fs p \<longleftrightarrow> path_exists fs (join_path p ''project.properties'')"

definition has_project_cfg :: "file_system \<Rightarrow> path \<Rightarrow> bool" where
  "has_project_cfg fs p \<longleftrightarrow> path_exists fs (join_path p ''projectCfg'') \<and> has_properties fs (join_path p ''projectCfg'')"

text \<open>The loop over the parents.\<close>

fun search_dirs :: "file_system \<Rightarrow> path list \<Rightarrow> path option" where
  "search_dirs fs [] = None"
| "search_dirs fs (p # ps) =
     (if has_properties fs p then Some p
      else if has_project_cfg fs p then Some (join_path p ''projectCfg'')
      else search_dirs fs ps)"

definition find_project_dir :: "file_system \<Rightarrow> path \<Rightarrow> path option" where
  "find_project_dir fs start =
     (let current = real_path fs start in
      if has_properties fs current then Some current
      else if has_project_cfg fs current then Some (join_path current ''projectCfg'')
      else search_dirs fs (parent_paths current))"

section \<open>What the simulator loads\<close>

text \<open>\<open>find_msq_file\<close> of \<open>simulator.py\<close>: the current tune, else the newest, the first of equals.\<close>

definition newest_first :: "(path \<times> rat) list \<Rightarrow> path list" where
  "newest_first fs = List.map fst (sort_key (\<lambda>x. - snd x) fs)"

definition find_msq_file :: "file_system \<Rightarrow> path \<Rightarrow> path option" where
  "find_msq_file fs p =
     (case List.find (path_exists fs) [join_path (parent_path p) ''CurrentTune.msq'', join_path p ''CurrentTune.msq''] of
        Some f \<Rightarrow> Some f
      | None \<Rightarrow> (case newest_first (msq_files fs p @ msq_files fs (parent_path p)) of f # _ \<Rightarrow> Some f | [] \<Rightarrow> None))"

text \<open>The arguments \<open>--project\<close>, \<open>--ini\<close> and \<open>--tune\<close>.\<close>

record cli_args =
  arg_project :: "string option"
  arg_ini :: "string option"
  arg_tune :: "string option"

definition given :: "string option \<Rightarrow> bool" where
  "given a \<longleftrightarrow> (case a of Some s \<Rightarrow> s \<noteq> [] | None \<Rightarrow> False)"

text \<open>The configuration and where the tune is looked for; \<open>None\<close>: \<open>sys.exit(1)\<close>.\<close>

definition choose_ini :: "file_system \<Rightarrow> cli_args \<Rightarrow> (ini_config \<times> path option) option result" where
  "choose_ini fs args =
     (let tune = (\<lambda>dir. if given (arg_tune args) then Some (Path (the (arg_tune args))) else find_msq_file fs dir) in
      if given (arg_project args) then
        (let p = Path (the (arg_project args)) in
         if \<not> path_exists fs p then Inr None
         else case find_project_dir fs p of
           None \<Rightarrow> Inr None
         | Some dir \<Rightarrow>
             bindE (load_project fs dir) (\<lambda>project.
             Inr (case project_ini project of
                    None \<Rightarrow> None
                  | Some c \<Rightarrow> Some (c, tune dir))))
      else if given (arg_ini args) then
        (let p = Path (the (arg_ini args)) in
         if \<not> path_exists fs p then Inr None
         else bindE (load_ini fs p) (\<lambda>c. Inr (Some (c, tune (parent_path p)))))
      else Inr None)"

definition load_config ::
  "xml_parser \<Rightarrow> file_system \<Rightarrow> cli_args \<Rightarrow> (ini_config \<times> page_builder option) option result" where
  "load_config fromstring fs args =
     bindE (choose_ini fs args) (\<lambda>chosen.
       case chosen of
         None \<Rightarrow> Inr None
       | Some (cfg, Some msq) \<Rightarrow>
           if path_exists fs msq then
             bindE (read_bytes fs msq) (\<lambda>b.
             bindE (load_from_msq fromstring b (PageBuilder cfg)) (\<lambda>(ok, pb).
             Inr (Some (cfg, if ok then Some pb else None))))
           else Inr (Some (cfg, None))
       | Some (cfg, None) \<Rightarrow> Inr (Some (cfg, None)))"

section \<open>Properties files as TunerStudio writes them\<close>

text \<open>Spaces of a key are escaped; a value is written as it is.\<close>

fun escape_spaces :: "string \<Rightarrow> string" where
  "escape_spaces [] = []"
| "escape_spaces (c # s) = (if c = CHR '' '' then CHR 0x5C # CHR '' '' # escape_spaces s else c # escape_spaces s)"

definition property_line :: "string \<times> string \<Rightarrow> string" where
  "property_line kv = escape_spaces (fst kv) @ ''='' @ snd kv"

definition properties_text :: "(string \<times> string) list \<Rightarrow> string" where
  "properties_text kvs = concat (List.map (\<lambda>kv. property_line kv @ [CHR 0x0A]) kvs)"

definition trimmed :: "string \<Rightarrow> bool" where
  "trimmed s \<longleftrightarrow> s = [] \<or> (\<not> is_space (hd s) \<and> \<not> is_space (last s))"

definition property_ok :: "string \<times> string \<Rightarrow> bool" where
  "property_ok kv \<longleftrightarrow> fst kv \<noteq> [] \<and> trimmed (fst kv) \<and> hd (fst kv) \<noteq> CHR ''#'' \<and>
     list_all (\<lambda>c. c \<noteq> CHR ''='' \<and> c \<noteq> CHR 0x5C \<and> \<not> is_newline c) (fst kv) \<and>
     trimmed (snd kv) \<and> list_all (\<lambda>c. \<not> is_newline c) (snd kv)"

lemma strip_trimmed: "trimmed s \<Longrightarrow> strip s = s"
proof (cases "s = []")
  case False
  assume "trimmed s"
  with False have h: "\<not> is_space (hd s)" "\<not> is_space (hd (rev s))" by (simp_all add: trimmed_def hd_rev)
  have "dropWhile is_space t = t" if "t \<noteq> []" "\<not> is_space (hd t)" for t using that by (cases t) simp_all
  with False h show ?thesis by (simp add: strip_def strip_by_def rstrip_by_def lstrip_by_def)
qed (simp add: strip_def strip_by_def rstrip_by_def lstrip_by_def)

lemma lines_acc_line:
  "list_all (\<lambda>c. \<not> is_newline c) l \<Longrightarrow> lines_acc acc (l @ CHR 0x0A # s) = (rev acc @ l) # lines_acc [] s"
  by (induction l arbitrary: acc) (simp_all add: is_newline_def)

lemma splitlines_lines:
  "list_all (\<lambda>l. list_all (\<lambda>c. \<not> is_newline c) l) ls \<Longrightarrow>
     splitlines (concat (List.map (\<lambda>l. l @ [CHR 0x0A]) ls)) = ls"
  unfolding splitlines_def by (induction ls) (simp_all add: lines_acc_line)

lemma key_end_escaped:
  "list_all (\<lambda>c. c \<noteq> CHR ''='' \<and> c \<noteq> CHR 0x5C) k \<Longrightarrow>
     key_end i (escape_spaces k @ CHR ''='' # v) = i + length (escape_spaces k)"
  by (induction k arbitrary: i) auto

lemma unescape_escaped: "list_all (\<lambda>c. c \<noteq> CHR 0x5C) k \<Longrightarrow> unescape_spaces (escape_spaces k) = k"
  by (induction k) auto

lemma escape_spaces_set: "c \<in> set (escape_spaces k) \<Longrightarrow> c = CHR 0x5C \<or> c \<in> set k"
  by (induction k) (auto split: if_splits)

lemma contains_middle: "contains (a @ c # b) [c]"
  by (induction a) (simp_all add: startswith_def)

lemma parse_property_line:
  assumes "property_ok (k, v)"
  shows "parse_property (strip (property_line (k, v))) props = dict_set k v props"
    and "list_all (\<lambda>c. \<not> is_newline c) (property_line (k, v))"
proof -
  let ?e = "escape_spaces k"
  from assms obtain c k' where k: "k = c # k'" "\<not> is_space c" "c \<noteq> CHR ''#''"
    by (cases k) (auto simp: property_ok_def trimmed_def)
  have e: "?e = c # escape_spaces k'" using k(1,2) by (auto simp: is_space_def)
  have chars: "list_all (\<lambda>c. c \<noteq> CHR ''='' \<and> c \<noteq> CHR 0x5C) k" "list_all (\<lambda>c. c \<noteq> CHR 0x5C) k"
    using assms by (auto simp: property_ok_def list_all_iff)
  have nl: "\<not> is_newline CHR 0x5C" "\<not> is_newline CHR ''=''" by (simp_all add: is_newline_def)
  show "list_all (\<lambda>c. \<not> is_newline c) (property_line (k, v))"
    using assms nl escape_spaces_set by (fastforce simp: property_ok_def property_line_def list_all_iff)
  have "last (property_line (k, v)) = (if v = [] then CHR ''='' else last v)" by (simp add: property_line_def)
  moreover have "\<not> is_space CHR ''=''" by (simp add: is_space_def)
  ultimately have "trimmed (property_line (k, v))"
    using assms k(2) by (auto simp: trimmed_def property_ok_def property_line_def e)
  note st = strip_trimmed [OF this]
  have first: "property_line (k, v) = c # (escape_spaces k' @ CHR ''='' # v)" by (simp add: property_line_def e)
  have kend: "key_end 0 (property_line (k, v)) = length ?e"
    using key_end_escaped [OF chars(1), of 0 v] by (simp add: property_line_def)
  have parts: "take (length ?e) (property_line (k, v)) = ?e" "drop (length ?e + 1) (property_line (k, v)) = v"
    by (simp_all add: property_line_def)
  have "contains (property_line (k, v)) ''=''"
    using contains_middle [of ?e "CHR ''=''" v] by (simp add: property_line_def)
  moreover have "property_line (k, v) \<noteq> []" "\<not> startswith (property_line (k, v)) ''#''"
    using k(3) by (simp_all add: first startswith_def)
  moreover have "strip k = k" "strip v = v" using assms by (simp_all add: strip_trimmed property_ok_def)
  moreover have "0 < length ?e" by (simp add: e)
  ultimately show "parse_property (strip (property_line (k, v))) props = dict_set k v props"
    unfolding st parse_property_def kend Let_def parts unescape_escaped [OF chars(2)] by simp
qed



end
