(* ===== verification/ExampleSurvival.thy ===== *)
theory ExampleSurvival
  imports WorkSpec
begin

text \<open>
  Sessions of the stand-alone simulators: which requests can end them, and that nothing else does.
\<close>

section \<open>The earlier version\<close>

text \<open>No request raises.\<close>

lemma work_handle_ok:
  "example_world_ok w \<Longrightarrow> \<exists>r w'. work_handle w req = (Inr r, w') \<and> example_world_ok w'"
proof -
  assume w: "example_world_ok w"
  have sig: "length (encode (xw_signature w) @ [0]) < 65535" using w by (simp add: example_world_ok_def)
  obtain b w' where b: "build_example w = (Inr b, w')" "length b < 65535" "example_world_ok w'"
    using build_example_ok [OF w] by blast
  show ?thesis
    using w b example_response_ok [OF sig, where f = 0] example_response_ok [OF b(2), where f = 1]
      example_response_ok [where d = "[]" and f = "0x83"]
    by (auto simp: work_handle_def work_response_def work_build_def)
qed

text \<open>A system whose \<open>os.read\<close> raises nothing but \<open>OSError\<close>.\<close>

definition reads_only_os_errors :: "'s tty_read \<Rightarrow> bool" where
  "reads_only_os_errors rd \<longleftrightarrow> (\<forall>n s e s'. rd n s = (Inl e, s') \<longrightarrow> e = OSError)"

lemma work_payload_errors:
  "reads_only_os_errors rd \<Longrightarrow> work_payload rd n p s = (Inl e, s') \<Longrightarrow> e = OSError"
proof (induction rd n p s rule: work_payload.induct)
  case (1 rd n p s)
  obtain x y where r: "rd (n - length p) s = (x, y)" by (cases "rd (n - length p) s")
  show ?case
  proof (cases x)
    case (Inl e')
    with "1.prems" r show ?thesis
      unfolding work_payload.simps [of rd n p s] by (auto simp: reads_only_os_errors_def split: if_splits)
  next
    case (Inr c)
    with "1.prems" r "1.IH" [OF _ r [symmetric] Inr] show ?thesis
      unfolding work_payload.simps [of rd n p s] by (auto split: if_splits)
  qed
qed

lemma work_frame_errors: "reads_only_os_errors rd \<Longrightarrow> work_frame rd s = (Inl e, s') \<Longrightarrow> e = OSError"
  by (auto simp: work_frame_def read_then_def reads_only_os_errors_def dest!: work_payload_errors [rotated]
      split: if_splits prod.splits sum.splits)

lemma work_read_request_Inr: "reads_only_os_errors rd \<Longrightarrow> \<exists>r s'. work_read_request ready rd s = (Inr r, s')"
proof -
  assume rd: "reads_only_os_errors rd"
  obtain b s1 where b: "ready s = (b, s1)" by (cases "ready s")
  obtain x s2 where x: "work_frame rd s1 = (x, s2)" by (cases "work_frame rd s1")
  show ?thesis
    using b x work_frame_errors [OF rd, of s1] by (cases x) (auto simp: work_read_request_def)
qed

text \<open>The turns of the loop; each input is the time it starts at and what the clock shows then.\<close>

fun work_turns ::
  "'s tty_select \<Rightarrow> 's tty_read \<Rightarrow> (pyfloat \<times> pyfloat stream) list \<Rightarrow> work_sim \<Rightarrow> 's \<Rightarrow>
     bytes list \<times> py_error option \<times> work_sim \<times> 's" where
  "work_turns ready rd [] st s = ([], None, st, s)"
| "work_turns ready rd ((now, later) # ts) st s =
     (case work_turn ready rd now later st s of
        (out, Some e, st', s') \<Rightarrow> ((case out of Some r \<Rightarrow> [r] | None \<Rightarrow> []), Some e, st', s')
      | (out, None, st', s') \<Rightarrow>
          (let (rs, e, st'', s'') = work_turns ready rd ts st' s'
           in ((case out of Some r \<Rightarrow> [r] | None \<Rightarrow> []) @ rs, e, st'', s'')))"

fun times_ok :: "pyfloat \<Rightarrow> (pyfloat \<times> pyfloat stream) list \<Rightarrow> bool" where
  "times_ok t [] \<longleftrightarrow> True"
| "times_ok t ((now, later) # ts) \<longleftrightarrow> dt_real (py_sub now t) \<and> clock_ok later \<and> times_ok now ts"

lemma work_turn_ok:
  assumes "example_world_ok (ws_world st)" and "loop_sleep (ws_hz st) = Inr ()" and "reads_only_os_errors rd"
    and "dt_real (py_sub now (ws_last_update st))" and "clock_ok later"
  shows "\<exists>out st' s'. work_turn ready rd now later st s = (out, None, st', s') \<and>
    example_world_ok (ws_world st') \<and> ws_hz st' = ws_hz st \<and> ws_last_update st' = now"
proof -
  let ?w = "ws_world st"
  have w: "example_engine_ok (xw_engine ?w)" "draws_ok (xw_draws ?w)" using assms(1) by (simp_all add: example_world_ok_def)
  obtain eng g where u: "example_update (py_sub now (ws_last_update st)) (xw_engine ?w) (xw_draws ?w) = (Inr eng, g)"
    "draws_ok g" "example_engine_ok eng"
    using safe_run [OF example_update_safe [OF w(1) assms(4)] w(2)] by blast
  let ?w1 = "?w\<lparr>xw_engine := eng, xw_draws := g, xw_clock := later\<rparr>"
  have w1: "example_world_ok ?w1" using assms(1,5) u(2,3) by (simp add: example_world_ok_def)
  obtain r s1 where r: "work_read_request ready rd s = (Inr r, s1)" using work_read_request_Inr [OF assms(3)] by blast
  show ?thesis
  proof (cases "r = None \<or> r = Some []")
    case True
    with u(1) r w1 assms(2) show ?thesis
      by (auto simp: work_turn_def work_update_def Let_def)
  next
    case False
    then obtain req where req: "r = Some req" "req \<noteq> []" by auto
    obtain resp w2 where "work_handle ?w1 req = (Inr resp, w2)" "example_world_ok w2"
      using work_handle_ok [OF w1] by blast
    with u(1) r req assms(2) show ?thesis
      by (auto simp: work_turn_def work_update_def Let_def)
  qed
qed


definition sample_work_sim :: work_sim where
  "sample_work_sim = \<lparr>ws_world = example_world0, ws_hz = Fin 64, ws_last_update = Fin 5,
     ws_last_stats = Fin 5, ws_request_count = 0\<rparr>"

lemma times_sample: "times_ok (Fin 5) [(Fin 6, sconst (Fin 6))]"
proof -
  have "rnd 1 = Fin 1" using representable_int [of 1] by (simp add: representable_def)
  then show ?thesis by (simp add: dt_real_def py_sub_def clock_ok_def)
qed


section \<open>The later version\<close>

text \<open>A request that raises: a read of 65535 bytes of a table other than the three it knows.\<close>

definition example_oversized :: "bytes \<Rightarrow> bool" where
  "example_oversized req \<longleftrightarrow> hd req = 0x72 \<and> 7 \<le> length req \<and> req_count req = 65535 \<and>
     req_table req \<notin> {TABLE_SIGNATURE, TABLE_VERSION, TABLE_OUTPC}"

lemma example_handle_ok:
  assumes w: "example_world_ok w" and req: "req \<noteq> []"
  shows "example_world_ok (snd (example_handle w req))"
    and "fst (example_handle w req) = Inl e \<Longrightarrow> e = StructError \<and> example_oversized req"
proof -
  have sig: "length (encode (xw_signature w) @ [0]) < 65535" using w by (simp add: example_world_ok_def)
  obtain b w' where b: "build_example w = (Inr b, w')" "length b < 65535" "example_world_ok w'"
    using build_example_ok [OF w] by blast
  have "example_world_ok (snd (example_handle w req)) \<and>
    (\<forall>e. fst (example_handle w req) = Inl e \<longrightarrow> e = StructError \<and> example_oversized req)"
  proof (cases "hd req = 0x72 \<and> 7 \<le> length req")
    case True
    then have "hd req = 0x72" "7 \<le> length req" by simp_all
    note h = example_handle_read [OF this]
    have cut: "length (slice xs i j) < 65535" if "length xs < 65535" for xs :: bytes and i j using that by simp
    have pad: "length (ljust n 0 (encode (xw_signature w) @ [0])) < 65535" if "n < 65535" for n using sig that by simp
    note lens = cut [OF pad [of 20]] cut [OF pad [of 60]] cut [OF b(2)]
    have zs: "length (zeros (req_count req)) < 65535 \<longleftrightarrow> req_count req \<noteq> 65535" using req_count_bound [of req] by auto
    consider "req_table req = 0x0F" | "req_table req = 0x0E" | "req_table req = 0x07" | "req_table req \<notin> {0x0F, 0x0E, 0x07}" by blast
    then show ?thesis
    proof cases
      case 4
      with zs w True show ?thesis
        unfolding h build_response_eq
        by (simp add: example_oversized_def TABLE_SIGNATURE_def TABLE_VERSION_def TABLE_OUTPC_def del: length_zeros)
    qed (use lens w b(1,3) in \<open>simp_all add: h build_response_eq del: length_slice length_ljust\<close>)
  next
    case False
    then have "\<not> (slice req 0 1 = encode ''r'' \<and> 7 \<le> length req)"
      using req slice_cmd [OF req] by (simp add: encode_def)
    then show ?thesis
      using b w sig example_response_ok [OF sig, where f = 0] example_response_ok [OF b(2), where f = 1]
        example_response_ok [where d = "[]" and f = "0x83"]
      by (auto simp: example_handle_def)
  qed
  then show "example_world_ok (snd (example_handle w req))"
    "fst (example_handle w req) = Inl e \<Longrightarrow> e = StructError \<and> example_oversized req" by blast+
qed

text \<open>What is buffered or still to come.\<close>

lemma example_requests_ok:
  "example_world_ok (xs_world st) \<Longrightarrow> example_requests st fd = (rs, e, st', fd') \<Longrightarrow>
     example_world_ok (xs_world st') \<and> xs_hz st' = xs_hz st \<and> xs_last_update st' = xs_last_update st \<and>
     (\<exists>used. xs_buffer st @ stream fd = used @ xs_buffer st' @ stream fd') \<and>
     (\<forall>x. e = Some x \<longrightarrow> x = StructError \<and>
        (\<exists>pre req rest. xs_buffer st @ stream fd = pre @ frame req @ rest \<and> example_oversized req))"
proof (induction "length (xs_buffer st) + length (stream fd)" arbitrary: st fd rs rule: less_induct)
  case less
  note unf = example_requests.simps [of st fd]
  let ?all = "xs_buffer st @ stream fd"
  show ?case
  proof (cases "xs_buffer st = [] \<or> slice (xs_buffer st) 0 1 = encode ''F''")
    case True
    show ?thesis
    proof (cases "xs_buffer st = []")
      case False
      let ?st = "st\<lparr>xs_request_count := xs_request_count st + 1, xs_buffer := drop 1 (xs_buffer st)\<rparr>"
      obtain rs' where rec: "example_requests ?st fd = (rs', e, st', fd')"
        using less.prems(2) False True unfolding unf by (auto split: prod.splits)
      have all: "?all = take 1 (xs_buffer st) @ xs_buffer ?st @ stream fd" by simp
      have "example_world_ok (xs_world ?st)" using less.prems(1) by simp
      from less.hyps [OF _ this rec] False show ?thesis
        unfolding all by simp (metis append.assoc)
    qed (use less.prems in \<open>simp add: unf\<close>)
  next
    case False
    then have ne: "xs_buffer st \<noteq> []" "slice (xs_buffer st) 0 1 \<noteq> encode ''F''" by simp_all
    obtain x r fd1 where rd: "example_read_request fd (xs_buffer st) = (x, r, fd1)" by (metis prod_cases3)
    from framed_request_parses [OF rd [unfolded example_read_request_def]] obtain got where
      got: "parse_framed_request (xs_buffer st @ got) = (x, r)" "stream fd = got @ stream fd1" by blast
    show ?thesis
    proof (cases x)
      case None
      obtain taken where "xs_buffer st @ got = taken @ r" using parse_suffix [of "xs_buffer st @ got"] got(1) by auto
      with got(2) have "?all = taken @ r @ stream fd1" by (metis append.assoc)
      with less.prems ne rd None show ?thesis by (auto simp: unf)
    next
      case (Some req)
      have p: "xs_buffer st @ got = frame req @ r" "payload_ok req" using parse_Some [of "xs_buffer st @ got" req r] got(1) Some by simp_all
      then have all: "?all = frame req @ r @ stream fd1" using got(2) by (metis append.assoc)
      have req: "req \<noteq> []" using p(2) by (auto simp: payload_ok_def)
      let ?st1 = "st\<lparr>xs_request_count := xs_request_count st + 1, xs_buffer := r\<rparr>"
      obtain y w where h: "example_handle (xs_world st) req = (y, w)" by (cases "example_handle (xs_world st) req")
      note ok = example_handle_ok [OF less.prems(1) req, unfolded h]
      show ?thesis
      proof (cases y)
        case (Inl err)
        with less.prems(2) ne rd Some h have "e = Some err" "st' = ?st1\<lparr>xs_world := w\<rparr>" "fd' = fd1" by (auto simp: unf Let_def)
        with ok Inl all show ?thesis by simp (metis append_Nil)
      next
        case (Inr resp)
        obtain rs' where rec: "example_requests (?st1\<lparr>xs_world := w\<rparr>) fd1 = (rs', e, st', fd')"
          using less.prems(2) ne rd Some h Inr unfolding unf by (auto simp: Let_def split: prod.splits)
        have w: "example_world_ok (xs_world (?st1\<lparr>xs_world := w\<rparr>))" using ok(1) by simp
        have "length r + length (stream fd1) < length (xs_buffer st) + length (stream fd)"
          using framed_request_shorter rd Some unfolding example_read_request_def by blast
        from less.hyps [OF _ w rec] this show ?thesis
          unfolding all by simp (metis append.assoc)
      qed
    qed
  qed
qed

text \<open>The turns of its loop.\<close>

fun example_turns ::
  "(pyfloat \<times> pyfloat stream) list \<Rightarrow> example_sim \<Rightarrow> serial_fd \<Rightarrow> bytes list \<times> py_error option \<times> example_sim \<times> serial_fd" where
  "example_turns [] st fd = ([], None, st, fd)"
| "example_turns ((now, later) # ts) st fd =
     (case example_turn now later st fd of
        (rs, Some e, st', fd') \<Rightarrow> (rs, Some e, st', fd')
      | (rs, None, st', fd') \<Rightarrow>
          (let (rs', e, st'', fd'') = example_turns ts st' fd' in (rs @ rs', e, st'', fd'')))"

lemma example_turn_ok:
  assumes "example_world_ok (xs_world st)" and "loop_sleep (xs_hz st) = Inr ()"
    and "dt_real (py_sub now (xs_last_update st))" and "clock_ok later"
    and run: "example_turn now later st fd = (rs, e, st', fd')"
  shows "example_world_ok (xs_world st') \<and> xs_hz st' = xs_hz st \<and> xs_last_update st' = now \<and>
    (\<exists>used. xs_buffer st @ stream fd = used @ xs_buffer st' @ stream fd') \<and>
    (\<forall>x. e = Some x \<longrightarrow> x = StructError \<and>
       (\<exists>pre req rest. xs_buffer st @ stream fd = pre @ frame req @ rest \<and> example_oversized req))"
proof -
  let ?w = "xs_world st"
  have w: "example_engine_ok (xw_engine ?w)" "draws_ok (xw_draws ?w)" using assms(1) by (simp_all add: example_world_ok_def)
  obtain eng g where u: "example_update (py_sub now (xs_last_update st)) (xw_engine ?w) (xw_draws ?w) = (Inr eng, g)"
    "draws_ok g" "example_engine_ok eng"
    using safe_run [OF example_update_safe [OF w(1) assms(3)] w(2)] by blast
  let ?w1 = "?w\<lparr>xw_engine := eng, xw_draws := g, xw_clock := later\<rparr>"
  have w1: "example_world_ok ?w1" using assms(1,4) u(2,3) by (simp add: example_world_ok_def)
  obtain x fd1 where p: "poll_read 1024 fd = (x, fd1)" by (cases "poll_read 1024 fd")
  let ?raw = "case x of Some (Inr d) \<Rightarrow> d | _ \<Rightarrow> []"
  have stream: "stream fd = ?raw @ stream fd1"
    using poll_read_stream [of 1024 fd] p by (auto split: option.splits sum.splits)
  let ?st1 = "st\<lparr>xs_last_update := now, xs_world := ?w1, xs_buffer := xs_buffer st @ ?raw\<rparr>"
  obtain rs1 e1 st2 fd2 where r: "example_requests ?st1 fd1 = (rs1, e1, st2, fd2)" by (metis prod_cases4)
  have "example_world_ok (xs_world ?st1)" using w1 by simp
  note ok = example_requests_ok [OF this r]
  have fields: "xs_world st' = xs_world st2" "xs_hz st' = xs_hz st2" "xs_last_update st' = xs_last_update st2"
    "xs_buffer st' = xs_buffer st2" "fd' = fd2" "e = e1"
    using run u(1) p r assms(2) ok by (auto simp: example_turn_def Let_def split: option.splits if_splits)
  show ?thesis using ok by (simp add: fields stream)
qed

text \<open>
  C30: the later stand-alone simulator keeps running. Under the conditions of the earlier one,
  whatever arrives, the loop either goes on through every turn or ends with \<open>struct.error\<close>, and that
  only if what arrived holds a frame reading 65535 bytes of a table other than the signature,
  the version and the realtime block.
\<close>

theorem example_survives:
  assumes "example_world_ok (xs_world st)" and "loop_sleep (xs_hz st) = Inr ()" and "times_ok (xs_last_update st) ts"
    and "example_turns ts st fd = (rs, e, st', fd')"
  shows "e = None \<or> (e = Some StructError \<and>
    (\<exists>pre req rest. xs_buffer st @ stream fd = pre @ frame req @ rest \<and> example_oversized req))"
  using assms
proof (induction ts arbitrary: st fd rs)
  case (Cons t ts)
  obtain now later where t: "t = (now, later)" by (cases t)
  with Cons.prems(3) have in1: "dt_real (py_sub now (xs_last_update st))" "clock_ok later" "times_ok now ts" by simp_all
  obtain rs1 e1 st1 fd1 where s1: "example_turn now later st fd = (rs1, e1, st1, fd1)" by (metis prod_cases4)
  note ok = example_turn_ok [OF Cons.prems(1,2) in1(1,2) s1]
  show ?case
  proof (cases e1)
    case None
    then obtain rs2 where rec: "example_turns ts st1 fd1 = (rs2, e, st', fd')"
      using Cons.prems(4) s1 t by (auto split: prod.splits)
    from ok obtain used where used: "xs_buffer st @ stream fd = used @ xs_buffer st1 @ stream fd1" by blast
    have "e = None \<or> (e = Some StructError \<and>
      (\<exists>pre req rest. xs_buffer st1 @ stream fd1 = pre @ frame req @ rest \<and> example_oversized req))"
      by (rule Cons.IH [OF _ _ _ rec]) (use ok Cons.prems(2) in1(3) in simp_all)
    then show ?thesis unfolding used by (metis append.assoc)
  next
    case (Some x)
    with Cons.prems(4) s1 t have "e = Some x" by simp
    with ok Some show ?thesis by blast
  qed
qed simp

definition sample_example_sim :: example_sim where
  "sample_example_sim = \<lparr>xs_world = example_world0, xs_hz = Fin 64, xs_last_update = Fin 5,
     xs_last_stats = Fin 5, xs_request_count = 0, xs_buffer = []\<rparr>"

theorem example_survives_witness:
  "\<exists>rs st' fd'. example_turns [(Fin 6, sconst (Fin 6))] sample_example_sim \<lparr>pending = [], arrivals = [Data [0x46]]\<rparr> = (rs, None, st', fd')"
proof -
  let ?fd = "\<lparr>pending = [], arrivals = [Data [0x46]]\<rparr>"
  obtain rs e st' fd' where run: "example_turns [(Fin 6, sconst (Fin 6))] sample_example_sim ?fd = (rs, e, st', fd')"
    by (metis prod_cases4)
  have "length (stream ?fd) = 1" by (simp add: stream_def)
  moreover have "length (pre @ frame req @ rest) \<noteq> 1" for pre req rest by simp
  ultimately have none: "stream ?fd \<noteq> pre @ frame req @ rest" for pre req rest by metis
  have "e = None \<or> (e = Some StructError \<and>
    (\<exists>pre req rest. xs_buffer sample_example_sim @ stream ?fd = pre @ frame req @ rest \<and> example_oversized req))"
    by (rule example_survives [OF _ _ _ run])
      (use example_world0_ok sleep_64 times_sample in \<open>simp_all add: sample_example_sim_def\<close>)
  with none run show ?thesis by (auto simp: sample_example_sim_def)
qed

end
