(* ===== verification/Inspect.thy ===== *)
theory Inspect
  imports DashSpec "HOL-Library.Multiset"
begin

text \<open>
  \<open>testingTools/inspect_capture.py\<close>: the tool that reads a capture (\<open>inspect_load_capture\<close> of
  \<open>Capture\<close>) and shows its statistics, some of its frames, or all of them as a table. Its results are
  values here; \<open>InspectText\<close> formats them.
\<close>

section \<open>Fields\<close>

record inspect_field =
  if_name :: string
  if_data :: string
  if_offset :: int
  if_units :: string
  if_scale :: pyfloat
  if_translate :: pyfloat

definition inspect_size :: "inspect_field \<Rightarrow> nat" where
  "inspect_size f =
     (let dt = if_data f in
      if dt = ''U08'' then 1 else if dt = ''S08'' then 1 else if dt = ''U16'' then 2
      else if dt = ''S16'' then 2 else if dt = ''U32'' then 4 else if dt = ''S32'' then 4 else 2)"

definition inspect_format :: "inspect_field \<Rightarrow> fmt" where
  "inspect_format f =
     (let dt = if_data f in
      if dt = ''U08'' then (LittleEndian, FmtB) else if dt = ''S08'' then (LittleEndian, FmtSb)
      else if dt = ''U16'' then (LittleEndian, FmtH) else if dt = ''S16'' then (LittleEndian, FmtSh)
      else if dt = ''U32'' then (LittleEndian, FmtI) else if dt = ''S32'' then (LittleEndian, FmtSi)
      else (LittleEndian, FmtH))"

text \<open>A definition line: the field it stores, if any.\<close>

definition inspect_field_line :: "string \<Rightarrow> inspect_field option" where
  "inspect_field_line line =
     (case re_match re_field line of
        None \<Rightarrow> None
      | Some (g, rest) \<Rightarrow>
          let parts = List.map strip (split_on CHR '','' (group 2 g)) in
          if length parts < 3 then None
          else if lower (parts ! 0) \<noteq> ''scalar'' \<and> lower (parts ! 0) \<noteq> ''bits'' then None
          else case parse_int (parts ! 2) of
            Inl e \<Rightarrow> None
          | Inr off \<Rightarrow>
              if lower (parts ! 0) = ''scalar'' then
                (let (sc, tr) =
                   (case (if length parts > 4 then parse_float (parts ! 4) else Inr (Fin 1)) of
                      Inl e \<Rightarrow> (Fin 1, Fin 0)
                    | Inr sc \<Rightarrow>
                        (case (if length parts > 5 then parse_float (parts ! 5) else Inr (Fin 0)) of
                           Inl e \<Rightarrow> (Fin 1, Fin 0)
                         | Inr tr \<Rightarrow> (sc, tr)))
                 in Some \<lparr>if_name = group 1 g, if_data = upper (parts ! 1), if_offset = off,
                      if_units = (if length parts > 3 then strip_chars [CHR 0x22] (parts ! 3) else []),
                      if_scale = sc, if_translate = tr\<rparr>)
              else None)"

text \<open>A stripped line, on whether the section is \<open>[OutputChannels]\<close> and the fields so far.\<close>

definition inspect_line ::
  "string \<Rightarrow> bool \<times> (string, inspect_field) dict \<Rightarrow> bool \<times> (string, inspect_field) dict" where
  "inspect_line line st =
     (if line = [] \<or> startswith line '';'' then st
      else if startswith line ''['' then (strip_chars ''[]'' line = ''OutputChannels'', snd st)
      else if \<not> fst st then st
      else if \<not> contains line ''='' \<or> contains line ''{'' then st
      else case inspect_field_line line of
        None \<Rightarrow> st
      | Some f \<Rightarrow> (fst st, dict_set (if_name f) f (snd st)))"

definition parse_ini_fields :: "bytes \<Rightarrow> (string, inspect_field) dict" where
  "parse_ini_fields file =
     snd (fold (\<lambda>line. inspect_line (strip line)) (splitlines (remove_line_prefixes (read_text file))) (False, []))"

definition inspect_decode :: "bytes \<Rightarrow> inspect_field \<Rightarrow> pyfloat result" where
  "inspect_decode data f =
     (if if_offset f + int (inspect_size f) > int (length data) then Inr (Fin 0)
      else bindE (unpack_from (inspect_format f) data (if_offset f)) (\<lambda>raw.
           bindE (py_float raw) (\<lambda>r. Inr (py_mul (py_add r (if_translate f)) (if_scale f)))))"

section \<open>Statistics\<close>

record capture_info =
  info_frames :: nat
  info_block_size :: nat
  info_duration :: int
  info_avg_interval :: pyfloat
  info_avg_rate :: pyfloat
  info_min_interval :: int
  info_max_interval :: int
  info_gap :: bool

text \<open>The timestamps' differences, and \<open>a / b\<close> of integers, correctly rounded.\<close>

fun intervals :: "capture_frame list \<Rightarrow> int list" where
  "intervals (a # b # fs) = (int (timestamp_us b) - int (timestamp_us a)) # intervals (b # fs)"
| "intervals fs = []"

definition int_div :: "int \<Rightarrow> int \<Rightarrow> pyfloat" where
  "int_div a b = rnd (of_int a / of_int b)"

text \<open>\<open>show_info\<close> for the frames of a capture: \<open>None\<close> for a capture without frames.\<close>

definition show_info :: "capture_frame list \<Rightarrow> capture_info option result" where
  "show_info fs =
     (if fs = [] then Inr None
      else let duration = int (timestamp_us (last fs)) - int (timestamp_us (hd fs));
               avg = (if length fs > 1 then int_div duration (int (length fs) - 1) else Fin 0);
               ivs = intervals fs;
               mn = (if ivs = [] then 0 else Min (set ivs));
               mx = (if ivs = [] then 0 else Max (set ivs))
           in bindE (if py_lt (Fin 0) avg then py_div (Fin 1000000) avg else Inr (Fin 0)) (\<lambda>rate.
              Inr (Some \<lparr>info_frames = length fs, info_block_size = length (outpc_data (hd fs)),
                info_duration = duration, info_avg_interval = avg, info_avg_rate = rate,
                info_min_interval = mn, info_max_interval = mx,
                info_gap = py_lt (py_mul avg (Fin 3)) (Fin (of_int mx))\<rparr>)))"

section \<open>Frames\<close>

text \<open>The range of frames a text like \<open>0-10\<close>, \<open>5\<close> or \<open>100-\<close> stands for, in a capture of \<open>n\<close> frames.\<close>

definition dump_range :: "string \<Rightarrow> nat \<Rightarrow> (int \<times> int) result" where
  "dump_range r n =
     bindE (if contains r ''-'' then
              (let parts = split_on CHR ''-'' r in
               bindE (if parts ! 0 \<noteq> [] then parse_int (parts ! 0) else Inr 0) (\<lambda>s.
               bindE (if parts ! 1 \<noteq> [] then parse_int (parts ! 1) else Inr (int n)) (\<lambda>e.
               Inr (s, e))))
            else bindE (parse_int r) (\<lambda>s. Inr (s, s + 1)))
       (\<lambda>(s, e). Inr (max 0 s, min (int n) e))"

definition key_fields :: "string list" where
  "key_fields = [''rpm'', ''map'', ''tps'', ''afr1'', ''coolant'', ''batteryVoltage'', ''advance'']"

text \<open>What is shown of a frame: its number and time, its length, and its key fields or its first bytes.\<close>

record frame_dump =
  dump_index :: int
  dump_time :: pyfloat
  dump_length :: nat
  dump_values :: "(string \<times> pyfloat \<times> string) list"
  dump_hex :: bytes

definition dump_frame :: "(string, inspect_field) dict \<Rightarrow> capture_frame list \<Rightarrow> int \<Rightarrow> frame_dump result" where
  "dump_frame fs frames i =
     (let fr = frames ! nat i;
          display = List.filter (\<lambda>n. dict_get fs n \<noteq> None) key_fields;
          shown = \<lparr>dump_index = i, dump_time = int_div (int (timestamp_us fr)) 1000000,
                   dump_length = length (outpc_data fr), dump_values = [], dump_hex = []\<rparr>
      in if display \<noteq> [] then
           bindE (foldE (\<lambda>n vs. case dict_get fs n of
                      Some f \<Rightarrow> bindE (inspect_decode (outpc_data fr) f) (\<lambda>v. Inr (vs @ [(n, v, if_units f)]))
                    | None \<Rightarrow> Inl KeyError) display []) (\<lambda>vs.
           Inr (shown\<lparr>dump_values := vs\<rparr>))
         else Inr (shown\<lparr>dump_hex := slice (outpc_data fr) 0 32\<rparr>))"

definition dump_frames :: "(string, inspect_field) dict \<Rightarrow> capture_frame list \<Rightarrow> string \<Rightarrow> frame_dump list result" where
  "dump_frames fs frames r =
     bindE (dump_range r (length frames)) (\<lambda>(s, e).
     foldE (\<lambda>i ds. bindE (dump_frame fs frames i) (\<lambda>d. Inr (ds @ [d]))) [s..e - 1] [])"

text \<open>
  \<open>export_csv\<close>: the header and the rows, \<open>None\<close> where the tool exits for want of fields.
\<close>

definition export_csv ::
  "(string, inspect_field) dict \<Rightarrow> capture_frame list \<Rightarrow> (string list \<times> (pyfloat \<times> pyfloat list) list) option result" where
  "export_csv fs frames =
     (if fs = [] then Inr None
      else let sorted_fields = sort_key if_offset (List.map snd fs) in
        bindE (foldE (\<lambda>fr rs.
            bindE (foldE (\<lambda>f vs. bindE (inspect_decode (outpc_data fr) f) (\<lambda>v. Inr (vs @ [v]))) sorted_fields []) (\<lambda>vs.
            Inr (rs @ [(int_div (int (timestamp_us fr)) 1000000, vs)]))) frames []) (\<lambda>rs.
        Inr (Some (''timestamp_s'' # List.map if_name sorted_fields, rs))))"

section \<open>Properties\<close>

lemma inspect_decode_total: "0 \<le> if_offset f \<Longrightarrow> \<exists>x. inspect_decode data f = Inr x"
proof (cases "if_offset f + int (inspect_size f) \<le> int (length data)")
  case True
  assume off: "0 \<le> if_offset f"
  have size: "calcsize (snd (inspect_format f)) = inspect_size f"
    by (simp add: inspect_format_def inspect_size_def Let_def)
  then have "nat (if_offset f) + calcsize (snd (inspect_format f)) \<le> length data" using True off by linarith
  then obtain k where k: "unpack_from (inspect_format f) data (if_offset f) = Inr k"
    using True off by (auto simp: unpack_from_def struct_unpack_def resolve_offset_nonneg size)
  have "inspect_format f = dash_format \<lparr>df_name = [], df_type = [], df_data = if_data f, df_offset = 0, df_units = [],
      df_scale = Fin 0, df_translate = Fin 0, df_bits = None\<rparr>"
    by (simp add: dash_format_def inspect_format_def Let_def)
  with k raw_float have "py_float k = Inr (Fin (of_int k))" by metis
  with k True show ?thesis by (simp add: inspect_decode_def)
qed (simp add: inspect_decode_def)

text \<open>
  The capture tool and the dashboard agree. A scalar channel that both read from an INI file
  with the same type, offset, scale and translation decodes to the same number in every block
  that reaches it, and to zero in every block that does not, for an offset that is not negative.
\<close>

lemma inspect_decodes_as_dash:
  assumes "df_type g = ''scalar''" and "df_data g = if_data f" and "df_offset g = if_offset f"
    and "df_scale g = if_scale f" and "df_translate g = if_translate f" and "0 \<le> if_offset f"
  shows "\<exists>x. inspect_decode data f = Inr x \<and>
    decode_field data g = Inr (if if_offset f + int (inspect_size f) \<le> int (length data) then VFloat x else VInt 0) \<and>
    (int (length data) < if_offset f + int (inspect_size f) \<longrightarrow> x = Fin 0)"
proof -
  have fmt: "dash_format g = inspect_format f" and size: "dash_size g = inspect_size f"
    using assms(2) by (simp_all add: dash_format_def inspect_format_def dash_size_def inspect_size_def Let_def)
  obtain x where x: "inspect_decode data f = Inr x" using inspect_decode_total [OF assms(6)] by blast
  show ?thesis
  proof (cases "if_offset f + int (inspect_size f) \<le> int (length data)")
    case True
    with x obtain k where k: "unpack_from (inspect_format f) data (if_offset f) = Inr k"
      by (auto simp: inspect_decode_def bindE_eq_Inr)
    have "py_float k = Inr (Fin (of_int k))" using raw_float [of g data "if_offset f" k] fmt k by simp
    with x k True assms fmt size show ?thesis by (simp add: decode_field_def inspect_decode_def)
  next
    case False
    with x assms(3) size show ?thesis by (simp add: decode_field_def inspect_decode_def)
  qed
qed

definition rpm_column :: inspect_field where
  "rpm_column = \<lparr>if_name = ''rpm'', if_data = ''U16'', if_offset = 6, if_units = ''RPM'',
     if_scale = Fin 1, if_translate = Fin 0\<rparr>"

text \<open>A range never reaches outside the capture, whatever its text.\<close>

lemma dump_range_inside:
  "dump_range r n = Inr (s, e) \<Longrightarrow> 0 \<le> s \<and> e \<le> int n"
  by (auto simp: dump_range_def bindE_eq_Inr)

lemma intervals_length: "length (intervals fs) = length fs - 1"
  by (induction fs rule: intervals.induct) simp_all

lemma intervals_sum: "fs \<noteq> [] \<Longrightarrow> sum_list (intervals fs) = int (timestamp_us (last fs)) - int (timestamp_us (hd fs))"
  by (induction fs rule: intervals.induct) simp_all

lemma foldE_collect:
  "(\<And>x. x \<in> set xs \<Longrightarrow> g x = Inr (h x)) \<Longrightarrow>
     foldE (\<lambda>x acc. bindE (g x) (\<lambda>v. Inr (acc @ [v]))) xs acc = Inr (acc @ List.map h xs)"
  by (induction xs arbitrary: acc) simp_all

text \<open>
  The exported table is the capture. With channels at offsets that are not negative the export
  does not fail; its columns are the channels of the INI file in the order of their offsets, under
  their names, it has one row for each frame, and every cell is the channel decoded from the
  frame's block.
\<close>

lemma export_csv_table:
  assumes "fs \<noteq> []" and "list_all (\<lambda>(n, f). 0 \<le> if_offset f) fs"
  shows "\<exists>cols rs. export_csv fs frames = Inr (Some (''timestamp_s'' # List.map if_name cols, rs)) \<and>
    mset cols = mset (List.map snd fs) \<and> sorted (List.map if_offset cols) \<and> length rs = length frames \<and>
    (\<forall>i<length frames. fst (rs ! i) = int_div (int (timestamp_us (frames ! i))) 1000000 \<and>
      length (snd (rs ! i)) = length cols \<and>
      (\<forall>j<length cols. inspect_decode (outpc_data (frames ! i)) (cols ! j) = Inr (snd (rs ! i) ! j)))"
proof -
  define cols where "cols = sort_key if_offset (List.map snd fs)"
  define cell where "cell fr f = projr (inspect_decode (outpc_data fr) f)" for fr :: capture_frame and f
  have "f \<in> set cols \<Longrightarrow> \<exists>x. inspect_decode data f = Inr x" for f data
    using assms(2) inspect_decode_total by (fastforce simp: cols_def list_all_iff)
  then have cell: "f \<in> set cols \<Longrightarrow> inspect_decode (outpc_data fr) f = Inr (cell fr f)" for f fr
    unfolding cell_def by (metis sum.sel(2))
  have row: "foldE (\<lambda>f vs. bindE (inspect_decode (outpc_data fr) f) (\<lambda>v. Inr (vs @ [v]))) cols [] =
      Inr (List.map (cell fr) cols)" for fr
    using foldE_collect [of cols "inspect_decode (outpc_data fr)" "cell fr" "[]"] cell by simp
  define rs where "rs = List.map (\<lambda>fr. (int_div (int (timestamp_us fr)) 1000000, List.map (cell fr) cols)) frames"
  have "foldE (\<lambda>fr rs. Inr (rs @ [(int_div (int (timestamp_us fr)) 1000000, List.map (cell fr) cols)])) frames [] = Inr rs"
    using foldE_collect [of frames "\<lambda>fr. Inr (int_div (int (timestamp_us fr)) 1000000, List.map (cell fr) cols)"
        "\<lambda>fr. (int_div (int (timestamp_us fr)) 1000000, List.map (cell fr) cols)" "[]"]
    by (simp add: rs_def)
  then have "export_csv fs frames = Inr (Some (''timestamp_s'' # List.map if_name cols, rs))"
    using assms(1) by (simp add: export_csv_def cols_def [symmetric] row)
  moreover have "mset cols = mset (List.map snd fs)" "sorted (List.map if_offset cols)" by (simp_all add: cols_def)
  moreover have "\<forall>j<length cols. inspect_decode (outpc_data (frames ! i)) (cols ! j) = Inr (snd (rs ! i) ! j)"
    if "i < length frames" for i
    using that cell by (simp add: rs_def)
  ultimately show ?thesis
    by (intro exI [of _ cols] exI [of _ rs]) (simp add: rs_def)
qed

end
