(* ===== verification/InspectText.thy ===== *)
theory InspectText
  imports Inspect DashScreen
begin

text \<open>
  What \<open>inspect_capture.py\<close> prints and writes: durations, the statistics, the frames, the CSV file,
  and its \<open>main\<close>; \<open>format_duration\<close> of \<open>replay_ecu_protocol.py\<close>.
\<close>

section \<open>Durations\<close>

definition format_duration :: "int \<Rightarrow> string result" where
  "format_duration us =
     (let seconds = int_div us 1000000 in
      if py_lt seconds (Fin 60) then Inr (fixed 2 seconds @ ''s'')
      else bindE (bindE (py_floordiv seconds (Fin 60)) py_int) (\<lambda>minutes.
        bindE (py_mod seconds (Fin 60)) (\<lambda>secs.
        if minutes < 60 then Inr (show_int minutes @ ''m '' @ fixed 1 secs @ ''s'')
        else Inr (show_int (minutes div 60) @ ''h '' @ show_int (minutes mod 60) @ ''m '' @ fixed 0 secs @ ''s''))))"

definition replay_format_duration :: "int \<Rightarrow> string result" where
  "replay_format_duration total_us =
     (let seconds = int_div total_us 1000000 in
      if py_lt seconds (Fin 60) then Inr (fixed 1 seconds @ ''s'')
      else bindE (bindE (py_floordiv seconds (Fin 60)) py_int) (\<lambda>minutes.
        bindE (py_mod seconds (Fin 60)) (\<lambda>secs.
        Inr (show_int minutes @ ''m '' @ fixed 1 secs @ ''s''))))"

section \<open>What is printed\<close>

definition milliseconds :: "nat \<Rightarrow> pyfloat \<Rightarrow> string result" where
  "milliseconds n x = bindE (py_div x (Fin 1000)) (\<lambda>ms. Inr (fixed n ms))"

text \<open>\<open>show_info\<close>, with the path and the size of the file; the warning sign is three bytes of UTF-8.\<close>

definition info_text :: "string \<Rightarrow> nat \<Rightarrow> string \<Rightarrow> capture_info option \<Rightarrow> string list result" where
  "info_text path file_size sig info =
     (case info of
        None \<Rightarrow> Inr [''Capture contains no frames'']
      | Some i \<Rightarrow>
          bindE (format_duration (info_duration i)) (\<lambda>duration.
          bindE (milliseconds 2 (info_avg_interval i)) (\<lambda>avg.
          Inr ([''Capture File: '' @ path,
                ''  File size: '' @ show_grouped file_size @ '' bytes'',
                ''  Signature: '' @ sig,
                [],
                ''Frames: '' @ show_nat (info_frames i),
                ''  Block size: '' @ show_nat (info_block_size i) @ '' bytes'',
                ''  Duration: '' @ duration,
                ''  Average rate: '' @ fixed 1 (info_avg_rate i) @ '' Hz'',
                [],
                ''Timing:'',
                ''  Avg interval: '' @ avg @ '' ms'',
                ''  Min interval: '' @ fixed 2 (int_div (info_min_interval i) 1000) @ '' ms'',
                ''  Max interval: '' @ fixed 2 (int_div (info_max_interval i) 1000) @ '' ms''] @
               (if info_gap i
                then [''  '' @ [CHR 0xE2, CHR 0x9A, CHR 0xA0] @ '' Warning: Large gap detected ('' @
                        fixed 1 (int_div (info_max_interval i) 1000) @ '' ms)'']
                else [])))))"

text \<open>\<open>bytes.hex()\<close>.\<close>

definition hex_digit :: "nat \<Rightarrow> char" where
  "hex_digit k = (if k < 10 then digit_char k else char_of (87 + k))"

definition show_hex :: "bytes \<Rightarrow> string" where
  "show_hex bs = concat (List.map (\<lambda>b. [hex_digit (unat b div 16), hex_digit (unat b mod 16)]) bs)"

text \<open>The lines of one frame and of a range of them.\<close>

definition frame_text :: "frame_dump \<Rightarrow> string list" where
  "frame_text d =
     [''Frame '' @ show_int (dump_index d) @ '': t='' @ fixed 3 (dump_time d) @ ''s, '' @
        show_nat (dump_length d) @ '' bytes'',
      ''  '' @ (if dump_values d \<noteq> []
               then join '', '' (List.map (\<lambda>(n, v, u). n @ ''='' @ fixed 1 v @ u) (dump_values d))
               else show_hex (dump_hex d) @ ''...''),
      []]"

definition dump_text :: "(string, inspect_field) dict \<Rightarrow> capture_frame list \<Rightarrow> string \<Rightarrow> string list result" where
  "dump_text fs frames r =
     bindE (dump_range r (length frames)) (\<lambda>(s, e).
     bindE (dump_frames fs frames r) (\<lambda>ds.
     Inr ([''Frames '' @ show_int s @ '' to '' @ show_int (e - 1) @ '':'', []] @ concat (List.map frame_text ds))))"

text \<open>The CSV file, \<open>None\<close> where the tool exits for want of fields.\<close>

definition csv_row :: "pyfloat \<times> pyfloat list \<Rightarrow> string" where
  "csv_row = (\<lambda>(time_sec, vals). join '','' (fixed 6 time_sec # List.map (fixed 4) vals))"

definition csv_file :: "string list \<times> (pyfloat \<times> pyfloat list) list \<Rightarrow> string" where
  "csv_file = (\<lambda>(headers, rs). concat (List.map (\<lambda>l. l @ [newline]) (join '','' headers # List.map csv_row rs)))"

section \<open>The program\<close>

text \<open>
  \<open>main\<close> after its arguments: the exit status, the lines printed to the standard output and the file
  written, or the exception that ended it. Paths are given with the contents of their files, \<open>None\<close>
  for a file that does not exist; opening one that does not exist raises. \<open>ini_arg\<close> is the file of \<open>--ini\<close>,
  \<open>None\<close> where the option is missing or empty.
\<close>

datatype inspect_run =
    InspectExit int "string list" "string option"
  | InspectRaised py_error

definition open_file :: "bytes option \<Rightarrow> bytes result" where
  "open_file f = (case f of Some content \<Rightarrow> Inr content | None \<Rightarrow> Inl OSError)"

definition inspect_export :: "bytes \<Rightarrow> string \<Rightarrow> bytes option \<Rightarrow> inspect_run result" where
  "inspect_export capture csv_path ini_file =
     bindE (inspect_load_capture capture) (\<lambda>(sig, frames).
     bindE (open_file ini_file) (\<lambda>content.
     let fs = parse_ini_fields content in
     bindE (export_csv fs frames) (\<lambda>table.
     case table of
       None \<Rightarrow> Inr (InspectExit 1 [] None)
     | Some t \<Rightarrow> Inr (InspectExit 0
         [''Exporting '' @ show_nat (length frames) @ '' frames with '' @ show_nat (length fs) @ '' fields...'',
          ''Exported to: '' @ csv_path]
         (Some (csv_file t))))))"

definition inspect_dump :: "bytes \<Rightarrow> string \<Rightarrow> bytes option option \<Rightarrow> inspect_run result" where
  "inspect_dump capture frame_range ini_arg =
     bindE (inspect_load_capture capture) (\<lambda>(sig, frames).
     bindE (dump_range frame_range (length frames)) (\<lambda>range.
     bindE (case ini_arg of None \<Rightarrow> Inr [] | Some f \<Rightarrow> bindE (open_file f) (\<lambda>content. Inr (parse_ini_fields content))) (\<lambda>fs.
     bindE (dump_text fs frames frame_range) (\<lambda>ls. Inr (InspectExit 0 ls None)))))"

definition inspect_info :: "string \<Rightarrow> bytes \<Rightarrow> inspect_run result" where
  "inspect_info path capture =
     bindE (inspect_load_capture capture) (\<lambda>(sig, frames).
     bindE (show_info frames) (\<lambda>info.
     bindE (info_text path (length capture) sig info) (\<lambda>ls. Inr (InspectExit 0 ls None))))"

definition inspect_main ::
  "string \<Rightarrow> bytes option \<Rightarrow> string option \<Rightarrow> string option \<Rightarrow> bytes option option \<Rightarrow> inspect_run" where
  "inspect_main path capture dump export ini_arg =
     (case capture of
        None \<Rightarrow> InspectExit 1 [] None
      | Some f \<Rightarrow>
          (case (if export \<noteq> None \<and> export \<noteq> Some [] then
                   (case ini_arg of
                      None \<Rightarrow> Inr (InspectExit 1 [] None)
                    | Some ini_file \<Rightarrow> inspect_export f (the export) ini_file)
                 else if dump \<noteq> None \<and> dump \<noteq> Some [] then inspect_dump f (the dump) ini_arg
                 else inspect_info path f) of
             Inl e \<Rightarrow> InspectRaised e
           | Inr r \<Rightarrow> r))"

section \<open>The exported file\<close>

lemma set_join: "set (join sep xs) \<subseteq> set sep \<union> (\<Union> (set ` set xs))"
  by (induction sep xs rule: join.induct) auto

lemma split_on_lines:
  "(\<And>l. l \<in> set ls \<Longrightarrow> c \<notin> set l) \<Longrightarrow> split_on c (concat (List.map (\<lambda>l. l @ [c]) ls)) = ls @ [[]]"
  by (induction ls) (simp_all add: split_on_append)

lemma newline_is_newline: "is_newline newline"
  by (simp add: is_newline_def newline_def)

lemma csv_row_cells: "split_on CHR '','' (csv_row (t, vals)) = fixed 6 t # List.map (fixed 4) vals"
  unfolding csv_row_def prod.case by (rule split_on_join) (auto dest: fixed_chars)

lemma csv_row_plain: "newline \<notin> set (csv_row r)"
proof
  assume "newline \<in> set (csv_row r)"
  then have "newline = CHR '','' \<or> (\<exists>n v. newline \<in> set (fixed n v))"
    using set_join [of "'',''" "fixed 6 (fst r) # List.map (fixed 4) (snd r)"]
    by (auto simp: csv_row_def case_prod_beta)
  then show False using fixed_chars [of newline] newline_is_newline by (auto simp: newline_def)
qed

text \<open>
  C37: the CSV file holds the capture. With channels at offsets that are not negative and names
  without line breaks, the file has a line for the header and a line for each frame; the columns
  are the channels of the INI file in the order of their offsets; a line has a cell for the time and
  one for each channel, and \<open>float()\<close> of a cell is the value decoded from the frame, rounded to six
  decimals for the time and to four for a channel.
\<close>

theorem csv_reads_back:
  assumes "fs \<noteq> []" and "list_all (\<lambda>(n, f). 0 \<le> if_offset f \<and> newline \<notin> set (if_name f)) fs"
  shows "\<exists>t cols lns. export_csv fs frames = Inr (Some t) \<and> split_on newline (csv_file t) = lns @ [[]] \<and>
    mset cols = mset (List.map snd fs) \<and> sorted (List.map if_offset cols) \<and>
    length lns = Suc (length frames) \<and> lns ! 0 = join '','' (''timestamp_s'' # List.map if_name cols) \<and>
    (\<forall>i<length frames.
       length (split_on CHR '','' (lns ! Suc i)) = Suc (length cols) \<and>
       parse_float (split_on CHR '','' (lns ! Suc i) ! 0) =
         Inr (read_back 6 (int_div (int (timestamp_us (frames ! i))) 1000000)) \<and>
       (\<forall>j<length cols. \<exists>x. inspect_decode (outpc_data (frames ! i)) (cols ! j) = Inr x \<and>
         parse_float (split_on CHR '','' (lns ! Suc i) ! Suc j) = Inr (read_back 4 x)))"
proof -
  have "list_all (\<lambda>(n, f). 0 \<le> if_offset f) fs" using assms(2) by (auto simp: list_all_iff)
  from export_csv_table [OF assms(1) this, of frames] obtain cols rs where
    t: "export_csv fs frames = Inr (Some (''timestamp_s'' # List.map if_name cols, rs))" and
    cols: "mset cols = mset (List.map snd fs)" "sorted (List.map if_offset cols)" and rs: "length rs = length frames" and
    cell: "\<And>i. i < length frames \<Longrightarrow> fst (rs ! i) = int_div (int (timestamp_us (frames ! i))) 1000000 \<and>
      length (snd (rs ! i)) = length cols \<and>
      (\<forall>j<length cols. inspect_decode (outpc_data (frames ! i)) (cols ! j) = Inr (snd (rs ! i) ! j))" by blast
  define header where "header = join '','' (''timestamp_s'' # List.map if_name cols)"
  have "set cols = snd ` set fs" using cols(1) by (metis mset_eq_setD set_map)
  with assms(2) have "\<forall>c\<in>set cols. newline \<notin> set (if_name c)" by (auto simp: list_all_iff)
  then have "newline \<notin> set header"
    using set_join [of "'',''" "''timestamp_s'' # List.map if_name cols"] by (auto simp: header_def newline_def)
  then have "split_on newline (csv_file (''timestamp_s'' # List.map if_name cols, rs)) = (header # List.map csv_row rs) @ [[]]"
    unfolding csv_file_def prod.case header_def [symmetric]
    by (intro split_on_lines) (auto simp: csv_row_plain)
  moreover have "split_on CHR '','' ((header # List.map csv_row rs) ! Suc i) = fixed 6 (fst (rs ! i)) # List.map (fixed 4) (snd (rs ! i))"
    if "i < length frames" for i
    using that rs csv_row_cells [of "fst (rs ! i)" "snd (rs ! i)"] by simp
  ultimately show ?thesis
    using t cols rs cell
    by (intro exI [of _ "(''timestamp_s'' # List.map if_name cols, rs)"] exI [of _ cols] exI [of _ "header # List.map csv_row rs"])
      (simp add: header_def parse_float_fixed)
qed

theorem csv_reads_back_witness:
  "\<exists>t lns. export_csv [(''rpm'', rpm_column)] [\<lparr>timestamp_us = 5, outpc_data = [1, 2]\<rparr>] = Inr (Some t) \<and>
    split_on newline (csv_file t) = lns @ [[]] \<and> length lns = 2 \<and> lns ! 0 = ''timestamp_s,rpm''"
proof -
  have "cols = [rpm_column]" if "mset cols = mset (List.map snd [(''rpm'', rpm_column)])" for cols
    using that by (cases cols) auto
  then show ?thesis
    using csv_reads_back [of "[(''rpm'', rpm_column)]" "[\<lparr>timestamp_us = 5, outpc_data = [1, 2]\<rparr>]"]
    by (force simp: rpm_column_def newline_def)
qed

section \<open>Durations that round up\<close>

text \<open>A second short of two minutes, less a thirty-second, is shown as one minute and sixty seconds.\<close>

lemma duration_shows_sixty:
  "format_duration 119968750 = Inr ''1m 60.0s'' \<and> replay_format_duration 119968750 = Inr ''1m 60.0s''"
proof -
  have "int_div 119968750 1000000 = rnd (3839/32)" by (simp add: int_div_def)
  also have "\<dots> = Fin (3839/32)"
    using representable_dyadic [of 3839 "- 5"] by (simp add: representable_def power_int_minus)
  finally have seconds: "int_div 119968750 1000000 = Fin (3839/32)" .
  have exact: "rnd 60 = Fin 60" "rnd 1 = Fin 1" "rnd 0 = Fin 0"
    using representable_int [of 60] representable_int [of 1] representable_int [of 0]
    by (simp_all add: representable_def)
  have "\<lfloor>(3839/32) / 60 :: rat\<rfloor> = 1" by (rule floor_unique) simp_all
  then have t: "PyFloat.truncate ((3839/32) / 60) = 1" by (simp add: PyFloat.truncate_def)
  then have minutes: "py_floordiv (Fin (3839/32)) (Fin 60) = Inr (Fin 1)"
    by (simp add: py_floordiv_def exact)
  from t have secs: "py_mod (Fin (3839/32)) (Fin 60) = Inr (Fin (1919/32))" by simp
  have "\<lfloor>(1919/32) * 10 :: rat\<rfloor> = 599" by (rule floor_unique) simp_all
  then have "round_even ((1919/32) * 10) = 600" by (simp add: round_even_def)
  moreover have "show_nat 600 = ''600''" "show_int 1 = ''1''" by code_simp+
  ultimately have "fixed 1 (Fin (1919/32)) = ''60.0''" "show_int 1 = ''1''"
    by (simp_all add: fixed_def decimals_def rjust_def)
  with seconds minutes secs show ?thesis
    by (simp add: format_duration_def replay_format_duration_def PyFloat.truncate_def)
qed

end
