(* ===== verification/Programs.thy ===== *)
theory Programs
  imports Simulator ProjectLoader ExampleSurvival Replay InspectText
begin

text \<open>
  The simulators and the replay server as programs: the pseudo-terminal and its symbolic link, the
  files, the loop, the clean-up that follows however the loop ended, and the exit status. And what
  spans two runs: the pages one run saves are those the next serves.
\<close>

section \<open>The terminal\<close>

text \<open>What stands at the path of the link. A link may point to nothing.\<close>

datatype entry = NoEntry | LinkTo string | PlainFile | Folder

text \<open>
  The system around a program: the entry at the link's path, whether its directory can be written,
  the terminal \<open>openpty\<close> would give, and whether this program has its two ends open. Configuring
  the ends changes nothing here: the programs turn its \<open>termios.error\<close> into a warning.
\<close>

record terminals =
  link_entry :: entry
  link_writable :: bool
  next_terminal :: "string option"
  ends_open :: bool

definition openpty :: "terminals \<Rightarrow> string result \<times> terminals" where
  "openpty y =
     (case next_terminal y of
        None \<Rightarrow> (Inl OSError, y)
      | Some slave_path \<Rightarrow> (Inr slave_path, y\<lparr>ends_open := True\<rparr>))"

text \<open>\<open>unlink\<close> and \<open>symlink_to\<close>: the first refuses a directory.\<close>

definition make_link :: "string \<Rightarrow> terminals \<Rightarrow> unit result \<times> terminals" where
  "make_link slave_path y =
     (if link_entry y = Folder then (Inl OSError, y)
      else if \<not> link_writable y then (Inl OSError, y)
      else (Inr (), y\<lparr>link_entry := LinkTo slave_path\<rparr>))"

text \<open>Set-up: the path of the terminal, or the exception, with both ends left open if they were.\<close>

definition open_terminal :: "terminals \<Rightarrow> string result \<times> terminals" where
  "open_terminal y =
     (case openpty y of
        (Inl e, y') \<Rightarrow> (Inl e, y')
      | (Inr slave_path, y') \<Rightarrow>
          (case make_link slave_path y' of
             (Inl e, y'') \<Rightarrow> (Inl e, y'')
           | (Inr u, y'') \<Rightarrow> (Inr slave_path, y'')))"

text \<open>The end of every \<open>finally\<close>.\<close>

definition close_terminal :: "terminals \<Rightarrow> terminals" where
  "close_terminal y =
     (case link_entry y of
        LinkTo p \<Rightarrow> y\<lparr>link_entry := NoEntry, ends_open := False\<rparr>
      | _ \<Rightarrow> y\<lparr>ends_open := False\<rparr>)"

text \<open>
  How a program ends: it exits with a status before or after its loop, or an exception leaves it.
  A loop that no exception ends is ended by Ctrl-C, after which the program returns.
\<close>

datatype outcome = Exited int | Raised py_error

definition loop_outcome :: "py_error option \<Rightarrow> outcome" where
  "loop_outcome e = (case e of None \<Rightarrow> Exited 0 | Some x \<Rightarrow> Raised x)"

section \<open>The \<open>ecuSim\<close> simulator\<close>

text \<open>\<open>_print_startup_info\<close> up to the instructions, and \<open>_print_stats\<close>.\<close>

definition startup_lines :: "ini_config \<Rightarrow> string option \<Rightarrow> string \<Rightarrow> string \<Rightarrow> simulator \<Rightarrow> string list" where
  "startup_lines cfg pages_path slave_path link_path s =
     [replicate 70 CHR ''='', ''MS2Extra ECU Simulator'', replicate 70 CHR ''='', [],
      ''  Signature:     '' @ ini_signature cfg,
      ''  Block Size:    '' @ show_int (ini_block_size cfg) @ '' bytes'',
      ''  Output Fields: '' @ show_nat (length (output_channels cfg)),
      ''  Pages Source:  '' @ pages_source s] @
     (case pages_path of Some p \<Rightarrow> [''  Pages File:    '' @ p] | None \<Rightarrow> []) @
     [[], ''  Virtual Port:  '' @ slave_path, ''  Symlink:       '' @ link_path]"

definition stats_line :: "simulator \<Rightarrow> string" where
  "stats_line s =
     (let eng = engine (scenario (world (conn s))) in
      [CHR 0x0D] @ ''  Mode: '' @ ljust 6 CHR '' '' (mode eng) @ '' | '' @
      ''RPM: '' @ show_fixed 5 0 (rpm eng) @ '' | '' @
      ''MAP: '' @ show_fixed 5 1 (map_kpa eng) @ '' kPa | '' @
      ''TPS: '' @ show_fixed 4 1 (tps eng) @ [CHR 0x25] @ '' | '' @
      ''AFR: '' @ show_fixed 4 1 (afr eng) @ '' | '' @
      ''Requests: '' @ show_wide 6 (int (Simulator.request_count s)) @ ''  '')"

text \<open>
  \<open>_cleanup\<close> as a whole: the pages, then the terminal, which an exception of the save leaves as it is.
\<close>

definition full_cleanup ::
  "bool \<Rightarrow> simulator \<Rightarrow> terminals \<Rightarrow> py_error option \<times> bytes option \<times> terminals" where
  "full_cleanup opens s y =
     (case cleanup opens s of
        (Some (Inl x), file) \<Rightarrow> (Some x, file, y)
      | (saved, file) \<Rightarrow> (None, file, close_terminal y))"

text \<open>
  \<open>start\<close>: the set-up, the loop through the iterations \<open>is\<close>, the clean-up. The responses written, the
  exception that left it, the last state, what the pages file holds then (\<open>None\<close> where it was not
  written), and the terminal.
\<close>

definition ecu_start ::
  "pyfloat \<Rightarrow> pyfloat \<Rightarrow> loop_input list \<Rightarrow> bool \<Rightarrow> simulator \<Rightarrow> terminals \<Rightarrow>
     bytes list \<times> py_error option \<times> simulator \<times> bytes option \<times> terminals" where
  "ecu_start t1 t2 is opens s y =
     (case open_terminal y of
        (Inl e, y') \<Rightarrow> ([], Some e, s, None, y')
      | (Inr slave_path, y') \<Rightarrow>
          (let (rs, e, s') = run_loop is (start_loop t1 t2 s);
               (failed, file, y'') = full_cleanup opens s' y'
           in (rs, (if failed = None then e else failed), s', file, y'')))"

text \<open>
  The arguments of \<open>main\<close> and what a run meets: the clock at the start, the random draws, the two
  readings at the head of the loop, the iterations, and whether the pages file opens for writing.
\<close>

record ecu_args =
  ea_cli :: cli_args
  ea_hz :: pyfloat
  ea_pages :: "string option"
  ea_debug :: bool

record ecu_meets =
  em_clock :: "pyfloat stream"
  em_draws :: rng
  em_last_update :: pyfloat
  em_last_stats :: pyfloat
  em_inputs :: "loop_input list"
  em_opens :: bool

definition pages_path :: "ecu_args \<Rightarrow> path option" where
  "pages_path args = (if given (ea_pages args) then Some (Path (the (ea_pages args))) else None)"

text \<open>The simulator \<open>main\<close> builds, \<open>None\<close> where \<open>load_config\<close> exits.\<close>

definition ecu_build ::
  "xml_parser \<Rightarrow> file_system \<Rightarrow> ecu_args \<Rightarrow> ecu_meets \<Rightarrow> simulator option result" where
  "ecu_build fromstring fs args m =
     bindE (load_config fromstring fs (ea_cli args)) (\<lambda>loaded. Inr
       (case loaded of
          None \<Rightarrow> None
        | Some (cfg, pb) \<Rightarrow>
            Some (ECUSimulator cfg pb (ea_hz args)
              (case pages_path args of None \<Rightarrow> None | Some p \<Rightarrow> Some (file_bytes fs p))
              (ea_debug args) (em_clock m) (em_draws m))))"

text \<open>\<open>main\<close>: the responses, the outcome, the last state of the simulator if one was built, the files
  and the terminal afterwards.\<close>

definition ecu_main ::
  "xml_parser \<Rightarrow> file_system \<Rightarrow> ecu_args \<Rightarrow> ecu_meets \<Rightarrow> terminals \<Rightarrow>
     bytes list \<times> outcome \<times> simulator option \<times> file_system \<times> terminals" where
  "ecu_main fromstring fs args m y =
     (case ecu_build fromstring fs args m of
        Inl e \<Rightarrow> ([], Raised e, None, fs, y)
      | Inr None \<Rightarrow> ([], Exited 1, None, fs, y)
      | Inr (Some s) \<Rightarrow>
          (let (rs, e, s', file, y') =
                 ecu_start (em_last_update m) (em_last_stats m) (em_inputs m) (em_opens m) s y;
               fs' = (case (file, pages_path args) of
                        (Some f, Some p) \<Rightarrow> fs\<lparr>file_bytes := (file_bytes fs)(p \<mapsto> f)\<rparr>
                      | _ \<Rightarrow> fs)
           in (rs, loop_outcome e, Some s', fs', y')))"

section \<open>The stand-alone simulators\<close>

text \<open>The line of statistics of both.\<close>

definition example_stats_line :: "nat \<Rightarrow> example_engine \<Rightarrow> string" where
  "example_stats_line requests eng =
     [CHR 0x0D] @ ''  Mode: '' @ ljust 6 CHR '' '' (x_mode eng) @ '' | RPM: '' @ show_fixed 5 0 (x_rpm eng) @ '' | '' @
     ''MAP: '' @ show_fixed 5 1 (x_map eng) @ '' | TPS: '' @ show_fixed 4 1 (x_tps eng) @ [CHR 0x25] @ '' | '' @
     ''Requests: '' @ show_wide 5 (int requests) @ ''  ''"

text \<open>
  The world and the counters at the head of the loop: the clock is read three times, for the engine,
  the last update and the last statistics.
\<close>

definition example_start ::
  "(string, dash_field) dict \<times> int \<times> string \<Rightarrow> pyfloat \<Rightarrow> pyfloat stream \<Rightarrow> rng \<Rightarrow> example_sim" where
  "example_start parsed hz clk g =
     (let (fs, block_size, sig) = parsed in
      \<lparr>xs_world = \<lparr>xw_fields = fs, xw_block_size = block_size, xw_signature = sig,
         xw_engine = ExampleEngine (shd clk), xw_clock = stl (stl (stl clk)), xw_draws = g\<rparr>,
       xs_hz = hz, xs_last_update = clk !! 1, xs_last_stats = clk !! 2, xs_request_count = 0, xs_buffer = []\<rparr>)"

definition work_start ::
  "(string, dash_field) dict \<times> int \<times> string \<Rightarrow> pyfloat \<Rightarrow> pyfloat stream \<Rightarrow> rng \<Rightarrow> work_sim" where
  "work_start parsed hz clk g =
     (let (fs, block_size, sig) = parsed in
      \<lparr>ws_world = \<lparr>xw_fields = fs, xw_block_size = block_size, xw_signature = sig,
         xw_engine = work_engine (shd clk), xw_clock = stl (stl (stl clk)), xw_draws = g\<rparr>,
       ws_hz = hz, ws_last_update = clk !! 1, ws_last_stats = clk !! 2, ws_request_count = 0\<rparr>)"

text \<open>
  \<open>run_simulator\<close> on the contents of the INI file, through the turns \<open>ts\<close> on the descriptor \<open>fd\<close>.
\<close>

definition example_run ::
  "bytes \<Rightarrow> pyfloat \<Rightarrow> pyfloat stream \<Rightarrow> rng \<Rightarrow> (pyfloat \<times> pyfloat stream) list \<Rightarrow> serial_fd \<Rightarrow> terminals \<Rightarrow>
     bytes list \<times> outcome \<times> terminals" where
  "example_run ini_bytes hz clk g ts fd y =
     (case parse_example_ini ini_bytes of
        Inl e \<Rightarrow> ([], Raised e, y)
      | Inr parsed \<Rightarrow>
          (case open_terminal y of
             (Inl e, y') \<Rightarrow> ([], Raised e, y')
           | (Inr slave_path, y') \<Rightarrow>
               (case example_turns ts (example_start parsed hz clk g) fd of
                  (rs, e, st, fd') \<Rightarrow> (rs, loop_outcome e, close_terminal y'))))"

definition example_main ::
  "bytes option \<Rightarrow> pyfloat \<Rightarrow> pyfloat stream \<Rightarrow> rng \<Rightarrow> (pyfloat \<times> pyfloat stream) list \<Rightarrow> serial_fd \<Rightarrow> terminals \<Rightarrow>
     bytes list \<times> outcome \<times> terminals" where
  "example_main ini_bytes hz clk g ts fd y =
     (case ini_bytes of None \<Rightarrow> ([], Exited 1, y) | Some content \<Rightarrow> example_run content hz clk g ts fd y)"

definition work_run ::
  "'s tty_select \<Rightarrow> 's tty_read \<Rightarrow> bytes \<Rightarrow> pyfloat \<Rightarrow> pyfloat stream \<Rightarrow> rng \<Rightarrow> (pyfloat \<times> pyfloat stream) list \<Rightarrow>
     's \<Rightarrow> terminals \<Rightarrow> bytes list \<times> outcome \<times> terminals" where
  "work_run ready rd ini_bytes hz clk g ts s y =
     (case work_parse_ini ini_bytes of
        Inl e \<Rightarrow> ([], Raised e, y)
      | Inr parsed \<Rightarrow>
          (case open_terminal y of
             (Inl e, y') \<Rightarrow> ([], Raised e, y')
           | (Inr slave_path, y') \<Rightarrow>
               (case work_turns ready rd ts (work_start parsed hz clk g) s of
                  (rs, e, st, s') \<Rightarrow> (rs, loop_outcome e, close_terminal y'))))"

definition work_main ::
  "'s tty_select \<Rightarrow> 's tty_read \<Rightarrow> bytes option \<Rightarrow> pyfloat \<Rightarrow> pyfloat stream \<Rightarrow> rng \<Rightarrow> (pyfloat \<times> pyfloat stream) list \<Rightarrow>
     's \<Rightarrow> terminals \<Rightarrow> bytes list \<times> outcome \<times> terminals" where
  "work_main ready rd ini_bytes hz clk g ts s y =
     (case ini_bytes of None \<Rightarrow> ([], Exited 1, y) | Some content \<Rightarrow> work_run ready rd content hz clk g ts s y)"

section \<open>The replay server\<close>

text \<open>The line of progress after every tenth block, at the time \<open>now\<close>.\<close>

definition progress_line :: "pyfloat \<Rightarrow> pyfloat \<Rightarrow> replay_server \<Rightarrow> string option result" where
  "progress_line start now st =
     (if 0 < outpc_request_count st \<and> outpc_request_count st mod 10 = 0 then
        (let elapsed = py_sub now start in
         bindE (py_float (int (outpc_request_count st))) (\<lambda>n.
         bindE (if py_lt (Fin 0) elapsed then py_div n elapsed else Inr (Fin 0)) (\<lambda>rate.
         Inr (Some ([CHR 0x0D] @ ''  Frame '' @ show_wide 5 (int (frame_index st)) @ ''/'' @
           show_nat (length (frames st)) @ '' ('' @
           show_fixed 5 1 (py_mul (int_div (int (frame_index st)) (int (length (frames st)))) (Fin 100)) @
           [CHR 0x25] @ '')'' @
           (if 0 < loop_count st then '' L'' @ show_nat (loop_count st) else []) @ '' | '' @
           show_fixed 5 1 rate @ '' Hz | Total: '' @ show_nat (Replay.request_count st) @ ''  '')))))
      else Inr None)"

definition replay_run ::
  "bytes option \<Rightarrow> bool \<Rightarrow> string option \<Rightarrow> bool \<Rightarrow> nat \<Rightarrow> serial_fd \<Rightarrow> terminals \<Rightarrow>
     bytes list \<times> outcome \<times> terminals" where
  "replay_run capture loop sig debug n fd y =
     (case start_replay capture loop sig of
        Inl e \<Rightarrow> ([], Raised e, y)
      | Inr None \<Rightarrow> ([], Exited 1, y)
      | Inr (Some st) \<Rightarrow>
          (case open_terminal y of
             (Inl e, y') \<Rightarrow> ([], Raised e, y')
           | (Inr slave_path, y') \<Rightarrow>
               (case replay_turns n debug st fd of
                  (rs, e, st', fd') \<Rightarrow> (rs, loop_outcome e, close_terminal y'))))"

definition replay_main ::
  "bytes option \<Rightarrow> bool \<Rightarrow> string option \<Rightarrow> bool \<Rightarrow> nat \<Rightarrow> serial_fd \<Rightarrow> terminals \<Rightarrow> bytes list \<times> outcome \<times> terminals" where
  "replay_main capture no_loop sig debug n fd y =
     (if capture = None then ([], Exited 1, y) else replay_run capture (\<not> no_loop) sig debug n fd y)"

section \<open>What a run leaves behind\<close>

text \<open>A terminal that can be opened and linked.\<close>

definition terminal_ready :: "terminals \<Rightarrow> bool" where
  "terminal_ready y \<longleftrightarrow> next_terminal y \<noteq> None \<and> link_entry y \<noteq> Folder \<and> link_writable y"

lemma open_terminal_ready:
  "terminal_ready y \<Longrightarrow> \<exists>sp. open_terminal y = (Inr sp, y\<lparr>ends_open := True, link_entry := LinkTo sp\<rparr>)"
  by (auto simp: terminal_ready_def open_terminal_def openpty_def make_link_def)

lemma open_close_terminal [simp]:
  "close_terminal (y\<lparr>ends_open := True, link_entry := LinkTo sp\<rparr>) = y\<lparr>link_entry := NoEntry, ends_open := False\<rparr>"
  by (simp add: close_terminal_def)

text \<open>
  Whatever the loop of a stand-alone simulator or of the replay server meets, its link and its
  terminal are gone afterwards.
\<close>

lemma terminals_closed:
  assumes "terminal_ready y"
  shows "parse_example_ini ini_bytes = Inr parsed \<Longrightarrow>
      snd (snd (example_run ini_bytes hz clk g ts fd y)) = y\<lparr>link_entry := NoEntry, ends_open := False\<rparr>"
    and "work_parse_ini ini_bytes = Inr parsed \<Longrightarrow>
      snd (snd (work_run ready rd ini_bytes hz clk g ts s y)) = y\<lparr>link_entry := NoEntry, ends_open := False\<rparr>"
    and "start_replay capture loop sig = Inr (Some st) \<Longrightarrow>
      snd (snd (replay_run capture loop sig debug n fd y)) = y\<lparr>link_entry := NoEntry, ends_open := False\<rparr>"
  using open_terminal_ready [OF assms]
  by (auto simp: example_run_def work_run_def replay_run_def split: prod.splits)

text \<open>A set-up that fails at the link leaves both ends of the terminal open: it stands before the \<open>try\<close>.\<close>

lemma failed_setup_leaks:
  assumes "next_terminal y = Some sp" and "link_entry y = Folder"
  shows "open_terminal y = (Inl OSError, y\<lparr>ends_open := True\<rparr>)"
  using assms by (simp add: open_terminal_def openpty_def make_link_def)

section \<open>Pages across runs\<close>

lemma load_config_built:
  assumes "load_config fromstring fs args = Inr (Some (cfg, Some pb))"
  shows "built_pages (pages pb)"
proof -
  from assms obtain chosen where "(case chosen of
      None \<Rightarrow> Inr None
    | Some (c, Some msq) \<Rightarrow>
        if path_exists fs msq then bindE (read_bytes fs msq) (\<lambda>b.
          bindE (load_from_msq fromstring b (PageBuilder c)) (\<lambda>(ok, pb). Inr (Some (c, if ok then Some pb else None))))
        else Inr (Some (c, None))
    | Some (c, None) \<Rightarrow> Inr (Some (c, None))) = Inr (Some (cfg, Some pb))"
    unfolding load_config_def by (auto simp only: bindE_eq_Inr)
  then obtain b c ok pb' where "load_from_msq fromstring b (PageBuilder c) = Inr (ok, pb')"
    "(if ok then Some pb' else None) = Some pb"
    by (cases chosen) (auto simp: bindE_eq_Inr split: option.splits if_splits)
  with load_from_msq_built [OF _ PageBuilder_built] show ?thesis by (auto split: if_splits)
qed

text \<open>The simulator a run of \<open>main\<close> builds, in the conditions under which it serves.\<close>

definition run_ok :: "file_system \<Rightarrow> ecu_args \<Rightarrow> ecu_meets \<Rightarrow> bool" where
  "run_ok fs args m \<longleftrightarrow>
     loop_sleep (ea_hz args) = Inr () \<and> \<not> ea_debug args \<and> clock_ok (em_clock m) \<and> draws_ok (em_draws m) \<and>
     inputs_ok (em_last_update m) (em_inputs m) \<and> em_opens m \<and>
     (case pages_path args of
        None \<Rightarrow> False
      | Some p \<Rightarrow> (case load_pages_from_file (file_bytes fs p) of
          Some d \<Rightarrow> list_all (\<lambda>(t, page). length page < 65535) d | None \<Rightarrow> True))"

lemma ecu_build_ok:
  assumes "load_config fromstring fs (ea_cli args) = Inr (Some (cfg, pb))" and "config_ok cfg" and "run_ok fs args m"
  shows "\<exists>s. ecu_build fromstring fs args m = Inr (Some s) \<and> sim_ok (start_loop t1 t2 s) \<and> has_pages_file s"
proof -
  from assms(3) obtain p where p: "pages_path args = Some p" by (auto simp: run_ok_def split: option.splits)
  have "sources_ok (file_bytes fs p) pb"
    using assms(1,3) p load_config_built by (auto simp: run_ok_def sources_ok_def split: option.splits)
  then show ?thesis
    using assms p ECUSimulator_ok [of cfg "Some (file_bytes fs p)" pb "em_clock m" "em_draws m" "ea_hz args" t1 t2]
    by (simp add: ecu_build_def run_ok_def ECUSimulator_fields)
qed

lemma ecu_build_pages:
  assumes "ecu_build fromstring fs args m = Inr (Some s)" and "pages_path args = Some p" and "file_bytes fs p = Some f"
  shows "\<exists>cfg pb hz dbg clk g. s = ECUSimulator cfg pb hz (Some (Some f)) dbg clk g"
  using assms by (auto simp: ecu_build_def bindE_eq_Inr split: option.splits) blast


definition sample_files :: file_system where
  "sample_files = \<lparr>path_exists = (\<lambda>p. p = Path ''a.ini''), file_bytes = [Path ''a.ini'' \<mapsto> []],
     real_path = (\<lambda>p. p), msq_files = (\<lambda>p. [])\<rparr>"

definition sample_args :: ecu_args where
  "sample_args = \<lparr>ea_cli = \<lparr>arg_project = None, arg_ini = Some ''a.ini'', arg_tune = None\<rparr>,
     ea_hz = Fin 64, ea_pages = Some ''pages.bin'', ea_debug = False\<rparr>"

definition sample_meets :: ecu_meets where
  "sample_meets = \<lparr>em_clock = sconst (Fin 1), em_draws = sconst (1 / 2), em_last_update = Fin 0,
     em_last_stats = Fin 0, em_inputs = [sample_input], em_opens = True\<rparr>"

definition sample_terminals :: terminals where
  "sample_terminals = \<lparr>link_entry = LinkTo ''/dev/pts/7'', link_writable = True,
     next_terminal = Some ''/dev/pts/9'', ends_open = False\<rparr>"


end
