(* ===== verification/MsqParser.thy ===== *)
theory MsqParser
  imports Xml ProjectLoader
begin

text \<open>
  \<open>ecuSim/src/msq_parser.py\<close>: the tune of an MSQ file as values. \<open>fromstring\<close>, the XML parser, is a
  parameter; a numeric value is an integer or a float as its text says.
\<close>

section \<open>Values\<close>

datatype msq_value = MInt int | MFloat pyfloat | MStr string | MList "msq_value list"

record tune_data =
  tune_signature :: string
  tune_comment :: string
  write_date :: string
  firmware_info :: string
  tune_pages :: "(int, (string, msq_value) dict) dict"
  pc_variables :: "(string, msq_value) dict"
  ve_table1 :: "msq_value option"
  ve_table2 :: "msq_value option"
  afr_table1 :: "msq_value option"
  spark_table1 :: "msq_value option"
  req_fuel :: pyfloat
  stoich :: pyfloat
  num_cylinders :: int
  num_injectors :: int

definition TuneData :: tune_data where
  "TuneData = \<lparr>tune_signature = [], tune_comment = [], write_date = [], firmware_info = [],
     tune_pages = [], pc_variables = [], ve_table1 = None, ve_table2 = None, afr_table1 = None,
     spark_table1 = None, req_fuel = Fin 0, stoich = lit (147/10), num_cylinders = 4, num_injectors = 4\<rparr>"

text \<open>A float if the text has a point, otherwise an integer, otherwise the text.\<close>

definition parse_scalar :: "string \<Rightarrow> msq_value" where
  "parse_scalar s =
     (if contains s ''.'' then (case parse_float s of Inr x \<Rightarrow> MFloat x | Inl e \<Rightarrow> MStr s)
      else (case parse_int s of Inr n \<Rightarrow> MInt n | Inl e \<Rightarrow> MStr s))"

definition int_attribute :: "xml \<Rightarrow> string \<Rightarrow> int result" where
  "int_attribute e k = (case xget e k of Some s \<Rightarrow> parse_int s | None \<Rightarrow> Inr 0)"

definition reshape :: "nat \<Rightarrow> nat \<Rightarrow> msq_value list \<Rightarrow> msq_value list" where
  "reshape cols rows vals = List.map (\<lambda>i. MList (slice vals (i * cols) ((i + 1) * cols))) [0..<rows]"

definition parse_array :: "string \<Rightarrow> xml \<Rightarrow> msq_value result" where
  "parse_array text e =
     (let vals = List.map parse_scalar (words text) in
      bindE (int_attribute e ''cols'') (\<lambda>cols.
      bindE (int_attribute e ''rows'') (\<lambda>rows.
      Inr (MList (if cols > 1 \<and> rows > 1 \<and> int (length vals) = cols * rows
                  then reshape (nat cols) (nat rows) vals else vals)))))"

definition has_attribute :: "xml \<Rightarrow> string \<Rightarrow> bool" where
  "has_attribute e k \<longleftrightarrow> (case xget e k of Some s \<Rightarrow> s \<noteq> [] | None \<Rightarrow> False)"

definition endswith :: "string \<Rightarrow> string \<Rightarrow> bool" where
  "endswith s p \<longleftrightarrow> startswith (rev s) (rev p)"

definition parse_value :: "xml \<Rightarrow> msq_value result" where
  "parse_value e =
     (let text = stripped_text e in
      if contains text [CHR 0x0A] \<or> has_attribute e ''cols'' \<or> has_attribute e ''rows'' then parse_array text e
      else if startswith text [CHR 0x22] \<and> endswith text [CHR 0x22] then Inr (MStr (strip_chars [CHR 0x22] text))
      else Inr (parse_scalar text))"

section \<open>The document\<close>

text \<open>\<open>root.find("msq:t", ns) or root.find("t")\<close>: an element without children counts as false.\<close>

definition find_either :: "string \<Rightarrow> xml \<Rightarrow> xml option" where
  "find_either t root_elem =
     (if truthy (xfind (msq_ns t) root_elem) then xfind (msq_ns t) root_elem else xfind t root_elem)"

definition attribute_or :: "xml \<Rightarrow> string \<Rightarrow> string" where
  "attribute_or e k = (case xget e k of Some s \<Rightarrow> s | None \<Rightarrow> [])"

definition parse_bibliography :: "xml \<Rightarrow> tune_data \<Rightarrow> tune_data" where
  "parse_bibliography doc t =
     (case find_either ''bibliography'' doc of
        Some b \<Rightarrow> t\<lparr>tune_comment := attribute_or b ''tuneComment'', write_date := attribute_or b ''writeDate''\<rparr>
      | None \<Rightarrow> t)"

definition parse_version_info :: "xml \<Rightarrow> tune_data \<Rightarrow> tune_data" where
  "parse_version_info doc t =
     (case find_either ''versionInfo'' doc of
        Some v \<Rightarrow> t\<lparr>tune_signature := attribute_or v ''signature'', firmware_info := attribute_or v ''firmwareInfo''\<rparr>
      | None \<Rightarrow> t)"

text \<open>One constant or PC variable of a page.\<close>

definition parse_entry :: "xml \<Rightarrow> (string, msq_value) dict \<Rightarrow> (string, msq_value) dict result" where
  "parse_entry e d =
     (case xget e ''name'' of
        Some (c # cs) \<Rightarrow> bindE (parse_value e) (\<lambda>v. Inr (dict_set (c # cs) v d))
      | _ \<Rightarrow> Inr d)"

definition parse_page :: "xml \<Rightarrow> tune_data \<Rightarrow> tune_data result" where
  "parse_page page t =
     bindE (int_attribute page ''number'') (\<lambda>n.
     bindE (foldE parse_entry (findall_ns ''constant'' page) []) (\<lambda>d.
     bindE (foldE parse_entry (findall_ns ''pcVariable'' page) (pc_variables t)) (\<lambda>v.
     Inr (t\<lparr>pc_variables := v, tune_pages := dict_set n d (tune_pages t)\<rparr>))))"

definition parse_pages :: "xml \<Rightarrow> tune_data \<Rightarrow> tune_data result" where
  "parse_pages doc t = foldE parse_page (findall_ns ''page'' doc) t"

section \<open>The common tables\<close>

text \<open>\<open>float(value)\<close> and what becomes of \<open>nCylinders\<close>.\<close>

definition value_float :: "msq_value \<Rightarrow> pyfloat result" where
  "value_float v =
     (case v of MInt n \<Rightarrow> py_float n | MFloat x \<Rightarrow> Inr x | MStr s \<Rightarrow> parse_float s | MList l \<Rightarrow> Inl TypeError)"

definition cylinders :: "msq_value \<Rightarrow> int \<Rightarrow> int result" where
  "cylinders v n =
     (case v of
        MStr s \<Rightarrow> (case parse_int s of Inr k \<Rightarrow> Inr k | Inl e \<Rightarrow> Inr n)
      | MInt k \<Rightarrow> Inr k
      | MFloat x \<Rightarrow> py_int x
      | MList l \<Rightarrow> Inr n)"

definition pick :: "(string, msq_value) dict \<Rightarrow> string \<Rightarrow> msq_value option \<Rightarrow> msq_value option" where
  "pick d k old = (case dict_get d k of Some v \<Rightarrow> Some v | None \<Rightarrow> old)"

definition extract_page :: "int \<times> (string, msq_value) dict \<Rightarrow> tune_data \<Rightarrow> tune_data result" where
  "extract_page page t =
     (let d = snd page;
          t1 = t\<lparr>ve_table1 := pick d ''veTable1'' (ve_table1 t), ve_table2 := pick d ''veTable2'' (ve_table2 t),
                 afr_table1 := pick d ''afrTable1'' (afr_table1 t),
                 spark_table1 := pick d ''advanceTable1'' (spark_table1 t)\<rparr>
      in bindE (case dict_get d ''nCylinders'' of Some v \<Rightarrow> cylinders v (num_cylinders t) | None \<Rightarrow> Inr (num_cylinders t)) (\<lambda>n.
         bindE (case dict_get d ''reqFuel'' of Some v \<Rightarrow> value_float v | None \<Rightarrow> Inr (req_fuel t)) (\<lambda>r.
         bindE (case dict_get d ''stoich'' of Some v \<Rightarrow> value_float v | None \<Rightarrow> Inr (stoich t)) (\<lambda>s.
         Inr (t1\<lparr>num_cylinders := n, req_fuel := r, stoich := s\<rparr>)))))"

definition extract_common_tables :: "tune_data \<Rightarrow> tune_data result" where
  "extract_common_tables t = foldE extract_page (tune_pages t) t"

text \<open>\<open>parse_msq(path)\<close> on a file with the bytes \<open>file\<close>: a document that does not parse raises \<open>ValueError\<close>.\<close>

definition parse_msq :: "xml_parser \<Rightarrow> bytes \<Rightarrow> tune_data result" where
  "parse_msq fromstring file =
     (case fromstring (remove_line_prefixes (read_text file)) of
        None \<Rightarrow> Inl ValueError
      | Some doc \<Rightarrow>
          bindE (parse_pages doc (parse_version_info doc (parse_bibliography doc TuneData))) extract_common_tables)"

section \<open>The newest tune\<close>

fun first_parsed :: "xml_parser \<Rightarrow> file_system \<Rightarrow> path list \<Rightarrow> tune_data option" where
  "first_parsed fromstring fs [] = None"
| "first_parsed fromstring fs (f # files) =
     (case bindE (read_bytes fs f) (parse_msq fromstring) of
        Inr t \<Rightarrow> Some t
      | Inl e \<Rightarrow> first_parsed fromstring fs files)"

definition load_latest_tune :: "xml_parser \<Rightarrow> file_system \<Rightarrow> path \<Rightarrow> tune_data option" where
  "load_latest_tune fromstring fs p =
     (let files = (if msq_files fs p = [] then msq_files fs (parent_path p) else msq_files fs p)
      in first_parsed fromstring fs (newest_first files))"

section \<open>Properties of tunes\<close>

lemma concat_slices:
  "length xs = n * m \<Longrightarrow> concat (List.map (\<lambda>i. slice xs (i * m) ((i + 1) * m)) [0..<n]) = xs"
proof (induction n arbitrary: xs)
  case (Suc n)
  have "concat (List.map (\<lambda>i. slice (take (n * m) xs) (i * m) ((i + 1) * m)) [0..<n]) = take (n * m) xs"
    using Suc by (intro Suc.IH) simp
  moreover have "slice (take (n * m) xs) (i * m) ((i + 1) * m) = slice xs (i * m) ((i + 1) * m)" if "i < n" for i
  proof -
    have "(i + 1) * m \<le> n * m" using that by (intro mult_right_mono) simp_all
    then show ?thesis by (simp add: slice_def min_absorb1)
  qed
  moreover have last: "slice xs (n * m) ((n + 1) * m) = drop (n * m) xs" using Suc.prems by (simp add: slice_def)
  ultimately have "concat (List.map (\<lambda>i. slice xs (i * m) ((i + 1) * m)) [0..<n]) = take (n * m) xs"
    by (metis (no_types, lifting) map_cong atLeastLessThan_iff set_upt)
  with last show ?case by simp
qed simp

lemma int_attribute_nonempty: "xget e k = Some s \<Longrightarrow> parse_int s = Inr n \<Longrightarrow> has_attribute e k"
  by (cases s) (auto simp: has_attribute_def parse_int_def drop_underscores_def strip_def strip_by_def rstrip_by_def
      lstrip_by_def take_sign_def)

text \<open>
  A table keeps its shape. A constant with \<open>r\<close> rows and \<open>c\<close> columns, both more than one, whose
  text has \<open>r * c\<close> words, is read as \<open>r\<close> rows of \<open>c\<close> values each, which row after row are the words
  of the text, each a number where it is one.
\<close>

lemma msq_table_shape:
  assumes "xget e ''cols'' = Some cs" and "parse_int cs = Inr (int c)" and "1 < c"
    and "xget e ''rows'' = Some rs" and "parse_int rs = Inr (int r)" and "1 < r"
    and "length (words (stripped_text e)) = r * c"
  shows "\<exists>rows. parse_value e = Inr (MList (List.map MList rows)) \<and> length rows = r \<and>
    list_all (\<lambda>row. length row = c) rows \<and> concat rows = List.map parse_scalar (words (stripped_text e))"
proof -
  let ?vals = "List.map parse_scalar (words (stripped_text e))"
  let ?rows = "List.map (\<lambda>i. slice ?vals (i * c) ((i + 1) * c)) [0..<r]"
  have n: "length ?vals = r * c" using assms(7) by simp
  have "int (length ?vals) = int c * int r" by (simp only: n) simp
  then have "parse_array (stripped_text e) e = Inr (MList (List.map MList ?rows))"
    using assms(1-6) by (simp add: parse_array_def int_attribute_def reshape_def comp_def)
  then have "parse_value e = Inr (MList (List.map MList ?rows))"
    using int_attribute_nonempty [OF assms(1,2)] by (simp add: parse_value_def Let_def)
  moreover have "(i + 1) * c \<le> r * c" if "i < r" for i using that by (intro mult_right_mono) simp_all
  then have "list_all (\<lambda>row. length row = c) ?rows" using n by (auto simp: list_all_iff min_absorb1)
  ultimately show ?thesis using concat_slices [OF n] by (intro exI [of _ ?rows]) simp
qed

text \<open>
  The metadata of a namespaced document is lost. An MSQ file has its \<open>bibliography\<close> and
  \<open>versionInfo\<close> in the namespace and without children; such an element counts as false in
  \<open>find(...) or find(...)\<close>, so the second search, for the name without namespace, finds nothing, and
  signature, firmware, comment and date of the tune stay empty.
\<close>

lemma msq_metadata_lost:
  assumes "xfind (msq_ns ''versionInfo'') doc = Some v" and "children v = []"
    and "xfind ''versionInfo'' doc = None"
    and "xfind (msq_ns ''bibliography'') doc = Some b" and "children b = []"
    and "xfind ''bibliography'' doc = None"
  shows "parse_version_info doc (parse_bibliography doc t) = t"
  using assms by (simp add: parse_version_info_def parse_bibliography_def find_either_def truthy_def)

end
