(* ===== verification/Spec2Isabelle.thy ===== *)
theory Spec2Isabelle
  imports Session ConnectionTest Programs IniSpec MsqParser
begin

text \<open>
  Verification of the Python programs of \<open>ms2-serial-interface\<close>: simulators of a Megasquirt-2
  engine controller (ECU), tools that capture and replay its data, and dashboards that show it.

  \<^bold>\<open>The programs.\<close> A client (a dashboard, the capture tool, TunerStudio) and an ECU exchange
  framed requests and responses over a serial line: two bytes of size, the payload, four bytes
  of CRC-32. The ECU answers with its signature, with the block of realtime data (OUTPC), or with
  slices of its configuration pages, which the client may also write. \<open>src/ecuSim\<close> is the main
  simulator: an INI file defines the channels of the block, an MSQ file the contents of the
  pages, a random engine model the values; written pages are saved to a file.
  \<open>src/exampleFiles/ms2_ecu_simulator.py\<close> is a stand-alone forerunner without pages, and
  \<open>src/work-ms2d-daemon/ms2_ecu_simulator.py\<close> an earlier version of that. \<open>src/testingTools\<close> holds the
  capture tool, the replay server that plays a capture back as an ECU, the inspection tool, and two
  programs that test a server. \<open>src/exampleFiles\<close> and \<open>src/work-ms2d-daemon\<close> hold two dashboards, in
  identical copies.

  \<^bold>\<open>Shared vocabulary.\<close>
  \<^item> \<open>Prelude\<close>: exceptions as values (\<open>result\<close>, \<open>bindE\<close>, \<open>catchE\<close>, \<open>foldE\<close>), bytes, slices,
    \<open>decode\<close>, dictionaries as association lists in insertion order.
  \<^item> \<open>PyStruct\<close>: \<open>struct.pack\<close>, \<open>unpack\<close>, \<open>pack_into\<close>, \<open>unpack_from\<close> for the formats used, with
    their round trips. \<open>Crc32\<close>: \<open>binascii.crc32\<close>, its linearity, and that it detects every burst
    of at most four bytes.
  \<^item> \<open>PyFloat\<close>: floats as rationals with the rounding of binary64 after every operation, and
    interval bounds. \<open>PyRandom\<close>: \<open>random.uniform\<close> and \<open>random.choices\<close> as functions of the draws,
    and total correctness (\<open>safe\<close>) of computations that draw. \<open>PyFormat\<close>: the text of numbers, and
    that \<open>float()\<close> reads back what is shown.
  \<^item> \<open>PyText\<close>: string methods, \<open>int()\<close>, \<open>float()\<close>, and a backtracking matcher for the regular
    expressions; \<open>RegexLang\<close>: its soundness for the language of an expression. \<open>Xml\<close>: element trees.
  \<^item> \<open>Framing\<close>: the interfaces, as locales: codecs whose encodings are prefix-free, checked frames,
    page stores, byte sources (what a client needs of a port or a file), machines with an
    invariant. \<open>Channels\<close>: the interface of a builder that packs channel values into a block.
    \<open>Systems\<close>: runs of labelled step relations, with locales for invariants, simulations and
    systems that come to an end. Each is interpreted on the definitions of the components below, and
    the properties use the facts of these interpretations.

  \<^bold>\<open>The components.\<close>
  \<^item> \<open>Protocol\<close> (\<open>ecuSim/src/protocol.py\<close>, class \<open>SerialProtocol\<close>): frames, the dispatch, every
    handler. \<open>EcuSpec\<close>: an abstract ECU (a memory of pages, commands, responses), the proof that the
    handlers implement it, and what follows: writes are read back, pages keep their sizes, the
    one exception that can leave a handler. The OUTPC builder is a callable of the record, on a
    state \<open>'w\<close> of its own.
  \<^item> \<open>RequestBuffer\<close> (class \<open>RequestBuffer\<close> and the request loop of \<open>simulator.py\<close>): the stream of
    messages, answered in order however it is cut into reads. \<open>Session\<close>: a client and the server
    as two processes joined by queues of bytes, with steps of sending, serving and receiving in any
    order; every reachable state is explained by a sequential history, every conversation can be
    completed, and the main loop of the simulator is such a server.
  \<^item> \<open>PagesFile\<close> (\<open>save_pages_to_file\<close>, \<open>load_pages_from_file\<close> of \<open>page_builder.py\<close>): round trip, refusal of
    truncated files, well-formedness of whatever loads.
  \<^item> \<open>IniParser\<close>, \<open>IniSpec\<close> (\<open>ini_parser.py\<close>): the parser object threaded through the lines; it returns
    on every file, and a conditional block selects one branch.
  \<^item> \<open>EngineState\<close> (\<open>engine_state.py\<close>): engine and scenarios; the envelope no step leaves.
    \<open>EngineRealtime\<close>: the unbounded quantities stay moderate at the pace of the loop.
  \<^item> \<open>OutpcBuilder\<close> (\<open>outpc_builder.py\<close>): the values, their encoding, the debug mode; when a block is
    built, and that it reports each channel.
  \<^item> \<open>PageBuilder\<close> (\<open>page_builder.py\<close>): scalars, bits and arrays of a tune written into pages.
    \<open>MsqParser\<close> (\<open>msq_parser.py\<close>). \<open>ProjectLoader\<close> (\<open>project_loader.py\<close>, \<open>load_config\<close> and
    \<open>find_msq_file\<close> of \<open>simulator.py\<close>), with the file system as a record of functions.
  \<^item> \<open>Simulator\<close> (class \<open>ECUSimulator\<close>): construction, where the pages come from, the iterations of the
    loop, the save at the end; the loop goes on.
  \<^item> \<open>Capture\<close> (\<open>capture_ecu_outpc.py\<close> and both \<open>load_capture\<close>): the client's side, capture files, and a
    client joined to the simulator. \<open>CaptureLoop\<close>: \<open>capture_outpc\<close> as a whole, paced by the clock; it
    ends, and a replay of what it wrote serves what the simulator served. \<open>Replay\<close>
    (\<open>replay_ecu_protocol.py\<close>): the server, its reader of requests, and that it answers reads as the
    simulator does. \<open>ReplayPort\<close>: the server joined to a client; a dashboard on a replay shows the blocks
    of the simulator that was captured. \<open>Inspect\<close>, \<open>InspectText\<close> (\<open>inspect_capture.py\<close>): fields, statistics, ranges of
    frames, the text printed, and the CSV file, whose cells read back.
  \<^item> \<open>DashIni\<close>, \<open>DashSpec\<close> (\<open>ms2_ini_dash.py\<close>): parser, exchange with timeouts, decoding, a turn of the
    loop; a turn on a simulator shows its block, and the disagreement on the order of bytes.
    \<open>DashScreen\<close>: the text of the screen, one screen drawn over another, \<open>main\<close>; the numbers read back,
    and the loop goes on. \<open>SerialDash\<close> (\<open>ms2_serial_dash.py\<close>). \<open>WorkDash\<close>: the copies of both.
  \<^item> \<open>ExampleSim\<close>, \<open>ExampleSpec\<close>, \<open>ExampleRealtime\<close>, \<open>ExampleSurvival\<close>
    (\<open>exampleFiles/ms2_ecu_simulator.py\<close>): the stand-alone simulator; its blocks decode as they were
    meant, it answers reads as \<open>ecuSim\<close> does, its engine stays in an envelope and its loop goes on.
  \<^item> \<open>WorkSim\<close>, \<open>WorkSpec\<close> (\<open>work-ms2d-daemon/ms2_ecu_simulator.py\<close>): the earlier version, with its reader on
    \<open>os.read\<close>: which requests it takes, and that a dashboard shows its engine.
  \<^item> \<open>Programs\<close>: the three simulators and the replay server from \<open>main\<close> to the end: the terminal and
    its link, the files, the clean-up; pages handed from one run to the next. \<open>ConnectionTest\<close>
    (\<open>test_replay_connection.py\<close>, \<open>test_f_command.py\<close>): the simulator and the replay server pass both.

  \<^bold>\<open>State and effects.\<close> An object is a record that its methods return updated. A method that may
  raise returns \<open>py_error + 'a\<close>; an exception that the code catches is caught in the model. Serial
  ports are states with a read and a write function, or the list of what each \<open>select\<close> meets; the
  clock and the random generator are streams of the values they will return. Loops are
  structural recursions or functions with a measure; the loops that a standing clock would keep
  running, \<open>read_exact\<close> of the dashboards and the polls of the capture tool, are
  \<open>partial_function (option)\<close>, and that they return is a theorem. A loop without end is a function of
  the inputs of its turns, or of their number.

  \<^bold>\<open>Bounds.\<close> \<open>read_more\<close> takes the number of attempts of the source, 100 for the replay server and 50
  for the stand-alone simulator. The envelope of the engine is proved for steps of 0 to 20
  seconds; speeds reach 6501 and not 6500 for the rounding of the smoothing step. The realtime
  bounds need steps of at least 1/1024 second, for the derivatives divide by the step, and a
  clock within \<open>2 ^ 40\<close> seconds. The INI parser returns for lines of up to 4300 characters, the
  number of digits \<open>int()\<close> converts. Timeouts and durations up to \<open>2 ^ 100\<close> seconds, so that a clock
  that passes every bound passes them after rounding. Shifts by the bit numbers of an INI file are
  computed without the memory limit of the interpreter.

  \<^bold>\<open>Not modelled.\<close> Text outside ASCII is decoded but its characters count as no letter, digit or
  space. The sign of a zero, so a zero that Python shows as \<open>-0.0\<close> is shown as \<open>0.0\<close>.
  \<open>xml.etree.ElementTree.fromstring\<close>, a parameter of the MSQ readers; the messages of exceptions, a
  parameter of the screens. An \<open>OSError\<close> of a read or a write on a file that was opened, and of
  writes to the terminal. Configuring a pseudo-terminal as raw, whose failure is a warning. Argument
  parsing, and the prints that carry no number. Ctrl-C ends a loop between two turns. The daemon in
  C, the vendored JSON library, the browser dashboards, and the configuration and data files.

  \<^bold>\<open>Plan.\<close> Next: the equality of the parsers of \<open>[OutputChannels]\<close> on the files where they agree;
  that the dashboard's parser returns on every file; a capture of a replay, which holds the blocks of
  the first capture in turn.
\<close>

end
